(* ===== verification/Prelude.thy ===== *)
theory Prelude
  imports
    Main
    "HOL-Library.Word"
    "HOL-Library.List_Lexorder"
    "HOL-Library.Char_ord"
begin

text \<open>
  What every component of the development shares: bytes and strings, Rust's 64-bit
  arithmetic, the state-and-error actions in which the handlers are written with the
  small calculus of preserved predicates over them, list facts, and the interface of
  encodings that are read back (\<open>codec\<close>).
\<close>

named_theorems action_simps \<open>unfolding rules of the action combinators\<close>
named_theorems keeps_intros \<open>introduction rules for preserved predicates\<close>
named_theorems keeps_cache \<open>introduction rules for predicates that do not look at the database\<close>

section \<open>Bytes, strings and machine integers\<close>

type_synonym byte = "8 word"
type_synonym bytes = "byte list"

text \<open>
  A Rust \<open>String\<close> is a sequence of bytes that is valid UTF-8; the model keeps it as a list
  of 8-bit characters, so that \<open>length\<close> is \<open>String::len\<close>.
\<close>

definition byte_of_char :: "char \<Rightarrow> byte" where
  "byte_of_char c = word_of_nat (of_char c)"

definition char_of_byte :: "byte \<Rightarrow> char" where
  "char_of_byte b = char_of (unat b)"

definition as_bytes :: "string \<Rightarrow> bytes" where
  "as_bytes s = map byte_of_char s"

definition of_bytes :: "bytes \<Rightarrow> string" where
  "of_bytes bs = map char_of_byte bs"

lemma char_of_byte_of_char [simp]: "char_of_byte (byte_of_char c) = c"
proof -
  have "(of_char c :: nat) < 256"
    by simp
  then have "unat (word_of_nat (of_char c) :: byte) = of_char c"
    by (simp add: unat_of_nat)
  then show ?thesis
    by (simp add: char_of_byte_def byte_of_char_def)
qed

lemma byte_of_char_of_byte [simp]: "byte_of_char (char_of_byte b) = b"
proof -
  have "unat b < 256"
    using unsigned_less [of b] by simp
  then have "(of_char (char_of (unat b) :: char) :: nat) = unat b"
    by (simp add: of_char_of)
  then show ?thesis
    by (simp add: char_of_byte_def byte_of_char_def)
qed

lemma of_bytes_as_bytes [simp]: "of_bytes (as_bytes s) = s"
  by (simp add: of_bytes_def as_bytes_def comp_def)

lemma as_bytes_of_bytes [simp]: "as_bytes (of_bytes bs) = bs"
  by (simp add: of_bytes_def as_bytes_def comp_def)

lemma length_as_bytes [simp]: "length (as_bytes s) = length s"
  by (simp add: as_bytes_def)

lemma length_of_bytes [simp]: "length (of_bytes bs) = length bs"
  by (simp add: of_bytes_def)

lemma as_bytes_inject [simp]: "as_bytes s = as_bytes t \<longleftrightarrow> s = t"
  by (metis of_bytes_as_bytes)

text \<open>Well-formed UTF-8, as \<open>String::from_utf8\<close> checks it (table 3-7 of the Unicode standard).\<close>

definition utf8_tail :: "byte \<Rightarrow> bool" where
  "utf8_tail b \<longleftrightarrow> 128 \<le> b \<and> b \<le> 191"

fun utf8_ok :: "bytes \<Rightarrow> bool" where
  "utf8_ok [] = True"
| "utf8_ok (b # bs) =
     (if b \<le> 127 then utf8_ok bs
      else if 194 \<le> b \<and> b \<le> 223 then
        (case bs of c # cs \<Rightarrow> utf8_tail c \<and> utf8_ok cs | _ \<Rightarrow> False)
      else if 224 \<le> b \<and> b \<le> 239 then
        (case bs of
           c # d # cs \<Rightarrow>
             (if b = 224 then 160 \<le> c \<and> c \<le> 191
              else if b = 237 then 128 \<le> c \<and> c \<le> 159
              else utf8_tail c) \<and> utf8_tail d \<and> utf8_ok cs
         | _ \<Rightarrow> False)
      else if 240 \<le> b \<and> b \<le> 244 then
        (case bs of
           c # d # e # cs \<Rightarrow>
             (if b = 240 then 144 \<le> c \<and> c \<le> 191
              else if b = 244 then 128 \<le> c \<and> c \<le> 143
              else utf8_tail c) \<and> utf8_tail d \<and> utf8_tail e \<and> utf8_ok cs
         | _ \<Rightarrow> False)
      else False)"

text \<open>\<open>String::from_utf8\<close>: the string, or the error text of the failed check.\<close>

definition from_utf8 :: "bytes \<Rightarrow> string + string" where
  "from_utf8 bs = (if utf8_ok bs then Inr (of_bytes bs) else Inl ''invalid utf-8'')"

text \<open>The strings of the program are those whose bytes are valid UTF-8.\<close>

definition is_str :: "string \<Rightarrow> bool" where
  "is_str s \<longleftrightarrow> utf8_ok (as_bytes s)"

lemma from_utf8_as_bytes: "is_str s \<Longrightarrow> from_utf8 (as_bytes s) = Inr s"
  by (simp add: from_utf8_def is_str_def)

text \<open>An \<open>i64\<close> is an \<open>int\<close> in \<open>[-2^63, 2^63)\<close>; a result that may leave it is wrapped.\<close>

definition wrap64 :: "int \<Rightarrow> int" where
  "wrap64 x = sint (word_of_int x :: 64 word)"

definition is_i64 :: "int \<Rightarrow> bool" where
  "is_i64 x \<longleftrightarrow> - (2 ^ 63) \<le> x \<and> x < 2 ^ 63"

definition i64_max :: int where
  "i64_max = 9223372036854775807"

lemma wrap64_id [simp]: "is_i64 x \<Longrightarrow> wrap64 x = x"
  by (simp add: wrap64_def is_i64_def signed_of_int signed_take_bit_int_eq_self)

lemma is_i64_wrap64: "is_i64 (wrap64 x)"
  using sint_ge [of "word_of_int x :: 64 word"] sint_lt [of "word_of_int x :: 64 word"]
  by (simp add: wrap64_def is_i64_def)

text \<open>\<open>i64::saturating_sub\<close>.\<close>

definition sat_sub64 :: "int \<Rightarrow> int \<Rightarrow> int" where
  "sat_sub64 a b = max (- (2 ^ 63)) (min (2 ^ 63 - 1) (a - b))"

text \<open>\<open>u32::saturating_add(1)\<close> on a counter kept as a natural number.\<close>

definition sat_inc32 :: "nat \<Rightarrow> nat" where
  "sat_inc32 n = min (n + 1) (2 ^ 32 - 1)"

text \<open>
  \<open>to_le_bytes\<close>: the bytes of the two's complement, least significant first, and their value
  as an unsigned number.
\<close>

fun le_bytes :: "nat \<Rightarrow> int \<Rightarrow> bytes" where
  "le_bytes 0 x = []"
| "le_bytes (Suc n) x = word_of_int x # le_bytes n (x div 256)"

fun le_value :: "bytes \<Rightarrow> int" where
  "le_value [] = 0"
| "le_value (b # bs) = uint b + 256 * le_value bs"

lemma length_le_bytes [simp]: "length (le_bytes n x) = n"
  by (induction n arbitrary: x) simp_all

lemma le_value_bytes: "le_value (le_bytes n x) = x mod 256 ^ n"
proof (induction n arbitrary: x)
  case (Suc n)
  have "x mod (256 * 256 ^ n) = x mod 256 + 256 * (x div 256 mod 256 ^ n)"
    using zmod_zmult2_eq [of "256 ^ n" x 256] by simp
  then show ?case
    by (simp add: Suc uint_word_of_int)
qed simp

lemma le_bytes_inj:
  assumes "is_i64 x" "is_i64 y" "le_bytes 8 x = le_bytes 8 y"
  shows "x = y"
proof -
  have "x mod 2 ^ 64 = y mod 2 ^ 64"
    using le_value_bytes [of 8 x] le_value_bytes [of 8 y] assms(3) by simp
  then have "(word_of_int x :: 64 word) = word_of_int y"
    by (simp add: word_of_int_eq_iff take_bit_eq_mod)
  then have "wrap64 x = wrap64 y"
    by (simp add: wrap64_def)
  with assms(1, 2) show ?thesis
    by simp
qed

text \<open>\<open>str::strip_prefix\<close>.\<close>

definition strip_prefix :: "string \<Rightarrow> string \<Rightarrow> string option" where
  "strip_prefix p s = (if take (length p) s = p then Some (drop (length p) s) else None)"

lemma strip_prefix_append [simp]: "strip_prefix p (p @ s) = Some s"
  by (simp add: strip_prefix_def)

lemma strip_prefix_SomeD: "strip_prefix p s = Some t \<Longrightarrow> s = p @ t"
  by (auto simp: strip_prefix_def split: if_splits) (metis append_take_drop_id)

text \<open>Decimal notation, as \<open>Display\<close> of an integer prints it.\<close>

fun show_nat :: "nat \<Rightarrow> string" where
  "show_nat n =
     (if n < 10 then [char_of (48 + n)]
      else show_nat (n div 10) @ [char_of (48 + n mod 10)])"

declare show_nat.simps [simp del]

definition show_int :: "int \<Rightarrow> string" where
  "show_int i = (if i < 0 then ''-'' @ show_nat (nat (- i)) else show_nat (nat i))"

section \<open>Actions: state, and an error that stops the handler\<close>

text \<open>
  A handler is an action: it maps the state to a result and the state it leaves behind. The
  \<open>?\<close> operator of the source returns the error and leaves every earlier effect in place,
  which is what \<open>andThen\<close> does.
\<close>

type_synonym ('s, 'e, 'a) act = "'s \<Rightarrow> ('e + 'a) \<times> 's"

definition ret :: "'a \<Rightarrow> ('s, 'e, 'a) act" where
  "ret x s = (Inr x, s)"

definition throw :: "'e \<Rightarrow> ('s, 'e, 'a) act" where
  "throw e s = (Inl e, s)"

definition andThen :: "('s, 'e, 'a) act \<Rightarrow> ('a \<Rightarrow> ('s, 'e, 'b) act) \<Rightarrow> ('s, 'e, 'b) act" where
  "andThen m f s = (case m s of (Inl e, s') \<Rightarrow> (Inl e, s') | (Inr x, s') \<Rightarrow> f x s')"

definition seqA :: "('s, 'e, 'a) act \<Rightarrow> ('s, 'e, 'b) act \<Rightarrow> ('s, 'e, 'b) act" where
  "seqA m k = andThen m (\<lambda>_. k)"

definition asks :: "('s \<Rightarrow> 'a) \<Rightarrow> ('s, 'e, 'a) act" where
  "asks f s = (Inr (f s), s)"

definition modify :: "('s \<Rightarrow> 's) \<Rightarrow> ('s, 'e, unit) act" where
  "modify f s = (Inr (), f s)"

definition lift_res :: "'e + 'a \<Rightarrow> ('s, 'e, 'a) act" where
  "lift_res r s = (r, s)"

text \<open>\<open>let _ = \<dots>\<close> and \<open>.ok()\<close>: the effects stay, the outcome is dropped.\<close>

definition ignore :: "('s, 'e, 'a) act \<Rightarrow> ('s, 'e, unit) act" where
  "ignore m s = (Inr (), snd (m s))"

text \<open>\<open>m.await?;\<close>: an error is returned, a result is dropped.\<close>

definition discard :: "('s, 'e, 'a) act \<Rightarrow> ('s, 'e, unit) act" where
  "discard m = andThen m (\<lambda>_. ret ())"

text \<open>A \<open>match\<close> on the outcome: the error becomes a value the handler inspects.\<close>

definition attempt :: "('s, 'e, 'a) act \<Rightarrow> ('s, 'e, 'e + 'a) act" where
  "attempt m s = (case m s of (r, s') \<Rightarrow> (Inr r, s'))"

fun forA :: "'a list \<Rightarrow> ('a \<Rightarrow> ('s, 'e, unit) act) \<Rightarrow> ('s, 'e, unit) act" where
  "forA [] f = ret ()"
| "forA (x # xs) f = seqA (f x) (forA xs f)"

lemmas action_defs [action_simps] =
  ret_def throw_def andThen_def seqA_def asks_def modify_def lift_res_def ignore_def attempt_def

lemma andThen_ret [simp]: "andThen (ret x) f = f x"
  by (rule ext) (simp add: action_simps)

lemma andThen_throw [simp]: "andThen (throw e) f = throw e"
  by (rule ext) (simp add: action_simps)

lemma andThen_assoc: "andThen (andThen m f) g = andThen m (\<lambda>x. andThen (f x) g)"
  by (rule ext) (simp add: action_simps split: prod.splits sum.splits)

lemma andThen_Inl: "m s = (Inl e, s') \<Longrightarrow> andThen m f s = (Inl e, s')"
  by (simp add: andThen_def)

lemma andThen_Inr: "m s = (Inr x, s') \<Longrightarrow> andThen m f s = f x s'"
  by (simp add: andThen_def)

lemma seqA_Inr: "m s = (Inr x, s') \<Longrightarrow> seqA m k s = k s'"
  by (simp add: seqA_def andThen_def)

lemma seqA_Inl: "m s = (Inl e, s') \<Longrightarrow> seqA m k s = (Inl e, s')"
  by (simp add: seqA_def andThen_def)

lemma run_asks [simp]: "asks f s = (Inr (f s), s)"
  by (simp add: asks_def)

lemma run_modify [simp]: "modify f s = (Inr (), f s)"
  by (simp add: modify_def)

lemma andThen_asks [simp]: "andThen (asks f) k s = k (f s) s"
  by (simp add: andThen_def)

lemma andThen_modify [simp]: "andThen (modify f) k s = k () (f s)"
  by (simp add: andThen_def)

lemma andThen_lift_res: "andThen (lift_res r) k s = (case r of Inl e \<Rightarrow> (Inl e, s) | Inr x \<Rightarrow> k x s)"
  by (cases r) (simp_all add: andThen_def lift_res_def)

lemma run_ret [simp]: "ret x s = (Inr x, s)"
  by (simp add: ret_def)

lemma run_throw [simp]: "throw e s = (Inl e, s)"
  by (simp add: throw_def)

lemma run_lift_res [simp]: "lift_res r s = (r, s)"
  by (simp add: lift_res_def)

subsection \<open>Results without state\<close>

definition bindR :: "'e + 'a \<Rightarrow> ('a \<Rightarrow> 'e + 'b) \<Rightarrow> 'e + 'b" where
  "bindR r f = (case r of Inl e \<Rightarrow> Inl e | Inr x \<Rightarrow> f x)"

text \<open>\<open>into_iter().map(f).collect::<Result<Vec<_>>>()\<close>: the first error wins.\<close>

fun traverseR :: "('a \<Rightarrow> 'e + 'b) \<Rightarrow> 'a list \<Rightarrow> 'e + 'b list" where
  "traverseR f [] = Inr []"
| "traverseR f (x # xs) = bindR (f x) (\<lambda>y. bindR (traverseR f xs) (\<lambda>ys. Inr (y # ys)))"

text \<open>\<open>Option::map(f).transpose()\<close>.\<close>

definition transposeR :: "('a \<Rightarrow> 'e + 'b) \<Rightarrow> 'a option \<Rightarrow> 'e + 'b option" where
  "transposeR f ox = (case ox of None \<Rightarrow> Inr None | Some x \<Rightarrow> bindR (f x) (\<lambda>y. Inr (Some y)))"

lemma bindR_simps [simp]: "bindR (Inl e) f = Inl e" "bindR (Inr x) f = f x"
  by (simp_all add: bindR_def)

lemma bindR_Inr_iff: "bindR r f = Inr y \<longleftrightarrow> (\<exists>x. r = Inr x \<and> f x = Inr y)"
  by (cases r) simp_all

lemma traverseR_map: "(\<And>x. x \<in> set xs \<Longrightarrow> f x = Inr (g x)) \<Longrightarrow> traverseR f xs = Inr (map g xs)"
  by (induction xs) simp_all

lemma traverseR_Inr_iff: "traverseR f xs = Inr ys \<longleftrightarrow> list_all2 (\<lambda>x y. f x = Inr y) xs ys"
proof (induction xs arbitrary: ys)
  case (Cons x xs)
  then show ?case
    by (cases ys) (auto simp: bindR_Inr_iff)
qed auto

lemma traverseR_in: "traverseR f xs = Inr ys \<Longrightarrow> y \<in> set ys \<Longrightarrow> \<exists>x \<in> set xs. f x = Inr y"
  by (auto simp: traverseR_Inr_iff list_all2_conv_all_nth in_set_conv_nth) (metis nth_mem)

lemma length_traverseR: "traverseR f xs = Inr ys \<Longrightarrow> length ys = length xs"
  by (simp add: traverseR_Inr_iff list_all2_lengthD)

subsection \<open>Predicates an action keeps\<close>

definition keeps :: "('s \<Rightarrow> bool) \<Rightarrow> ('s, 'e, 'a) act \<Rightarrow> bool" where
  "keeps P m \<longleftrightarrow> (\<forall>s. P s \<longrightarrow> P (snd (m s)))"

lemma keepsI: "(\<And>s. P s \<Longrightarrow> P (snd (m s))) \<Longrightarrow> keeps P m"
  by (simp add: keeps_def)

lemma keepsD: "keeps P m \<Longrightarrow> P s \<Longrightarrow> P (snd (m s))"
  by (simp add: keeps_def)

text \<open>A component of the state that an action keeps.\<close>

lemma keeps_same: "keeps (\<lambda>s'. f s' = f s) m \<Longrightarrow> f (snd (m s)) = f s"
  by (simp add: keeps_def)

lemma keeps_ret [keeps_intros]: "keeps P (ret x)"
  by (simp add: keeps_def)

lemma keeps_throw [keeps_intros]: "keeps P (throw e)"
  by (simp add: keeps_def)

lemma keeps_asks [keeps_intros]: "keeps P (asks f)"
  by (simp add: keeps_def)

lemma keeps_lift_res [keeps_intros]: "keeps P (lift_res r)"
  by (simp add: keeps_def)

lemma keeps_modify [keeps_intros]: "(\<And>s. P s \<Longrightarrow> P (f s)) \<Longrightarrow> keeps P (modify f)"
  by (simp add: keeps_def)

lemma keeps_andThen [keeps_intros]:
  "keeps P m \<Longrightarrow> (\<And>x. keeps P (f x)) \<Longrightarrow> keeps P (andThen m f)"
  by (fastforce simp: keeps_def andThen_def split: prod.splits sum.splits)

lemma keeps_seqA [keeps_intros]: "keeps P m \<Longrightarrow> keeps P k \<Longrightarrow> keeps P (seqA m k)"
  by (simp add: seqA_def keeps_andThen)

lemma keeps_discard [keeps_intros]: "keeps P m \<Longrightarrow> keeps P (discard m)"
  by (simp add: discard_def keeps_andThen keeps_ret)

lemma keeps_ignore [keeps_intros]: "keeps P m \<Longrightarrow> keeps P (ignore m)"
  by (simp add: keeps_def ignore_def)

lemma keeps_attempt [keeps_intros]: "keeps P m \<Longrightarrow> keeps P (attempt m)"
  by (fastforce simp: keeps_def attempt_def split: prod.splits)

lemma keeps_forA [keeps_intros]: "(\<And>x. keeps P (f x)) \<Longrightarrow> keeps P (forA xs f)"
  by (induction xs) (simp_all add: keeps_ret keeps_seqA)

lemma keeps_if [keeps_intros]: "keeps P m \<Longrightarrow> keeps P k \<Longrightarrow> keeps P (if b then m else k)"
  by simp

lemma keeps_case_option [keeps_intros]:
  "keeps P m \<Longrightarrow> (\<And>x. keeps P (f x)) \<Longrightarrow> keeps P (case ox of None \<Rightarrow> m | Some x \<Rightarrow> f x)"
  by (cases ox) simp_all

lemma keeps_case_sum [keeps_intros]:
  "(\<And>e. keeps P (g e)) \<Longrightarrow> (\<And>x. keeps P (f x)) \<Longrightarrow>
   keeps P (case r of Inl e \<Rightarrow> g e | Inr x \<Rightarrow> f x)"
  by (cases r) simp_all

lemma keeps_case_prod [keeps_intros]:
  "(\<And>a b. keeps P (f a b)) \<Longrightarrow> keeps P (case p of (a, b) \<Rightarrow> f a b)"
  by (cases p) simp

lemma keeps_let [keeps_intros]: "(\<And>x. keeps P (f x)) \<Longrightarrow> keeps P (let x = v in f x)"
  by simp

text \<open>An action that keeps every state unchanged.\<close>

definition pure_act :: "('s, 'e, 'a) act \<Rightarrow> bool" where
  "pure_act m \<longleftrightarrow> (\<forall>s. snd (m s) = s)"

lemma pure_act_run: "pure_act m \<Longrightarrow> m s = (fst (m s), s)"
  by (metis pure_act_def prod.collapse)

lemma pure_act_keeps: "pure_act m \<Longrightarrow> keeps P m"
  by (simp add: pure_act_def keeps_def)

lemma snd_same: "snd (m s) = s \<Longrightarrow> m s = (r, s') \<Longrightarrow> s' = s"
  by simp

lemma andThen_same:
  "snd (m s) = s \<Longrightarrow> (\<And>x. snd (f x s) = s) \<Longrightarrow> snd (andThen m f s) = s"
  by (cases "m s"; cases "fst (m s)") (auto simp: andThen_def)

section \<open>Encodings that are read back\<close>

text \<open>
  The program stores and sends several enumerations in an encoded form (an integer column, a
  text column, a tag byte) and reads them back with a partial decoder. The contract is the
  same each time.
\<close>

locale codec =
  fixes enc :: "'a \<Rightarrow> 'b"
    and dec :: "'b \<Rightarrow> 'a option"
  assumes dec_enc: "dec (enc x) = Some x"
    and enc_dec: "dec y = Some x \<Longrightarrow> enc x = y"
begin

lemma enc_inj: "enc x = enc y \<longleftrightarrow> x = y"
  by (metis dec_enc option.inject)

lemma dec_iff: "dec y = Some x \<longleftrightarrow> y = enc x"
  using dec_enc enc_dec by blast

lemma dec_None_iff: "dec y = None \<longleftrightarrow> y \<notin> range enc"
  by (metis dec_iff not_None_eq rangeE rangeI)

lemma dec_inj_on: "dec y = Some x \<Longrightarrow> dec z = Some x \<Longrightarrow> y = z"
  by (simp add: dec_iff)

end

section \<open>Lists\<close>

text \<open>A bounded ring: append at the back, drop from the front while it is too long.\<close>

definition ring_push :: "nat \<Rightarrow> 'a list \<Rightarrow> 'a \<Rightarrow> 'a list" where
  "ring_push cap xs x = (let ys = xs @ [x] in drop (length ys - cap) ys)"

lemma length_ring_push: "length (ring_push cap xs x) = min cap (length xs + 1)"
  by (simp add: ring_push_def Let_def del: drop_append)

lemma last_ring_push: "0 < cap \<Longrightarrow> last (ring_push cap xs x) = x"
  by (simp add: ring_push_def Let_def)

lemma ring_push_fits: "length xs < cap \<Longrightarrow> ring_push cap xs x = xs @ [x]"
  by (simp add: ring_push_def Let_def)

lemma set_ring_push: "set (ring_push cap xs x) \<subseteq> insert x (set xs)"
  unfolding ring_push_def Let_def using set_drop_subset [of _ "xs @ [x]"] by fastforce

text \<open>\<open>Iterator::max_by_key\<close>: the last of the elements with the greatest key.\<close>

fun max_by_key :: "('a \<Rightarrow> 'k::linorder) \<Rightarrow> 'a list \<Rightarrow> 'a option" where
  "max_by_key f [] = None"
| "max_by_key f (x # xs) =
     (case max_by_key f xs of
        None \<Rightarrow> Some x
      | Some y \<Rightarrow> Some (if f x \<le> f y then y else x))"

lemma max_by_key_None [simp]: "max_by_key f xs = None \<longleftrightarrow> xs = []"
  by (cases xs) (auto split: option.splits)

lemma max_by_key_in: "max_by_key f xs = Some y \<Longrightarrow> y \<in> set xs"
  by (induction xs arbitrary: y) (auto split: option.splits if_splits)

lemma max_by_key_ge: "max_by_key f xs = Some y \<Longrightarrow> x \<in> set xs \<Longrightarrow> f x \<le> f y"
proof (induction xs arbitrary: y)
  case (Cons a xs)
  then show ?case
    by (fastforce split: option.splits if_splits dest: max_by_key_in)
qed simp

text \<open>\<open>Iterator::find\<close> is \<open>List.find\<close>; what it returns is an element that satisfies the test.\<close>

lemma find_SomeD: "List.find p xs = Some x \<Longrightarrow> x \<in> set xs \<and> p x"
  by (induction xs) (auto split: if_splits)

lemma find_NoneD: "List.find p xs = None \<Longrightarrow> x \<in> set xs \<Longrightarrow> \<not> p x"
  by (auto simp: find_None_iff)

lemma find_append: "List.find p (xs @ ys) = (case List.find p xs of Some x \<Rightarrow> Some x | None \<Rightarrow> List.find p ys)"
  by (induction xs) auto

lemma sorted_takes_least:
  "sorted (map f xs) \<Longrightarrow> x \<in> set (take n xs) \<Longrightarrow> y \<in> set (drop n xs) \<Longrightarrow> f x \<le> f y"
proof -
  assume s: "sorted (map f xs)" and x: "x \<in> set (take n xs)" and y: "y \<in> set (drop n xs)"
  have "map f xs = map f (take n xs) @ map f (drop n xs)"
    by (simp flip: map_append)
  with s have "sorted (map f (take n xs) @ map f (drop n xs))"
    by simp
  with x y show ?thesis
    by (auto simp: sorted_append)
qed

end
