(* ===== verification/CoreTypes.thy ===== *)
theory CoreTypes
  imports Prelude
begin

text \<open>
  The leaf crate \<open>y7ke-core\<close>: the error type, the identifiers' carriers, the status
  enumerations with their stored forms, the settings, the events for the user interface and
  the diagnostics snapshots (\<open>error.rs\<close>, \<open>id.rs\<close>, \<open>status.rs\<close>, \<open>settings.rs\<close>, \<open>event.rs\<close>,
  \<open>diagnostics.rs\<close>, \<open>netlog.rs\<close>).
\<close>

section \<open>Errors\<close>

datatype app_error =
    InvalidY7Id string
  | InvalidPublicKey
  | InvalidSignature
  | CryptoErr string
  | StorageErr string
  | NetworkErr string
  | NotFound
  | InvalidInput string
  | IoErr string
  | SerializationErr string

type_synonym 'a res = "app_error + 'a"
type_synonym ('s, 'a) action = "('s, app_error, 'a) act"

text \<open>The \<open>Display\<close> form that \<open>thiserror\<close> derives from the attributes.\<close>

fun show_error :: "app_error \<Rightarrow> string" where
  "show_error (InvalidY7Id m) = ''invalid Y7 identifier: '' @ m"
| "show_error InvalidPublicKey = ''invalid public key''"
| "show_error InvalidSignature = ''invalid signature''"
| "show_error (CryptoErr m) = ''cryptography failed: '' @ m"
| "show_error (StorageErr m) = ''storage failed: '' @ m"
| "show_error (NetworkErr m) = ''network failed: '' @ m"
| "show_error NotFound = ''not found''"
| "show_error (InvalidInput m) = ''invalid input: '' @ m"
| "show_error (IoErr m) = ''io: '' @ m"
| "show_error (SerializationErr m) = ''serialization: '' @ m"

section \<open>Identifiers\<close>

text \<open>Newtypes over fixed-size byte arrays; a value of the program has 32, 16 and 16 bytes.\<close>

datatype y7id = Y7Id (pubkey: bytes)
datatype message_id = MessageId (mid_bytes: bytes)
datatype conversation_id = ConversationId (conv_bytes: bytes)

definition y7id_ok :: "y7id \<Rightarrow> bool" where
  "y7id_ok y \<longleftrightarrow> length (pubkey y) = 32"

section \<open>Status enumerations\<close>

datatype message_status = Sending | Sent | Delivered | Synced | Failed

fun message_status_as_i64 :: "message_status \<Rightarrow> int" where
  "message_status_as_i64 Sending = 0"
| "message_status_as_i64 Sent = 1"
| "message_status_as_i64 Delivered = 2"
| "message_status_as_i64 Synced = 3"
| "message_status_as_i64 Failed = 4"

definition message_status_from_i64 :: "int \<Rightarrow> message_status option" where
  "message_status_from_i64 v =
     (if v = 0 then Some Sending
      else if v = 1 then Some Sent
      else if v = 2 then Some Delivered
      else if v = 3 then Some Synced
      else if v = 4 then Some Failed
      else None)"

datatype connection_kind = Offline | Connecting | Lan | Internet | Direct | Relayed

datatype nat_reachability = Public | Private | NatUnknown

datatype transport = TransportTcp | TransportQuic

datatype ip_version = V4 | V6

datatype connection_origin =
  DirectDial | DcutrUpgrade | RelayOnly | PublicIpv6 | PublicIpv4 | OriginUnknown

datatype request_resolution = ResAccepted | ResRejected | ResCancelled

datatype contact_status = Accepted | PendingOut | PendingIn | Blocked | Removed

fun contact_status_as_str :: "contact_status \<Rightarrow> string" where
  "contact_status_as_str Accepted = ''accepted''"
| "contact_status_as_str PendingOut = ''pending_out''"
| "contact_status_as_str PendingIn = ''pending_in''"
| "contact_status_as_str Blocked = ''blocked''"
| "contact_status_as_str Removed = ''removed''"

definition contact_status_from_str :: "string \<Rightarrow> contact_status res" where
  "contact_status_from_str s =
     (if s = ''accepted'' then Inr Accepted
      else if s = ''pending_out'' then Inr PendingOut
      else if s = ''pending_in'' then Inr PendingIn
      else if s = ''blocked'' then Inr Blocked
      else if s = ''removed'' then Inr Removed
      else Inl (InvalidInput (''unknown ContactStatus '' @ s)))"

definition res_opt :: "'a res \<Rightarrow> 'a option" where
  "res_opt r = (case r of Inl _ \<Rightarrow> None | Inr x \<Rightarrow> Some x)"

interpretation message_status: codec message_status_as_i64 message_status_from_i64
proof
  show "message_status_from_i64 (message_status_as_i64 x) = Some x" for x
    by (cases x) (simp_all add: message_status_from_i64_def)
  show "message_status_from_i64 y = Some x \<Longrightarrow> message_status_as_i64 x = y" for x y
    by (auto simp: message_status_from_i64_def split: if_splits)
qed

interpretation contact_status: codec contact_status_as_str "res_opt \<circ> contact_status_from_str"
proof
  show "(res_opt \<circ> contact_status_from_str) (contact_status_as_str x) = Some x" for x
    by (cases x) (simp_all add: contact_status_from_str_def res_opt_def)
  show "(res_opt \<circ> contact_status_from_str) y = Some x \<Longrightarrow> contact_status_as_str x = y" for x y
    by (auto simp: contact_status_from_str_def res_opt_def split: if_splits)
qed

lemma contact_status_from_as [simp]:
  "contact_status_from_str (contact_status_as_str x) = Inr x"
  by (cases x) (simp_all add: contact_status_from_str_def)

lemma message_status_from_as [simp]:
  "message_status_from_i64 (message_status_as_i64 x) = Some x"
  by (rule message_status.dec_enc)

text \<open>The stored integers order the statuses; the storage layer compares them.\<close>

instantiation message_status :: linorder
begin
definition less_eq_message_status :: "message_status \<Rightarrow> message_status \<Rightarrow> bool" where
  "less_eq_message_status a b \<longleftrightarrow> message_status_as_i64 a \<le> message_status_as_i64 b"
definition less_message_status :: "message_status \<Rightarrow> message_status \<Rightarrow> bool" where
  "less_message_status a b \<longleftrightarrow> message_status_as_i64 a < message_status_as_i64 b"
instance
  by standard
    (auto simp: less_eq_message_status_def less_message_status_def
      dest: order.antisym simp flip: message_status.enc_inj)
end

section \<open>Connection kinds, best first\<close>

fun connection_kind_precedence :: "connection_kind \<Rightarrow> nat" where
  "connection_kind_precedence Direct = 5"
| "connection_kind_precedence Lan = 4"
| "connection_kind_precedence Internet = 3"
| "connection_kind_precedence Relayed = 2"
| "connection_kind_precedence Connecting = 1"
| "connection_kind_precedence Offline = 0"

lemma connection_kind_precedence_inj [simp]:
  "connection_kind_precedence a = connection_kind_precedence b \<longleftrightarrow> a = b"
  by (cases a; cases b) simp_all

instantiation connection_kind :: linorder
begin
definition less_eq_connection_kind :: "connection_kind \<Rightarrow> connection_kind \<Rightarrow> bool" where
  "less_eq_connection_kind a b \<longleftrightarrow> connection_kind_precedence a \<le> connection_kind_precedence b"
definition less_connection_kind :: "connection_kind \<Rightarrow> connection_kind \<Rightarrow> bool" where
  "less_connection_kind a b \<longleftrightarrow> connection_kind_precedence a < connection_kind_precedence b"
instance
  by standard
    (auto simp: less_eq_connection_kind_def less_connection_kind_def
      dest: order.antisym simp flip: connection_kind_precedence_inj)
end

section \<open>Settings\<close>

datatype dial_mode = LanOnly | InternetMode

definition dial_mode_default :: dial_mode where
  "dial_mode_default = InternetMode"

record settings =
  dial_mode :: dial_mode
  extra_bootstraps :: "string list"

definition settings_default :: settings where
  "settings_default = \<lparr>dial_mode = dial_mode_default, extra_bootstraps = []\<rparr>"

record bootstrap_entry =
  be_multiaddr :: string
  be_is_default :: bool
  be_last_ping_ms :: "nat option"
  be_last_ping_failed :: bool

section \<open>Events for the user interface\<close>

datatype app_event =
    IdentityReady string
  | RequestReceived string "string option"
  | RequestResolved string request_resolution
  | ContactAdded string
  | ContactRemoved string
  | MessageReceived string string string int string
  | MessageStatusChanged string message_status
  | PresenceChanged string connection_kind "transport option" "ip_version option" connection_origin
  | SettingsChanged
  | NatStatusChanged nat_reachability
  | BackgroundError string

fun app_event_name :: "app_event \<Rightarrow> string" where
  "app_event_name (IdentityReady _) = ''identity_ready''"
| "app_event_name (RequestReceived _ _) = ''request_received''"
| "app_event_name (RequestResolved _ _) = ''request_resolved''"
| "app_event_name (ContactAdded _) = ''contact_added''"
| "app_event_name (ContactRemoved _) = ''contact_removed''"
| "app_event_name (MessageReceived _ _ _ _ _) = ''message_received''"
| "app_event_name (MessageStatusChanged _ _) = ''message_status_changed''"
| "app_event_name (PresenceChanged _ _ _ _ _) = ''presence_changed''"
| "app_event_name SettingsChanged = ''settings_changed''"
| "app_event_name (NatStatusChanged _) = ''nat_status_changed''"
| "app_event_name (BackgroundError _) = ''background_error''"

section \<open>Diagnostics\<close>

record dcutr_stats =
  ds_attempts :: nat
  ds_successes :: nat
  ds_failures :: nat

record connection_view =
  cv_y7_id :: string
  cv_kind :: connection_kind
  cv_via_host :: "string option"
  cv_transport :: "transport option"
  cv_ip_version :: "ip_version option"
  cv_origin :: connection_origin

record transport_transition =
  tt_y7_id :: string
  tt_from :: "connection_kind option"
  tt_to :: connection_kind
  tt_transport :: "transport option"
  tt_ip_version :: "ip_version option"
  tt_origin :: connection_origin
  tt_at_ms :: int

record rate_limit_drops =
  rld_handshake :: nat
  rld_msg :: nat
  rld_sync :: nat

record nat_detail =
  nd_verdict :: nat_reachability
  nd_consecutive_failures :: nat
  nd_last_tested_addr :: "string option"
  nd_last_probe_server :: "string option"

record diagnostics_detail =
  dd_recent_dcutr_failures :: "string list"
  dd_recent_transitions :: "transport_transition list"
  dd_rate_limit_drops :: rate_limit_drops
  dd_nat_detail :: nat_detail

datatype cat = Discovery | TransportCat | Dcutr | Relay | Connection | IpVersion | Autonat

fun cat_as_str :: "cat \<Rightarrow> string" where
  "cat_as_str Discovery = ''DISCOVERY''"
| "cat_as_str TransportCat = ''TRANSPORT''"
| "cat_as_str Dcutr = ''DCUTR''"
| "cat_as_str Relay = ''RELAY''"
| "cat_as_str Connection = ''CONNECTION''"
| "cat_as_str IpVersion = ''IPVERSION''"
| "cat_as_str Autonat = ''AUTONAT''"

end
