(* ===== verification/Wire.thy ===== *)
theory Wire
  imports CoreTypes
begin

text \<open>
  The wire types of the three request-response protocols (\<open>y7ke-net/src/protocol.rs\<close>), the
  control payloads that ride inside message envelopes (\<open>messaging.rs\<close>), and multiaddresses as
  lists of protocol components, which is how the program walks them.
\<close>

section \<open>Wire types\<close>

record handshake_req =
  initiator_ed25519_pub :: bytes
  initiator_eph_x25519_pub :: bytes
  hs_sig :: bytes
  hs_greeting :: "string option"

record handshake_resp =
  responder_eph_x25519_pub :: bytes
  hr_sig :: bytes
  hr_accept :: bool

record message_envelope =
  env_message_id :: bytes
  env_sender_pub :: bytes
  env_timestamp_ms :: int
  env_nonce :: bytes
  env_ciphertext :: bytes
  env_sig :: bytes

text \<open>The sizes that the array types of the envelope fix.\<close>

definition envelope_ok :: "message_envelope \<Rightarrow> bool" where
  "envelope_ok e \<longleftrightarrow>
     length (env_message_id e) = 16 \<and> length (env_sender_pub e) = 32 \<and>
     is_i64 (env_timestamp_ms e) \<and> length (env_nonce e) = 12 \<and> length (env_sig e) = 64"

record conversation_digest =
  cd_conversation_id :: bytes
  cd_highest_outbound :: "bytes option"
  cd_highest_inbound :: "bytes option"

datatype sync_req =
    SyncHeader "conversation_digest list"
  | SyncPull bytes "bytes option" nat
  | SyncAck bytes "bytes list"

datatype sync_resp =
    SyncHeaderAck "conversation_digest list"
  | SyncPullResp "message_envelope list" bool
  | SyncAckResp

datatype control_payload = RejectedRequest | AcceptedRequest | ChatDeleted

datatype plaintext_kind = Text string | Control control_payload

text \<open>
  Fixed-size byte arrays longer than 32 on the wire: a sequence of exactly 64 elements, read
  back element by element (\<open>sig_bytes\<close>).
\<close>

definition sig_bytes_serialize :: "bytes \<Rightarrow> bytes" where
  "sig_bytes_serialize bs = bs"

fun sig_visit_seq :: "nat \<Rightarrow> nat \<Rightarrow> bytes \<Rightarrow> string + bytes" where
  "sig_visit_seq i 0 _ = Inr []"
| "sig_visit_seq i (Suc n) [] = Inl (''invalid length '' @ show_nat i @ '', expected 64 bytes'')"
| "sig_visit_seq i (Suc n) (b # bs) =
     (case sig_visit_seq (i + 1) n bs of Inl e \<Rightarrow> Inl e | Inr r \<Rightarrow> Inr (b # r))"

definition sig_visit_bytes :: "bytes \<Rightarrow> string + bytes" where
  "sig_visit_bytes v =
     (if length v \<noteq> 64
      then Inl (''invalid length '' @ show_nat (length v) @ '', expected 64 bytes'')
      else Inr v)"

lemma sig_visit_seq_exact: "sig_visit_seq i (length bs) bs = Inr bs"
  by (induction bs arbitrary: i) auto

section \<open>Peers and multiaddresses\<close>

text \<open>A libp2p \<open>PeerId\<close> is carried as the bytes of its multihash.\<close>

type_synonym peer = bytes

datatype proto =
    Dns string | Dns4 string | Dns6 string
  | Ip4 byte byte byte byte
  | Ip6 "16 word list"
  | Tcp "16 word" | Udp "16 word"
  | Quic | QuicV1
  | P2p peer | P2pCircuit
  | OtherProto string

type_synonym maddr = "proto list"

end
