(* ===== verification/Externals.thy ===== *)
theory Externals
  imports Wire
begin

unbundle bit_operations_syntax

text \<open>
  The code that is not under \<open>src/\<close>: the cryptographic crates, \<open>bs58\<close>, \<open>blake3\<close>, \<open>uuid\<close>,
  \<open>serde_json\<close>, the multiaddress parser and the peer-id functions of libp2p, and the operating
  system's entropy. They are the fields of one record, which is an argument \<open>E\<close> of every
  definition that uses them; what the program relies on is stated as named laws. A concrete
  record (\<open>sample_ext\<close>, in theory \<open>Sample\<close>) satisfies every law.
\<close>

record ext =
  \<comment> \<open>\<open>bs58\<close>: encode, and decode into a buffer of the given size\<close>
  b58_encode :: "bytes \<Rightarrow> string"
  b58_onto :: "string \<Rightarrow> nat \<Rightarrow> string + bytes"
  \<comment> \<open>\<open>blake3\<close> of the concatenated updates\<close>
  blake3 :: "bytes \<Rightarrow> bytes"
  \<comment> \<open>\<open>ed25519_dalek\<close>, on seeds, compressed points and signatures\<close>
  ed_public :: "bytes \<Rightarrow> bytes"
  ed_point_ok :: "bytes \<Rightarrow> bool"
  ed_sign :: "bytes \<Rightarrow> bytes \<Rightarrow> bytes"
  ed_check :: "bytes \<Rightarrow> bytes \<Rightarrow> bytes \<Rightarrow> bool"
  ed_montgomery :: "bytes \<Rightarrow> bytes"
  sha512 :: "bytes \<Rightarrow> bytes"
  \<comment> \<open>\<open>x25519_dalek\<close>\<close>
  x_public :: "bytes \<Rightarrow> bytes"
  x_dh :: "bytes \<Rightarrow> bytes \<Rightarrow> bytes"
  \<comment> \<open>\<open>hkdf\<close> (salt, key material, info, length) and \<open>chacha20poly1305\<close> (key, nonce, text, data)\<close>
  hkdf_expand :: "bytes \<Rightarrow> bytes \<Rightarrow> bytes \<Rightarrow> nat \<Rightarrow> string + bytes"
  chacha_encrypt :: "bytes \<Rightarrow> bytes \<Rightarrow> bytes \<Rightarrow> bytes \<Rightarrow> string + bytes"
  chacha_decrypt :: "bytes \<Rightarrow> bytes \<Rightarrow> bytes \<Rightarrow> bytes \<Rightarrow> string + bytes"
  \<comment> \<open>the operating system's entropy: the n-th draw of so many bytes\<close>
  rng_bytes :: "nat \<Rightarrow> nat \<Rightarrow> bytes"
  \<comment> \<open>\<open>uuid\<close>: the n-th UUIDv7 drawn at a clock reading, its embedded time, its text\<close>
  uuid_v7 :: "nat \<Rightarrow> int \<Rightarrow> bytes"
  uuid_unix :: "bytes \<Rightarrow> (int \<times> int) option"
  uuid_show :: "bytes \<Rightarrow> string"
  \<comment> \<open>\<open>serde_json\<close>\<close>
  json_control :: "control_payload \<Rightarrow> string + bytes"
  unjson_control :: "bytes \<Rightarrow> string + control_payload"
  json_envelope :: "message_envelope \<Rightarrow> string + bytes"
  unjson_envelope :: "bytes \<Rightarrow> string + message_envelope"
  json_strings :: "string list \<Rightarrow> string + string"
  unjson_strings :: "string \<Rightarrow> string + string list"
  json_settings :: "settings \<Rightarrow> string + string"
  unjson_settings :: "string \<Rightarrow> string + settings"
  \<comment> \<open>libp2p: multiaddresses as text, keys and peer ids\<close>
  maddr_parse :: "string \<Rightarrow> string + maddr"
  maddr_show :: "maddr \<Rightarrow> string"
  pk_from_bytes :: "bytes \<Rightarrow> string + bytes"
  peer_of_pk :: "bytes \<Rightarrow> peer"
  multihash_of :: "peer \<Rightarrow> (nat \<times> bytes) option"
  pk_decode :: "bytes \<Rightarrow> (string \<times> bytes) option"
  peer_show :: "peer \<Rightarrow> string"

section \<open>What the program relies on\<close>

text \<open>Base58 is a bijection between byte strings and base58 strings.\<close>

definition b58_law :: "ext \<Rightarrow> bool" where
  "b58_law E \<longleftrightarrow>
     (\<forall>bs n. length bs \<le> n \<longrightarrow> b58_onto E (b58_encode E bs) n = Inr bs) \<and>
     (\<forall>s n bs. b58_onto E s n = Inr bs \<longrightarrow> b58_encode E bs = s \<and> length bs \<le> n)"

text \<open>A blake3 digest has 32 bytes.\<close>

definition blake3_law :: "ext \<Rightarrow> bool" where
  "blake3_law E \<longleftrightarrow> (\<forall>bs. length (blake3 E bs) = 32)"

text \<open>Ed25519: keys and signatures have their sizes, an honest signature verifies.\<close>

definition ed_law :: "ext \<Rightarrow> bool" where
  "ed_law E \<longleftrightarrow>
     (\<forall>sk. length sk = 32 \<longrightarrow> length (ed_public E sk) = 32 \<and> ed_point_ok E (ed_public E sk)) \<and>
     (\<forall>sk m. length sk = 32 \<longrightarrow>
        length (ed_sign E sk m) = 64 \<and> ed_check E (ed_public E sk) m (ed_sign E sk m))"

text \<open>The clamped first half of the hash of the seed (RFC 8032, RFC 7748).\<close>

definition clamp_scalar :: "bytes \<Rightarrow> bytes" where
  "clamp_scalar bs =
     (let s = take 32 bs;
          s = s[0 := s ! 0 AND 248];
          s = s[31 := s ! 31 AND 127]
      in s[31 := s ! 31 OR 64])"

text \<open>
  X25519: Diffie-Hellman commutes, and the Montgomery form of an Ed25519 public key is the
  X25519 public key of the clamped scalar.
\<close>

definition dh_law :: "ext \<Rightarrow> bool" where
  "dh_law E \<longleftrightarrow>
     (\<forall>a b. length a = 32 \<longrightarrow> length b = 32 \<longrightarrow>
        length (x_public E a) = 32 \<and> length (x_dh E a (x_public E b)) = 32 \<and>
        x_dh E a (x_public E b) = x_dh E b (x_public E a)) \<and>
     (\<forall>sk. length sk = 32 \<longrightarrow> length (sha512 E sk) = 64 \<and>
        ed_montgomery E (ed_public E sk) = x_public E (clamp_scalar (sha512 E sk)))"

text \<open>HKDF expands up to 255 blocks of 32 bytes.\<close>

definition hkdf_law :: "ext \<Rightarrow> bool" where
  "hkdf_law E \<longleftrightarrow>
     (\<forall>salt ikm info n. n \<le> 255 * 32 \<longrightarrow>
        (\<exists>k. hkdf_expand E salt ikm info n = Inr k \<and> length k = n))"

text \<open>
  ChaCha20-Poly1305 encrypts every text below its 256 GiB limit and decrypts what it
  encrypted, under the same key, nonce and data.
\<close>

definition aead_law :: "ext \<Rightarrow> bool" where
  "aead_law E \<longleftrightarrow>
     (\<forall>k n p a c. chacha_encrypt E k n p a = Inr c \<longrightarrow> chacha_decrypt E k n c a = Inr p) \<and>
     (\<forall>k n p a. length p < 2 ^ 38 - 64 \<longrightarrow> (\<exists>c. chacha_encrypt E k n p a = Inr c))"

definition rng_law :: "ext \<Rightarrow> bool" where
  "rng_law E \<longleftrightarrow> (\<forall>i n. length (rng_bytes E i n) = n)"

text \<open>A UUIDv7 has 16 bytes and carries the 48-bit milliseconds at which it was made.\<close>

definition uuid_law :: "ext \<Rightarrow> bool" where
  "uuid_law E \<longleftrightarrow>
     (\<forall>i t. length (uuid_v7 E i t) = 16) \<and>
     (\<forall>i t. 0 \<le> t \<longrightarrow> t < 2 ^ 48 \<longrightarrow>
        uuid_unix E (uuid_v7 E i t) = Some (t div 1000, t mod 1000 * 1000000))"

text \<open>What \<open>serde_json\<close> wrote it reads back.\<close>

definition json_law :: "ext \<Rightarrow> bool" where
  "json_law E \<longleftrightarrow>
     (\<forall>p. \<exists>j. json_control E p = Inr j \<and> unjson_control E j = Inr p) \<and>
     (\<forall>e. envelope_ok e \<longrightarrow> (\<exists>j. json_envelope E e = Inr j \<and> unjson_envelope E j = Inr e)) \<and>
     (\<forall>l. \<exists>j. json_strings E l = Inr j \<and> unjson_strings E j = Inr l) \<and>
     (\<forall>s. \<exists>j. json_settings E s = Inr j \<and> unjson_settings E j = Inr s)"

text \<open>An Ed25519 peer id holds its public key inline, under the identity multihash.\<close>

definition peer_law :: "ext \<Rightarrow> bool" where
  "peer_law E \<longleftrightarrow>
     (\<forall>pk. ed_point_ok E pk \<longrightarrow> pk_from_bytes E pk = Inr pk) \<and>
     (\<forall>bs pk. pk_from_bytes E bs = Inr pk \<longrightarrow>
        pk = bs \<and>
        (\<exists>d. multihash_of E (peer_of_pk E pk) = Some (0, d) \<and>
             pk_decode E d = Some (''ed25519'', pk)))"

definition ext_laws :: "ext \<Rightarrow> bool" where
  "ext_laws E \<longleftrightarrow>
     b58_law E \<and> blake3_law E \<and> ed_law E \<and> dh_law E \<and> hkdf_law E \<and> aead_law E \<and>
     rng_law E \<and> uuid_law E \<and> json_law E \<and> peer_law E"

lemma ext_lawsD:
  assumes "ext_laws E"
  shows "b58_law E" "blake3_law E" "ed_law E" "dh_law E" "hkdf_law E" "aead_law E"
    "rng_law E" "uuid_law E" "json_law E" "peer_law E"
  using assms by (simp_all add: ext_laws_def)

lemma ed_sign_ok:
  "ed_law E \<Longrightarrow> length sk = 32 \<Longrightarrow> ed_check E (ed_public E sk) m (ed_sign E sk m)"
  by (simp add: ed_law_def)

lemma length_ed_sign: "ed_law E \<Longrightarrow> length sk = 32 \<Longrightarrow> length (ed_sign E sk m) = 64"
  by (simp add: ed_law_def)

lemma ed_public_ok: "ed_law E \<Longrightarrow> length sk = 32 \<Longrightarrow> ed_point_ok E (ed_public E sk)"
  by (simp add: ed_law_def)

lemma length_ed_public: "ed_law E \<Longrightarrow> length sk = 32 \<Longrightarrow> length (ed_public E sk) = 32"
  by (simp add: ed_law_def)

lemma x_dh_commute:
  "dh_law E \<Longrightarrow> length a = 32 \<Longrightarrow> length b = 32 \<Longrightarrow>
   x_dh E a (x_public E b) = x_dh E b (x_public E a)"
  by (simp add: dh_law_def)

lemma aead_decrypts:
  "aead_law E \<Longrightarrow> chacha_encrypt E k n p a = Inr c \<Longrightarrow> chacha_decrypt E k n c a = Inr p"
  by (simp add: aead_law_def)

lemma length_clamp_scalar: "32 \<le> length bs \<Longrightarrow> length (clamp_scalar bs) = 32"
  by (simp add: clamp_scalar_def Let_def)

section \<open>The operating system: clocks and entropy\<close>

text \<open>
  The wall clock and the monotonic clock (in milliseconds) hold still during one step; the
  entropy is read draw by draw.
\<close>

record os =
  os_now :: int
  os_instant :: int
  os_draws :: nat

definition draw :: "(nat \<Rightarrow> 'a) \<Rightarrow> (os, 'a) action" where
  "draw f s = (Inr (f (os_draws s)), s\<lparr>os_draws := os_draws s + 1\<rparr>)"

lemma draw_clock: "os_now (snd (draw f s)) = os_now s" "os_instant (snd (draw f s)) = os_instant s"
  by (simp_all add: draw_def)

end
