(* ===== verification/Text_Scan.thy ===== *)
theory Text_Scan
  imports Prelude "HOL-Library.Sublist"
begin

text \<open>
  The standard library's string scanning that the program uses: \<open>str::split\<close> on a character,
  \<open>str::trim\<close> over the Unicode white space, and searching for a character.
\<close>

section \<open>Splitting\<close>

fun split_on :: "char \<Rightarrow> string \<Rightarrow> string list" where
  "split_on d [] = [[]]"
| "split_on d (c # cs) =
     (if c = d then [] # split_on d cs
      else (c # hd (split_on d cs)) # tl (split_on d cs))"

fun join_with :: "char \<Rightarrow> string list \<Rightarrow> string" where
  "join_with d [] = []"
| "join_with d [p] = p"
| "join_with d (p # ps) = p @ d # join_with d ps"

lemma split_on_ne [simp]: "split_on d s \<noteq> []"
  by (induction s) auto

lemma join_split: "join_with d (split_on d s) = s"
proof (induction s)
  case (Cons c cs)
  then show ?case
    by (cases "split_on d cs"; cases "tl (split_on d cs)") auto
qed simp

lemma split_parts: "p \<in> set (split_on d s) \<Longrightarrow> d \<notin> set p"
proof (induction s arbitrary: p)
  case (Cons c cs)
  have "set (tl (split_on d cs)) \<subseteq> set (split_on d cs)" "hd (split_on d cs) \<in> set (split_on d cs)"
    by (cases "split_on d cs"; simp add: subset_iff)+
  with Cons show ?case
    by (auto split: if_splits)
qed simp

lemma split_on_part: "d \<notin> set p \<Longrightarrow> split_on d p = [p]"
  by (induction p) auto

lemma split_on_append: "d \<notin> set p \<Longrightarrow> split_on d (p @ d # s) = p # split_on d s"
  by (induction p) auto

section \<open>Trimming\<close>

text \<open>The characters of the Unicode property \<open>White_Space\<close>, in UTF-8.\<close>

definition white_spaces :: "string list" where
  "white_spaces =
     map (\<lambda>b. [b]) [CHR 0x09, CHR 0x0A, CHR 0x0B, CHR 0x0C, CHR 0x0D, CHR 0x20] @
     [[CHR 0xC2, CHR 0x85], [CHR 0xC2, CHR 0xA0], [CHR 0xE1, CHR 0x9A, CHR 0x80]] @
     map (\<lambda>b. [CHR 0xE2, CHR 0x80, b])
       [CHR 0x80, CHR 0x81, CHR 0x82, CHR 0x83, CHR 0x84, CHR 0x85, CHR 0x86, CHR 0x87, CHR 0x88,
        CHR 0x89, CHR 0x8A, CHR 0xA8, CHR 0xA9, CHR 0xAF] @
     [[CHR 0xE2, CHR 0x81, CHR 0x9F], [CHR 0xE3, CHR 0x80, CHR 0x80]]"

text \<open>Strip leading occurrences of the given non-empty words.\<close>

function strip_words :: "string list \<Rightarrow> string \<Rightarrow> string" where
  "strip_words ws s =
     (case List.find (\<lambda>w. w \<noteq> [] \<and> take (length w) s = w) ws of
        None \<Rightarrow> s
      | Some w \<Rightarrow> strip_words ws (drop (length w) s))"
  by pat_completeness auto
termination
proof (relation "measure (\<lambda>(ws, s). length s)", simp, goal_cases)
  case (1 ws s w)
  then have "w \<noteq> []" "take (length w) s = w"
    by (auto dest: find_SomeD)
  then show ?case
    by (cases s) auto
qed

declare strip_words.simps [simp del]

definition trim_start :: "string \<Rightarrow> string" where
  "trim_start s = strip_words white_spaces s"

definition trim_end :: "string \<Rightarrow> string" where
  "trim_end s = rev (strip_words (map rev white_spaces) (rev s))"

definition trim :: "string \<Rightarrow> string" where
  "trim s = trim_end (trim_start s)"

text \<open>A string is trimmed when no white space is a prefix or a suffix of it.\<close>

definition trimmed :: "string \<Rightarrow> bool" where
  "trimmed s \<longleftrightarrow> (\<forall>w \<in> set white_spaces. \<not> prefix w s \<and> \<not> suffix w s)"

lemma take_eq_prefix: "take (length w) s = w \<longleftrightarrow> prefix w s"
  by (metis append_eq_conv_conj prefix_def append_take_drop_id)

lemma strip_words_clean:
  "w \<in> set ws \<Longrightarrow> w \<noteq> [] \<Longrightarrow> \<not> prefix w (strip_words ws s)"
proof (induction ws s rule: strip_words.induct)
  case (1 ws s)
  show ?case
  proof (cases "List.find (\<lambda>w. w \<noteq> [] \<and> take (length w) s = w) ws")
    case None
    with "1.prems" show ?thesis
      by (auto simp: strip_words.simps [of ws s] take_eq_prefix dest: find_NoneD)
  next
    case (Some v)
    then show ?thesis
      using 1 by (simp add: strip_words.simps [of ws s])
  qed
qed

lemma strip_words_suffix: "suffix (strip_words ws s) s"
proof (induction ws s rule: strip_words.induct)
  case (1 ws s)
  show ?case
  proof (cases "List.find (\<lambda>w. w \<noteq> [] \<and> take (length w) s = w) ws")
    case None
    then show ?thesis
      by (simp add: strip_words.simps [of ws s])
  next
    case (Some v)
    then have "suffix (strip_words ws (drop (length v) s)) (drop (length v) s)"
      using 1 by simp
    then show ?thesis
      using Some suffix_drop suffix_order.trans by (simp add: strip_words.simps [of ws s]) blast
  qed
qed

lemma strip_words_id:
  "(\<And>w. w \<in> set ws \<Longrightarrow> \<not> prefix w s) \<Longrightarrow> strip_words ws s = s"
  by (auto simp: strip_words.simps [of ws s] take_eq_prefix split: option.splits dest!: find_SomeD)

lemma white_spaces_ne: "w \<in> set white_spaces \<Longrightarrow> w \<noteq> []"
  by (auto simp: white_spaces_def)

lemma white_spaces_slash: "w \<in> set white_spaces \<Longrightarrow> CHR ''/'' \<notin> set w"
  by (auto simp: white_spaces_def)

lemma trim_end_prefix: "prefix (trim_end s) s"
  using strip_words_suffix [of "map rev white_spaces" "rev s"]
  by (simp add: trim_end_def suffix_to_prefix)

lemma trimmed_trim: "trimmed (trim s)"
  unfolding trimmed_def
proof (intro ballI conjI)
  fix w assume w: "w \<in> set white_spaces"
  have "\<not> prefix w (trim_start s)"
    using strip_words_clean [OF w white_spaces_ne [OF w]] by (simp add: trim_start_def)
  then show "\<not> prefix w (trim s)"
    unfolding trim_def using prefix_order.trans trim_end_prefix by blast
  have "\<not> prefix (rev w) (strip_words (map rev white_spaces) (rev (trim_start s)))"
    using w white_spaces_ne [OF w] by (intro strip_words_clean) auto
  then show "\<not> suffix w (trim s)"
    by (simp add: trim_def trim_end_def suffix_to_prefix)
qed

lemma trim_trimmed:
  assumes "trimmed s"
  shows "trim s = s"
proof -
  have "strip_words (map rev white_spaces) (rev s) = rev s"
    using assms by (intro strip_words_id) (auto simp: trimmed_def suffix_to_prefix)
  moreover have "strip_words white_spaces s = s"
    using assms by (intro strip_words_id) (auto simp: trimmed_def)
  ultimately show ?thesis
    by (simp add: trim_def trim_start_def trim_end_def)
qed

lemma trim_idem [simp]: "trim (trim s) = trim s"
  by (simp add: trim_trimmed trimmed_trim)

end
