(* ===== verification/Sample.thy ===== *)
theory Sample
  imports Externals Text_Scan
begin

unbundle bit_operations_syntax

text \<open>
  A concrete record of external functions on which every law of \<open>Externals\<close> holds. It is no
  model of those libraries: it shows that the laws are consistent, and lets the concrete
  instances of the theorems be evaluated.
\<close>

definition toy_hash :: "bytes \<Rightarrow> byte" where
  "toy_hash bs = fold (\<lambda>b h. h * 31 + b + 1) bs 7"

definition toy_public :: "bytes \<Rightarrow> bytes" where
  "toy_public sk = (if sk = replicate 32 255 then replicate 32 0 else sk)"

definition toy_mac :: "bytes \<Rightarrow> bytes \<Rightarrow> bytes" where
  "toy_mac pk m = take 64 (pk @ replicate 64 (toy_hash m))"

definition toy_point_ok :: "bytes \<Rightarrow> bool" where
  "toy_point_ok pk \<longleftrightarrow> length pk = 32 \<and> pk \<noteq> replicate 32 255"

definition toy_keystream :: "bytes \<Rightarrow> bytes \<Rightarrow> bytes \<Rightarrow> byte" where
  "toy_keystream k n a = toy_hash (k @ n @ a)"

definition toy_encrypt :: "bytes \<Rightarrow> bytes \<Rightarrow> bytes \<Rightarrow> bytes \<Rightarrow> string + bytes" where
  "toy_encrypt k n p a = Inr (toy_hash (k @ a) # map (\<lambda>b. b XOR toy_keystream k n a) p)"

definition toy_decrypt :: "bytes \<Rightarrow> bytes \<Rightarrow> bytes \<Rightarrow> bytes \<Rightarrow> string + bytes" where
  "toy_decrypt k n c a =
     (case c of
        [] \<Rightarrow> Inl ''aead::Error''
      | t # q \<Rightarrow>
          if t = toy_hash (k @ a) then Inr (map (\<lambda>b. b XOR toy_keystream k n a) q)
          else Inl ''aead::Error'')"

definition toy_uuid :: "nat \<Rightarrow> int \<Rightarrow> bytes" where
  "toy_uuid i t = rev (le_bytes 6 t) @ [112, 0, 128, 0] @ rev (le_bytes 6 (int i))"

definition toy_uuid_unix :: "bytes \<Rightarrow> (int \<times> int) option" where
  "toy_uuid_unix bs =
     (let ms = le_value (rev (take 6 bs))
      in if bs ! 6 div 16 = 7 then Some (ms div 1000, ms mod 1000 * 1000000) else None)"

fun toy_json_control :: "control_payload \<Rightarrow> bytes" where
  "toy_json_control RejectedRequest = as_bytes ''rejected_request''"
| "toy_json_control AcceptedRequest = as_bytes ''accepted_request''"
| "toy_json_control ChatDeleted = as_bytes ''chat_deleted''"

definition toy_unjson_control :: "bytes \<Rightarrow> string + control_payload" where
  "toy_unjson_control bs =
     (if bs = toy_json_control RejectedRequest then Inr RejectedRequest
      else if bs = toy_json_control AcceptedRequest then Inr AcceptedRequest
      else if bs = toy_json_control ChatDeleted then Inr ChatDeleted
      else Inl ''unknown variant'')"

definition toy_json_envelope :: "message_envelope \<Rightarrow> bytes" where
  "toy_json_envelope e =
     env_message_id e @ env_sender_pub e @ le_bytes 8 (env_timestamp_ms e) @ env_nonce e @
     env_sig e @ env_ciphertext e"

definition toy_unjson_envelope :: "bytes \<Rightarrow> string + message_envelope" where
  "toy_unjson_envelope bs =
     (if length bs < 132 then Inl ''EOF while parsing''
      else Inr \<lparr>env_message_id = take 16 bs,
                env_sender_pub = take 32 (drop 16 bs),
                env_timestamp_ms = wrap64 (le_value (take 8 (drop 48 bs))),
                env_nonce = take 12 (drop 56 bs),
                env_ciphertext = drop 132 bs,
                env_sig = take 64 (drop 68 bs)\<rparr>)"

text \<open>Strings quoted character by character, each string closed by a mark.\<close>

fun toy_quote :: "string \<Rightarrow> string" where
  "toy_quote [] = [CHR 0x00]"
| "toy_quote (c # cs) = CHR 0x01 # c # toy_quote cs"

fun toy_unquote :: "string \<Rightarrow> string list \<Rightarrow> string \<Rightarrow> string list option" where
  "toy_unquote acc ss [] = (if acc = [] then Some (rev ss) else None)"
| "toy_unquote acc ss (d # cs) =
     (if d = CHR 0x00 then toy_unquote [] (rev acc # ss) cs
      else (case cs of c # cs' \<Rightarrow> toy_unquote (c # acc) ss cs' | [] \<Rightarrow> None))"

definition toy_json_strings :: "string list \<Rightarrow> string" where
  "toy_json_strings l = concat (map toy_quote l)"

definition toy_unjson_strings :: "string \<Rightarrow> string + string list" where
  "toy_unjson_strings j =
     (case toy_unquote [] [] j of Some l \<Rightarrow> Inr l | None \<Rightarrow> Inl ''expected value'')"

definition toy_json_settings :: "settings \<Rightarrow> string" where
  "toy_json_settings s =
     (if dial_mode s = LanOnly then ''L'' else ''I'') @ toy_json_strings (extra_bootstraps s)"

definition toy_unjson_settings :: "string \<Rightarrow> string + settings" where
  "toy_unjson_settings j =
     (case j of
        [] \<Rightarrow> Inl ''EOF while parsing''
      | c # cs \<Rightarrow>
          (case toy_unjson_strings cs of
             Inl e \<Rightarrow> Inl e
           | Inr l \<Rightarrow> Inr \<lparr>dial_mode = (if c = CHR ''L'' then LanOnly else InternetMode),
                            extra_bootstraps = l\<rparr>))"

text \<open>Multiaddresses: the components a bootstrap address is made of.\<close>

definition toy_number :: "string \<Rightarrow> nat" where
  "toy_number s = foldl (\<lambda>n c. 10 * n + (of_char c - 48)) 0 s"

definition toy_proto :: "string \<Rightarrow> string \<Rightarrow> proto option" where
  "toy_proto p h =
     (if p = ''dns'' then Some (Dns h)
      else if p = ''dns4'' then Some (Dns4 h)
      else if p = ''ip4'' then
        (case map toy_number (split_on CHR ''.'' h) of
           [a, b, c, d] \<Rightarrow> Some (Ip4 (of_nat a) (of_nat b) (of_nat c) (of_nat d))
         | _ \<Rightarrow> None)
      else if p = ''tcp'' then Some (Tcp (of_nat (toy_number h)))
      else if p = ''udp'' then Some (Udp (of_nat (toy_number h)))
      else if p = ''p2p'' then Some (P2p (as_bytes h))
      else None)"

fun toy_protos :: "string list \<Rightarrow> maddr option" where
  "toy_protos [] = Some []"
| "toy_protos (p # ps) =
     (if p = ''quic-v1'' then map_option ((#) QuicV1) (toy_protos ps)
      else if p = ''p2p-circuit'' then map_option ((#) P2pCircuit) (toy_protos ps)
      else (case ps of
              [] \<Rightarrow> None
            | h # qs \<Rightarrow>
                (case toy_proto p h of
                   None \<Rightarrow> None
                 | Some q \<Rightarrow> map_option ((#) q) (toy_protos qs))))"

definition toy_maddr_parse :: "string \<Rightarrow> string + maddr" where
  "toy_maddr_parse s =
     (case split_on CHR ''/'' s of
        '''' # p # ps \<Rightarrow>
          (case toy_protos (p # ps) of Some m \<Rightarrow> Inr m | None \<Rightarrow> Inl ''unknown protocol'')
      | _ \<Rightarrow> Inl ''invalid multiaddr'')"

fun toy_proto_show :: "proto \<Rightarrow> string" where
  "toy_proto_show (Dns h) = ''/dns/'' @ h"
| "toy_proto_show (Dns4 h) = ''/dns4/'' @ h"
| "toy_proto_show (Dns6 h) = ''/dns6/'' @ h"
| "toy_proto_show (Ip4 a b c d) =
     ''/ip4/'' @ show_nat (unat a) @ ''.'' @ show_nat (unat b) @ ''.'' @
     show_nat (unat c) @ ''.'' @ show_nat (unat d)"
| "toy_proto_show (Ip6 w) = ''/ip6/'' @ concat (map (\<lambda>x. show_nat (unat x) @ '':'') w)"
| "toy_proto_show (Tcp n) = ''/tcp/'' @ show_nat (unat n)"
| "toy_proto_show (Udp n) = ''/udp/'' @ show_nat (unat n)"
| "toy_proto_show Quic = ''/quic''"
| "toy_proto_show QuicV1 = ''/quic-v1''"
| "toy_proto_show (P2p i) = ''/p2p/'' @ of_bytes i"
| "toy_proto_show P2pCircuit = ''/p2p-circuit''"
| "toy_proto_show (OtherProto s) = ''/'' @ s"

definition sample_ext :: ext where
  "sample_ext =
     \<lparr>b58_encode = of_bytes,
      b58_onto = (\<lambda>s n. if length s \<le> n then Inr (as_bytes s) else Inl ''buffer too small''),
      blake3 = (\<lambda>bs. replicate 32 (toy_hash bs)),
      ed_public = toy_public,
      ed_point_ok = toy_point_ok,
      ed_sign = (\<lambda>sk m. toy_mac (toy_public sk) m),
      ed_check = (\<lambda>pk m sig. sig = toy_mac pk m),
      ed_montgomery = clamp_scalar,
      sha512 = (\<lambda>sk. toy_public sk @ toy_public sk),
      x_public = (\<lambda>a. a),
      x_dh = (\<lambda>a b. map2 (XOR) a b),
      hkdf_expand = (\<lambda>salt ikm info n.
        if n \<le> 255 * 32 then Inr (replicate n (toy_hash (salt @ ikm @ info)))
        else Inl ''invalid number of blocks''),
      chacha_encrypt = toy_encrypt,
      chacha_decrypt = toy_decrypt,
      rng_bytes = (\<lambda>i n. replicate n (word_of_nat (i + 1))),
      uuid_v7 = toy_uuid,
      uuid_unix = toy_uuid_unix,
      uuid_show = of_bytes,
      json_control = (\<lambda>p. Inr (toy_json_control p)),
      unjson_control = toy_unjson_control,
      json_envelope = (\<lambda>e. Inr (toy_json_envelope e)),
      unjson_envelope = toy_unjson_envelope,
      json_strings = (\<lambda>l. Inr (toy_json_strings l)),
      unjson_strings = toy_unjson_strings,
      json_settings = (\<lambda>s. Inr (toy_json_settings s)),
      unjson_settings = toy_unjson_settings,
      maddr_parse = toy_maddr_parse,
      maddr_show = (\<lambda>m. concat (map toy_proto_show m)),
      pk_from_bytes = (\<lambda>bs. if toy_point_ok bs then Inr bs else Inl ''invalid point''),
      peer_of_pk = (\<lambda>pk. 0 # pk),
      multihash_of = (\<lambda>p. case p of [] \<Rightarrow> None | c # d \<Rightarrow> Some (unat c, d)),
      pk_decode = (\<lambda>d. Some (''ed25519'', d)),
      peer_show = of_bytes\<rparr>"

lemma length_toy_public: "length sk = 32 \<Longrightarrow> length (toy_public sk) = 32"
  by (simp add: toy_public_def)

lemma toy_public_ok: "length sk = 32 \<Longrightarrow> toy_point_ok (toy_public sk)"
  by (auto simp: toy_public_def toy_point_ok_def)

lemma toy_uuid_unix_v7:
  assumes "0 \<le> t" "t < 2 ^ 48"
  shows "toy_uuid_unix (toy_uuid i t) = Some (t div 1000, t mod 1000 * 1000000)"
proof -
  have "le_value (le_bytes 6 t) = t"
    using assms by (simp add: le_value_bytes)
  moreover have "rev (take 6 (toy_uuid i t)) = le_bytes 6 t"
    by (simp add: toy_uuid_def)
  moreover have "toy_uuid i t ! 6 = 112"
    by (simp add: toy_uuid_def nth_append)
  ultimately show ?thesis
    by (simp add: toy_uuid_unix_def Let_def)
qed

lemma toy_unquote_quote:
  "toy_unquote acc ss (toy_quote s @ r) = toy_unquote [] ((rev acc @ s) # ss) r"
  by (induction s arbitrary: acc) auto

lemma toy_unquote_strings:
  "toy_unquote [] ss (toy_json_strings l) = Some (rev ss @ l)"
  by (induction l arbitrary: ss) (simp_all add: toy_json_strings_def toy_unquote_quote)

lemma toy_unjson_envelope_json:
  assumes "envelope_ok e"
  shows "toy_unjson_envelope (toy_json_envelope e) = Inr e"
proof -
  have "wrap64 (le_value (le_bytes 8 (env_timestamp_ms e))) = env_timestamp_ms e"
  proof -
    have "wrap64 (x mod 2 ^ 64) = wrap64 x" for x
    proof -
      have "(word_of_int (x mod 2 ^ 64) :: 64 word) = word_of_int x"
        by (simp add: word_of_int_eq_iff take_bit_eq_mod)
      then show ?thesis
        by (simp add: wrap64_def)
    qed
    with assms show ?thesis
      by (simp add: le_value_bytes envelope_ok_def)
  qed
  with assms show ?thesis
    by (simp add: toy_unjson_envelope_def toy_json_envelope_def envelope_ok_def)
qed

lemma sample_b58: "b58_law sample_ext"
  by (auto simp: b58_law_def sample_ext_def length_of_bytes split: if_splits)

lemma sample_ed: "ed_law sample_ext"
  by (simp add: ed_law_def sample_ext_def toy_public_ok length_toy_public toy_mac_def)

lemma sample_dh: "dh_law sample_ext"
proof -
  have "map2 (XOR) a b = map2 (XOR) b (a :: bytes)" if "length a = length b" for a b
    using that by (induction a b rule: list_induct2) (simp_all add: xor.commute)
  then show ?thesis
    by (simp add: dh_law_def sample_ext_def length_toy_public clamp_scalar_def)
qed

lemma sample_aead: "aead_law sample_ext"
  by (auto simp: aead_law_def sample_ext_def toy_encrypt_def toy_decrypt_def comp_def xor.assoc)

lemma sample_json: "json_law sample_ext"
proof -
  have "toy_unjson_control (toy_json_control p) = Inr p" for p
    by (cases p) (simp_all add: toy_unjson_control_def as_bytes_inject)
  moreover have "toy_unjson_strings (toy_json_strings l) = Inr l" for l
    by (simp add: toy_unjson_strings_def toy_unquote_strings)
  moreover have "toy_unjson_settings (toy_json_settings s) = Inr s" for s
    using calculation(2)
    by (cases s; cases "dial_mode s") (auto simp: toy_unjson_settings_def toy_json_settings_def)
  ultimately show ?thesis
    by (simp add: json_law_def sample_ext_def toy_unjson_envelope_json)
qed

lemma sample_peer: "peer_law sample_ext"
  by (auto simp: peer_law_def sample_ext_def split: if_splits)

lemma sample_ext_laws: "ext_laws sample_ext"
  unfolding ext_laws_def
proof (intro conjI)
  show "blake3_law sample_ext"
    by (simp add: blake3_law_def sample_ext_def)
  show "hkdf_law sample_ext"
    by (simp add: hkdf_law_def sample_ext_def)
  show "rng_law sample_ext"
    by (simp add: rng_law_def sample_ext_def)
  show "uuid_law sample_ext"
    using toy_uuid_unix_v7 by (simp add: uuid_law_def sample_ext_def toy_uuid_def)
qed (fact sample_b58 sample_ed sample_dh sample_aead sample_json sample_peer)+

end
