(* ===== verification/Crypto.thy ===== *)
theory Crypto
  imports Sample
begin

unbundle bit_operations_syntax

text \<open>
  The thin wrappers of \<open>y7ke-core/src/crypto\<close> over the cryptographic crates: key derivation,
  authenticated encryption, X25519 exchange and Ed25519 signatures.
\<close>

section \<open>Key derivation (\<open>kdf.rs\<close>)\<close>

definition crypto_error :: "string \<Rightarrow> app_error" where
  "crypto_error m = CryptoErr m"

definition hkdf_sha256 :: "ext \<Rightarrow> bytes \<Rightarrow> bytes \<Rightarrow> bytes \<Rightarrow> nat \<Rightarrow> bytes res" where
  "hkdf_sha256 E salt ikm info len =
     (case hkdf_expand E salt ikm info len of
        Inl e \<Rightarrow> Inl (CryptoErr (''hkdf expand failed: '' @ e))
      | Inr okm \<Rightarrow> Inr okm)"

definition hkdf_sha256_32 :: "ext \<Rightarrow> bytes \<Rightarrow> bytes \<Rightarrow> bytes \<Rightarrow> bytes res" where
  "hkdf_sha256_32 E salt ikm info = hkdf_sha256 E salt ikm info 32"

lemma hkdf_sha256_ok:
  assumes "hkdf_law E" "n \<le> 255 * 32"
  obtains k where "hkdf_sha256 E salt ikm info n = Inr k" "length k = n"
proof -
  obtain k where "hkdf_expand E salt ikm info n = Inr k" "length k = n"
    using assms unfolding hkdf_law_def by blast
  then show ?thesis
    by (intro that [of k]) (simp_all add: hkdf_sha256_def)
qed

section \<open>Authenticated encryption (\<open>aead.rs\<close>)\<close>

definition key_len :: nat where
  "key_len = 32"

definition nonce_len :: nat where
  "nonce_len = 12"

datatype symmetric_key = SymmetricKey (key_bytes: bytes)

definition generate_nonce :: "ext \<Rightarrow> (os, bytes) action" where
  "generate_nonce E = draw (\<lambda>i. rng_bytes E i nonce_len)"

definition symmetric_key_random :: "ext \<Rightarrow> (os, symmetric_key) action" where
  "symmetric_key_random E = draw (\<lambda>i. SymmetricKey (rng_bytes E i key_len))"

definition key_seal :: "ext \<Rightarrow> symmetric_key \<Rightarrow> bytes \<Rightarrow> bytes \<Rightarrow> (os, bytes \<times> bytes) action" where
  "key_seal E k plaintext aad =
     andThen (generate_nonce E) (\<lambda>nonce.
       case chacha_encrypt E (key_bytes k) nonce plaintext aad of
         Inl e \<Rightarrow> throw (CryptoErr (''encrypt failed: '' @ e))
       | Inr ciphertext \<Rightarrow> ret (ciphertext, nonce))"

definition key_open :: "ext \<Rightarrow> symmetric_key \<Rightarrow> bytes \<Rightarrow> bytes \<Rightarrow> bytes \<Rightarrow> bytes res" where
  "key_open E k nonce ciphertext aad =
     (case chacha_decrypt E (key_bytes k) nonce ciphertext aad of
        Inl e \<Rightarrow> Inl (CryptoErr (''decrypt failed: '' @ e))
      | Inr p \<Rightarrow> Inr p)"

lemma key_seal_Inr:
  "key_seal E k p a s = (Inr (c, n), s') \<longleftrightarrow>
     n = rng_bytes E (os_draws s) nonce_len \<and> s' = s\<lparr>os_draws := os_draws s + 1\<rparr> \<and>
     chacha_encrypt E (key_bytes k) n p a = Inr c"
  by (auto simp: key_seal_def generate_nonce_def draw_def action_simps split: sum.splits)

lemma key_open_sealed:
  "aead_law E \<Longrightarrow> key_seal E k p a s = (Inr (c, n), s') \<Longrightarrow> key_open E k n c a = Inr p"
  by (auto simp: key_seal_Inr key_open_def dest: aead_decrypts)

lemma key_seal_total:
  assumes "aead_law E" "length p < 2 ^ 38 - 64"
  obtains c n s' where "key_seal E k p a s = (Inr (c, n), s')"
proof -
  let ?n = "rng_bytes E (os_draws s) nonce_len"
  obtain c where "chacha_encrypt E (key_bytes k) ?n p a = Inr c"
    using assms unfolding aead_law_def by blast
  then show ?thesis
    using that [of c ?n "s\<lparr>os_draws := os_draws s + 1\<rparr>"] by (simp add: key_seal_Inr)
qed

section \<open>Signatures (\<open>signing.rs\<close>)\<close>

datatype signing_key = SigningKey (secret_bytes: bytes)
datatype verifying_key = VerifyingKey (vk_bytes: bytes)

definition signing_key_generate :: "ext \<Rightarrow> (os, signing_key) action" where
  "signing_key_generate E = draw (\<lambda>i. SigningKey (rng_bytes E i 32))"

definition signing_key_from_bytes :: "bytes \<Rightarrow> signing_key" where
  "signing_key_from_bytes secret = SigningKey secret"

definition verifying_key :: "ext \<Rightarrow> signing_key \<Rightarrow> verifying_key" where
  "verifying_key E k = VerifyingKey (ed_public E (secret_bytes k))"

definition sign :: "ext \<Rightarrow> signing_key \<Rightarrow> bytes \<Rightarrow> bytes" where
  "sign E k message = ed_sign E (secret_bytes k) message"

definition to_x25519_scalar :: "ext \<Rightarrow> signing_key \<Rightarrow> bytes" where
  "to_x25519_scalar E k =
     (let hash = sha512 E (secret_bytes k);
          scalar = take 32 hash;
          scalar = scalar[0 := scalar ! 0 AND 248];
          scalar = scalar[31 := scalar ! 31 AND 127]
      in scalar[31 := scalar ! 31 OR 64])"

definition verifying_key_from_bytes :: "ext \<Rightarrow> bytes \<Rightarrow> verifying_key res" where
  "verifying_key_from_bytes E pk =
     (if ed_point_ok E pk then Inr (VerifyingKey pk) else Inl InvalidPublicKey)"

definition verify :: "ext \<Rightarrow> verifying_key \<Rightarrow> bytes \<Rightarrow> bytes \<Rightarrow> unit res" where
  "verify E vk message sig =
     (if ed_check E (vk_bytes vk) message sig then Inr () else Inl InvalidSignature)"

definition to_x25519_public :: "ext \<Rightarrow> verifying_key \<Rightarrow> bytes" where
  "to_x25519_public E vk = ed_montgomery E (vk_bytes vk)"

text \<open>A long-term key of the program: a seed of 32 bytes.\<close>

definition signing_key_ok :: "signing_key \<Rightarrow> bool" where
  "signing_key_ok k \<longleftrightarrow> length (secret_bytes k) = 32"

definition public_of :: "ext \<Rightarrow> signing_key \<Rightarrow> bytes" where
  "public_of E k = vk_bytes (verifying_key E k)"

lemma verify_signed:
  "ed_law E \<Longrightarrow> signing_key_ok k \<Longrightarrow> verify E (VerifyingKey (public_of E k)) m (sign E k m) = Inr ()"
  by (simp add: verify_def sign_def public_of_def verifying_key_def signing_key_ok_def ed_sign_ok)

lemma verifying_key_of_public:
  "ed_law E \<Longrightarrow> signing_key_ok k \<Longrightarrow>
   verifying_key_from_bytes E (public_of E k) = Inr (VerifyingKey (public_of E k))"
  by (simp add: verifying_key_from_bytes_def public_of_def verifying_key_def signing_key_ok_def
      ed_public_ok)

lemma length_public_of: "ed_law E \<Longrightarrow> signing_key_ok k \<Longrightarrow> length (public_of E k) = 32"
  by (simp add: public_of_def verifying_key_def signing_key_ok_def length_ed_public)

lemma length_sign: "ed_law E \<Longrightarrow> signing_key_ok k \<Longrightarrow> length (sign E k m) = 64"
  by (simp add: sign_def signing_key_ok_def length_ed_sign)

lemma to_x25519_scalar_clamp:
  "to_x25519_scalar E k = clamp_scalar (sha512 E (secret_bytes k))"
  by (simp add: to_x25519_scalar_def clamp_scalar_def Let_def)

section \<open>Key exchange (\<open>exchange.rs\<close>)\<close>

text \<open>Ephemeral and static secrets are 32 bytes; a shared secret is 32 bytes.\<close>

datatype ephemeral_secret = EphemeralSecret (eph_bytes: bytes)

definition ephemeral_generate :: "ext \<Rightarrow> (os, ephemeral_secret) action" where
  "ephemeral_generate E = draw (\<lambda>i. EphemeralSecret (rng_bytes E i 32))"

definition eph_public_key :: "ext \<Rightarrow> ephemeral_secret \<Rightarrow> bytes" where
  "eph_public_key E s = x_public E (eph_bytes s)"

definition eph_diffie_hellman :: "ext \<Rightarrow> ephemeral_secret \<Rightarrow> bytes \<Rightarrow> bytes" where
  "eph_diffie_hellman E s peer = x_dh E (eph_bytes s) peer"

definition static_diffie_hellman :: "ext \<Rightarrow> bytes \<Rightarrow> bytes \<Rightarrow> bytes" where
  "static_diffie_hellman E scalar peer = x_dh E scalar peer"

definition parse_public_key :: "bytes \<Rightarrow> bytes res" where
  "parse_public_key buf =
     (if length buf \<noteq> 32
      then Inl (CryptoErr (''x25519 public key must be 32 bytes, got '' @ show_nat (length buf)))
      else Inr buf)"

text \<open>The two ends of a static exchange agree.\<close>

lemma static_exchange_agrees:
  assumes "dh_law E" "signing_key_ok a" "signing_key_ok b"
  shows "static_diffie_hellman E (to_x25519_scalar E a) (to_x25519_public E (verifying_key E b)) =
         static_diffie_hellman E (to_x25519_scalar E b) (to_x25519_public E (verifying_key E a))"
proof -
  have m: "to_x25519_public E (verifying_key E k) = x_public E (to_x25519_scalar E k)"
    if "signing_key_ok k" for k
    using assms(1) that
    by (simp add: to_x25519_public_def verifying_key_def to_x25519_scalar_clamp dh_law_def
        signing_key_ok_def)
  have l: "length (to_x25519_scalar E k) = 32" if "signing_key_ok k" for k
    using assms(1) that
    by (simp add: to_x25519_scalar_clamp length_clamp_scalar dh_law_def signing_key_ok_def)
  show ?thesis
    using assms by (simp add: static_diffie_hellman_def m l x_dh_commute)
qed

end
