(* ===== verification/Identifiers.thy ===== *)
theory Identifiers
  imports Crypto
begin

unbundle bit_operations_syntax

text \<open>
  Identifiers (\<open>y7ke-core/src/id.rs\<close>): the URI form of a user's public key and its two
  parsers, message ids with their embedded time, and the symmetric conversation id.
\<close>

section \<open>\<open>Y7Id\<close>\<close>

definition uri_prefix :: string where
  "uri_prefix = ''y7:''"

definition from_pubkey :: "bytes \<Rightarrow> y7id" where
  "from_pubkey pk = Y7Id pk"

definition to_uri :: "ext \<Rightarrow> y7id \<Rightarrow> string" where
  "to_uri E y = uri_prefix @ b58_encode E (pubkey y)"

definition parse :: "ext \<Rightarrow> string \<Rightarrow> y7id res" where
  "parse E s =
     (case strip_prefix uri_prefix s of
        None \<Rightarrow> Inl (InvalidY7Id (''missing '' @ [CHR 0x27] @ uri_prefix @ [CHR 0x27] @ '' prefix''))
      | Some body \<Rightarrow>
          (case b58_onto E body 32 of
             Inl e \<Rightarrow> Inl (InvalidY7Id (''base58 decode: '' @ e))
           | Inr buf \<Rightarrow>
               if length buf \<noteq> 32
               then Inl (InvalidY7Id (''expected 32 bytes, got '' @ show_nat (length buf)))
               else Inr (Y7Id buf)))"

definition parse_strict :: "ext \<Rightarrow> string \<Rightarrow> y7id res" where
  "parse_strict E s =
     (case parse E s of
        Inl e \<Rightarrow> Inl e
      | Inr y7 \<Rightarrow>
          (case verifying_key_from_bytes E (pubkey y7) of
             Inl _ \<Rightarrow> Inl (InvalidY7Id ''decoded bytes are not a valid Ed25519 public key'')
           | Inr _ \<Rightarrow> Inr y7))"

definition y7id_debug :: "ext \<Rightarrow> y7id \<Rightarrow> string" where
  "y7id_debug E y = ''Y7Id('' @ to_uri E y @ '')''"

lemma parse_Inr_iff:
  assumes "b58_law E"
  shows "parse E s = Inr y \<longleftrightarrow> y7id_ok y \<and> s = to_uri E y"
proof
  assume "parse E s = Inr y"
  then obtain body where "strip_prefix uri_prefix s = Some body"
    and b: "b58_onto E body 32 = Inr (pubkey y)" and l: "length (pubkey y) = 32"
    by (auto simp: parse_def split: option.splits sum.splits if_splits)
  then have "s = uri_prefix @ body"
    by (simp add: strip_prefix_SomeD)
  with b l assms show "y7id_ok y \<and> s = to_uri E y"
    by (auto simp: b58_law_def to_uri_def y7id_ok_def)
next
  assume "y7id_ok y \<and> s = to_uri E y"
  with assms show "parse E s = Inr y"
    by (simp add: parse_def to_uri_def b58_law_def y7id_ok_def)
qed

lemma parse_to_uri: "b58_law E \<Longrightarrow> y7id_ok y \<Longrightarrow> parse E (to_uri E y) = Inr y"
  by (simp add: parse_Inr_iff)

lemma to_uri_inj:
  "b58_law E \<Longrightarrow> y7id_ok a \<Longrightarrow> y7id_ok b \<Longrightarrow> to_uri E a = to_uri E b \<longleftrightarrow> a = b"
  by (metis parse_Inr_iff sum.inject(2))

lemma parse_strict_Inr_iff:
  "parse_strict E s = Inr y \<longleftrightarrow> parse E s = Inr y \<and> ed_point_ok E (pubkey y)"
  by (auto simp: parse_strict_def verifying_key_from_bytes_def split: sum.splits if_splits)

text \<open>
  C27. The strict parser of the command boundary and the URI printer are inverse: a string
  parses to \<open>y\<close> exactly when it is the URI of \<open>y\<close>, \<open>y\<close> has 32 bytes and those are an Ed25519
  point. So no two strings name one user, and everything that passes the parser prints back.
\<close>

theorem parse_strict_iff_uri:
  assumes "b58_law E"
  shows "parse_strict E s = Inr y \<longleftrightarrow>
           y7id_ok y \<and> ed_point_ok E (pubkey y) \<and> s = to_uri E y"
  by (auto simp: parse_strict_Inr_iff parse_Inr_iff [OF assms])

theorem parse_strict_iff_uri_witness:
  "parse_strict sample_ext (''y7:'' @ replicate 32 CHR ''a'') = Inr (Y7Id (replicate 32 97)) \<and>
   parse_strict sample_ext (''y7:'' @ replicate 31 CHR ''a'') \<noteq> Inr (Y7Id (replicate 31 97))"
proof -
  have "char_of_byte 97 = CHR ''a''"
    by code_simp
  then have u: "to_uri sample_ext (Y7Id (replicate n 97)) = ''y7:'' @ replicate n CHR ''a''" for n
    by (simp add: to_uri_def uri_prefix_def sample_ext_def of_bytes_def)
  have "ed_point_ok sample_ext (replicate 32 97)"
    by (simp add: sample_ext_def toy_point_ok_def)
  then show ?thesis
    using parse_strict_iff_uri [OF sample_b58, of "''y7:'' @ replicate 32 CHR ''a''" "Y7Id (replicate 32 97)"]
      parse_strict_iff_uri [OF sample_b58, of "''y7:'' @ replicate 31 CHR ''a''" "Y7Id (replicate 31 97)"]
    by (simp add: u y7id_ok_def)
qed

section \<open>\<open>MessageId\<close>\<close>

definition new_v7 :: "ext \<Rightarrow> (os, message_id) action" where
  "new_v7 E s = draw (\<lambda>i. MessageId (uuid_v7 E i (os_now s))) s"

definition message_id_from_bytes :: "bytes \<Rightarrow> message_id" where
  "message_id_from_bytes b = MessageId b"

definition timestamp_ms :: "ext \<Rightarrow> message_id \<Rightarrow> int option" where
  "timestamp_ms E m =
     (case uuid_unix E (mid_bytes m) of
        None \<Rightarrow> None
      | Some (secs, nanos) \<Rightarrow> Some (wrap64 (wrap64 secs * 1000 + nanos div 1000000)))"

definition message_id_show :: "ext \<Rightarrow> message_id \<Rightarrow> string" where
  "message_id_show E m = uuid_show E (mid_bytes m)"

definition message_id_debug :: "ext \<Rightarrow> message_id \<Rightarrow> string" where
  "message_id_debug E m = ''MessageId('' @ message_id_show E m @ '')''"

lemma timestamp_ms_new:
  assumes "uuid_law E" "0 \<le> os_now s" "os_now s < 2 ^ 48"
  shows "timestamp_ms E (MessageId (uuid_v7 E i (os_now s))) = Some (os_now s)"
proof -
  have u: "uuid_unix E (uuid_v7 E i (os_now s)) =
      Some (os_now s div 1000, os_now s mod 1000 * 1000000)"
    using assms unfolding uuid_law_def by blast
  have "is_i64 (os_now s div 1000)" "is_i64 (os_now s)"
    using assms by (auto simp: is_i64_def)
  moreover have "os_now s div 1000 * 1000 + os_now s mod 1000 = os_now s"
    by simp
  ultimately show ?thesis
    using assms by (simp add: timestamp_ms_def u)
qed

section \<open>\<open>ConversationId\<close>\<close>

definition hex_digits :: string where
  "hex_digits = ''0123456789abcdef''"

definition hex_encode :: "bytes \<Rightarrow> string" where
  "hex_encode bs =
     concat (map (\<lambda>b. [hex_digits ! unat (drop_bit 4 b), hex_digits ! unat (b AND 15)]) bs)"

definition conversation_between :: "ext \<Rightarrow> y7id \<Rightarrow> y7id \<Rightarrow> conversation_id" where
  "conversation_between E a b =
     (let (lo, hi) = (if pubkey a \<le> pubkey b then (pubkey a, pubkey b) else (pubkey b, pubkey a))
      in ConversationId (take 16 (blake3 E (lo @ hi))))"

definition to_hex :: "conversation_id \<Rightarrow> string" where
  "to_hex c = hex_encode (conv_bytes c)"

definition conversation_debug :: "conversation_id \<Rightarrow> string" where
  "conversation_debug c = ''ConversationId('' @ to_hex c @ '')''"

lemma conversation_between_sym: "conversation_between E a b = conversation_between E b a"
  by (auto simp: conversation_between_def Let_def)

lemma length_conversation_between:
  "blake3_law E \<Longrightarrow> length (conv_bytes (conversation_between E a b)) = 16"
  by (simp add: conversation_between_def blake3_law_def Let_def split_def)

lemma length_hex_encode: "length (hex_encode bs) = 2 * length bs"
  by (induction bs) (simp_all add: hex_encode_def)

text \<open>The two digits determine the byte, so the hexadecimal form determines the bytes.\<close>

lemma hex_digit_inj: "i < 16 \<Longrightarrow> j < 16 \<Longrightarrow> hex_digits ! i = hex_digits ! j \<longleftrightarrow> i = j"
  by (auto simp: hex_digits_def less_Suc_eq numeral_eq_Suc)

lemma nibbles_inj:
  fixes a b :: byte
  assumes "drop_bit 4 a = drop_bit 4 b" "a AND 15 = b AND 15"
  shows "a = b"
proof -
  have "x = push_bit 4 (drop_bit 4 x) + (x AND 15)" for x :: byte
    using bits_ident [of 4 x] take_bit_eq_mask [of 4 x] by (simp add: mask_eq_exp_minus_1)
  then show ?thesis
    using assms by metis
qed

lemma hex_byte_inj:
  fixes a b :: byte
  shows "[hex_digits ! unat (drop_bit 4 a), hex_digits ! unat (a AND 15)] =
         [hex_digits ! unat (drop_bit 4 b), hex_digits ! unat (b AND 15)] \<longleftrightarrow> a = b"
proof -
  have h: "unat (drop_bit 4 x) < 16" for x :: byte
    unfolding unat_drop_bit_eq using unsigned_less [of x]
    by (simp add: drop_bit_eq_div div_less_iff_less_mult)
  have l: "unat (x AND 15) < 16" for x :: byte
  proof -
    have e: "unat (x AND 15) = take_bit 4 (unat x)"
      by (simp add: unsigned_and_eq take_bit_eq_mask mask_eq_exp_minus_1)
    show ?thesis
      unfolding e using take_bit_nat_less_exp [of 4 "unat x"] by simp
  qed
  show ?thesis
    using h l by (auto simp: hex_digit_inj word_unat_eq_iff [symmetric] intro: nibbles_inj)
qed

lemma hex_encode_inj: "hex_encode xs = hex_encode ys \<longleftrightarrow> xs = ys"
proof (induction xs arbitrary: ys)
  case Nil
  then show ?case
    by (cases ys) (simp_all add: hex_encode_def)
next
  case (Cons x xs)
  then show ?case
    using hex_byte_inj [of x] by (cases ys) (auto simp: hex_encode_def)
qed

end
