(* ===== verification/Messaging.thy ===== *)
theory Messaging
  imports Identifiers
begin

text \<open>
  Message envelopes (\<open>y7ke-app/src/messaging.rs\<close>): the per-conversation key that both parties
  derive, sealing of text and control payloads, and opening with the signature checked first.
\<close>

definition tag_text :: byte where
  "tag_text = 0"

definition tag_control :: byte where
  "tag_control = 1"

definition signed_bytes :: "bytes \<Rightarrow> int \<Rightarrow> bytes \<Rightarrow> bytes" where
  "signed_bytes message_id ts ciphertext = message_id @ le_bytes 8 ts @ ciphertext"

definition conv_kdf_info :: bytes where
  "conv_kdf_info = as_bytes ''y7ke-conv-v1''"

definition derive_conv_key :: "ext \<Rightarrow> signing_key \<Rightarrow> bytes \<Rightarrow> bytes \<Rightarrow> symmetric_key res" where
  "derive_conv_key E me peer_pub conv_id =
     (let scalar = to_x25519_scalar E me in
      case verifying_key_from_bytes E peer_pub of
        Inl e \<Rightarrow> Inl e
      | Inr peer_verifying \<Rightarrow>
          (let shared = static_diffie_hellman E scalar (to_x25519_public E peer_verifying) in
           case hkdf_sha256 E conv_id shared conv_kdf_info 32 of
             Inl e \<Rightarrow> Inl e
           | Inr key \<Rightarrow>
               if length key = 32 then Inr (SymmetricKey key)
               else Inl (CryptoErr ''hkdf length mismatch'')))"

definition seal_kind ::
  "ext \<Rightarrow> signing_key \<Rightarrow> bytes \<Rightarrow> symmetric_key \<Rightarrow> bytes \<Rightarrow>
   (os, message_id \<times> message_envelope \<times> int) action" where
  "seal_kind E me my_pubkey session_key plaintext =
     andThen (new_v7 E) (\<lambda>message_id.
       case timestamp_ms E message_id of
         None \<Rightarrow> throw (CryptoErr ''UUIDv7 had no embedded timestamp'')
       | Some ts \<Rightarrow>
           andThen (key_seal E session_key plaintext my_pubkey) (\<lambda>(ciphertext, nonce).
             let sig = sign E me (signed_bytes (mid_bytes message_id) ts ciphertext)
             in ret (message_id,
                     \<lparr>env_message_id = mid_bytes message_id,
                      env_sender_pub = my_pubkey,
                      env_timestamp_ms = ts,
                      env_nonce = nonce,
                      env_ciphertext = ciphertext,
                      env_sig = sig\<rparr>, ts)))"

definition seal_outgoing ::
  "ext \<Rightarrow> signing_key \<Rightarrow> bytes \<Rightarrow> symmetric_key \<Rightarrow> string \<Rightarrow>
   (os, message_id \<times> message_envelope \<times> int) action" where
  "seal_outgoing E me my_pubkey session_key text =
     seal_kind E me my_pubkey session_key (tag_text # as_bytes text)"

definition seal_control ::
  "ext \<Rightarrow> signing_key \<Rightarrow> bytes \<Rightarrow> symmetric_key \<Rightarrow> control_payload \<Rightarrow>
   (os, message_id \<times> message_envelope \<times> int) action" where
  "seal_control E me my_pubkey session_key payload =
     (case json_control E payload of
        Inl e \<Rightarrow> throw (SerializationErr (''control: '' @ e))
      | Inr json \<Rightarrow> seal_kind E me my_pubkey session_key (tag_control # json))"

text \<open>What the decrypted bytes mean.\<close>

definition open_plaintext :: "ext \<Rightarrow> bytes \<Rightarrow> plaintext_kind res" where
  "open_plaintext E plaintext =
     (case plaintext of
        [] \<Rightarrow> Inl (CryptoErr ''plaintext is empty'')
      | tag # body \<Rightarrow>
          if tag = tag_text then
            (case from_utf8 body of
               Inl e \<Rightarrow> Inl (CryptoErr (''text not utf-8: '' @ e))
             | Inr text \<Rightarrow> Inr (Text text))
          else if tag = tag_control then
            (case unjson_control E body of
               Inl e \<Rightarrow> Inl (SerializationErr (''control decode: '' @ e))
             | Inr p \<Rightarrow> Inr (Control p))
          else Inl (CryptoErr (''unknown plaintext tag '' @ show_nat (unat tag))))"

definition open_envelope ::
  "ext \<Rightarrow> message_envelope \<Rightarrow> verifying_key \<Rightarrow> symmetric_key \<Rightarrow> plaintext_kind res" where
  "open_envelope E envelope sender_verifying session_key =
     (let payload = signed_bytes (env_message_id envelope) (env_timestamp_ms envelope)
                      (env_ciphertext envelope) in
      case verify E sender_verifying payload (env_sig envelope) of
        Inl e \<Rightarrow> Inl e
      | Inr _ \<Rightarrow>
          (case key_open E session_key (env_nonce envelope) (env_ciphertext envelope)
                  (env_sender_pub envelope) of
             Inl e \<Rightarrow> Inl e
           | Inr plaintext \<Rightarrow> open_plaintext E plaintext))"

section \<open>The signed bytes and the conversation key\<close>

lemma signed_bytes_inj:
  assumes "length m = 16" "length m' = 16" "is_i64 t" "is_i64 t'"
  shows "signed_bytes m t c = signed_bytes m' t' c' \<longleftrightarrow> m = m' \<and> t = t' \<and> c = c'"
  using assms le_bytes_inj by (auto simp: signed_bytes_def)

lemma derive_conv_key_ok:
  assumes "ext_laws E" "signing_key_ok b"
  obtains k where "derive_conv_key E a (public_of E b) c = Inr (SymmetricKey k)" "length k = 32"
proof -
  obtain k where "hkdf_sha256 E c (static_diffie_hellman E (to_x25519_scalar E a)
      (to_x25519_public E (VerifyingKey (public_of E b)))) conv_kdf_info 32 = Inr k" "length k = 32"
    by (rule hkdf_sha256_ok [OF ext_lawsD(5) [OF assms(1)], of 32]) simp_all
  then show ?thesis
    using that [of k] assms
    by (simp add: derive_conv_key_def verifying_key_of_public ext_lawsD Let_def)
qed

lemma derive_conv_key_sym:
  assumes "ext_laws E" "signing_key_ok a" "signing_key_ok b"
  shows "derive_conv_key E a (public_of E b) c = derive_conv_key E b (public_of E a) c"
proof -
  have v: "VerifyingKey (public_of E k) = verifying_key E k" for k
    by (simp add: public_of_def)
  show ?thesis
    using assms static_exchange_agrees [OF ext_lawsD(4) [OF assms(1)] assms(2,3)]
    by (simp add: derive_conv_key_def verifying_key_of_public ext_lawsD Let_def v)
qed

section \<open>Sealing and opening\<close>

text \<open>The envelope that one sealing produces, from the draws it makes.\<close>

lemma seal_kind_Inr:
  assumes "seal_kind E me pk k p s = (Inr (m, e, ts), s')"
  shows "m = MessageId (uuid_v7 E (os_draws s) (os_now s))" "timestamp_ms E m = Some ts"
    "s' = s\<lparr>os_draws := os_draws s + 2\<rparr>"
    "env_message_id e = mid_bytes m" "env_sender_pub e = pk" "env_timestamp_ms e = ts"
    "env_nonce e = rng_bytes E (os_draws s + 1) nonce_len"
    "chacha_encrypt E (key_bytes k) (env_nonce e) p pk = Inr (env_ciphertext e)"
    "env_sig e = sign E me (signed_bytes (mid_bytes m) ts (env_ciphertext e))"
  using assms
  by (auto simp: seal_kind_def new_v7_def draw_def action_simps key_seal_Inr Let_def
      split: option.splits sum.splits prod.splits)

lemma seal_kind_total:
  assumes "ext_laws E" "length p < 2 ^ 38 - 64" "0 \<le> os_now s" "os_now s < 2 ^ 48"
  obtains m e ts s' where "seal_kind E me pk k p s = (Inr (m, e, ts), s')"
proof -
  let ?m = "MessageId (uuid_v7 E (os_draws s) (os_now s))"
  let ?s = "s\<lparr>os_draws := os_draws s + 1\<rparr>"
  have t: "timestamp_ms E ?m = Some (os_now s)"
    using assms by (intro timestamp_ms_new) (simp_all add: ext_lawsD)
  obtain c n s' where "key_seal E k p pk ?s = (Inr (c, n), s')"
    using key_seal_total [OF ext_lawsD(6) [OF assms(1)] assms(2)] .
  then show ?thesis
    using that t by (simp add: seal_kind_def new_v7_def draw_def action_simps Let_def)
qed

lemma open_sealed:
  assumes laws: "ext_laws E" and me: "signing_key_ok me"
    and sealed: "seal_kind E me pk k p s = (Inr (m, e, ts), s')"
  shows "open_envelope E e (VerifyingKey (public_of E me)) k = open_plaintext E p"
proof -
  note f = seal_kind_Inr [OF sealed]
  have "chacha_decrypt E (key_bytes k) (env_nonce e) (env_ciphertext e) (env_sender_pub e) = Inr p"
    using f(5,8) aead_decrypts [OF ext_lawsD(6) [OF laws]] by simp
  with f laws me show ?thesis
    by (simp add: open_envelope_def verify_signed ext_lawsD key_open_def Let_def)
qed

lemma open_plaintext_text: "is_str t \<Longrightarrow> open_plaintext E (tag_text # as_bytes t) = Inr (Text t)"
  by (simp add: open_plaintext_def from_utf8_as_bytes)

lemma open_plaintext_control:
  "unjson_control E j = Inr p \<Longrightarrow> open_plaintext E (tag_control # j) = Inr (Control p)"
  by (simp add: open_plaintext_def tag_control_def tag_text_def)

text \<open>Nothing is read out of an envelope whose signature does not verify.\<close>

lemma open_envelope_InrD:
  assumes "open_envelope E e vk k = Inr p"
  shows "ed_check E (vk_bytes vk)
           (signed_bytes (env_message_id e) (env_timestamp_ms e) (env_ciphertext e)) (env_sig e)"
    "\<exists>q. key_open E k (env_nonce e) (env_ciphertext e) (env_sender_pub e) = Inr q \<and>
         open_plaintext E q = Inr p"
  using assms by (auto simp: open_envelope_def verify_def Let_def split: if_splits sum.splits)

lemma seal_control_opens:
  assumes "ext_laws E" "signing_key_ok a"
    and "seal_control E a (public_of E a) k p s = (Inr (m, e, ts), s')"
  shows "open_envelope E e (VerifyingKey (public_of E a)) k = Inr (Control p)"
proof -
  obtain j where "json_control E p = Inr j" "unjson_control E j = Inr p"
    using ext_lawsD(9) [OF assms(1)] unfolding json_law_def by blast
  with assms open_sealed [OF assms(1,2)] show ?thesis
    by (simp add: seal_control_def open_plaintext_control)
qed

text \<open>
  C16. A text sealed by one party under the conversation key it derives is opened by the other
  party under the key that party derives from its own secret, and gives the text back. The two
  keys come from different secrets, and nothing but the envelope travels.
\<close>

theorem seal_text_opens_at_peer:
  assumes "ext_laws E" "signing_key_ok a" "signing_key_ok b" "is_str t"
    and "derive_conv_key E a (public_of E b) c = Inr ka"
    and "derive_conv_key E b (public_of E a) c = Inr kb"
    and "seal_outgoing E a (public_of E a) ka t s = (Inr (m, e, ts), s')"
  shows "open_envelope E e (VerifyingKey (public_of E a)) kb = Inr (Text t)"
  using assms open_sealed [OF assms(1,2)] derive_conv_key_sym [OF assms(1-3), of c]
  by (simp add: seal_outgoing_def open_plaintext_text)

text \<open>The two parties of the concrete instances.\<close>

definition alice :: signing_key where
  "alice = SigningKey (replicate 32 1)"

definition bob :: signing_key where
  "bob = SigningKey (replicate 32 2)"

definition sample_os :: os where
  "sample_os = \<lparr>os_now = 1700000000000, os_instant = 0, os_draws = 0\<rparr>"

lemma alice_bob_ok: "signing_key_ok alice" "signing_key_ok bob"
  by (simp_all add: signing_key_ok_def alice_def bob_def)

theorem seal_text_opens_at_peer_witness:
  "\<exists>ka kb m e ts s'.
     derive_conv_key sample_ext alice (public_of sample_ext bob) [1, 2] = Inr ka \<and>
     derive_conv_key sample_ext bob (public_of sample_ext alice) [1, 2] = Inr kb \<and>
     seal_outgoing sample_ext alice (public_of sample_ext alice) ka ''hi'' sample_os = (Inr (m, e, ts), s') \<and>
     open_envelope sample_ext e (VerifyingKey (public_of sample_ext alice)) kb = Inr (Text ''hi'')"
proof -
  obtain k where k: "derive_conv_key sample_ext alice (public_of sample_ext bob) [1, 2] = Inr (SymmetricKey k)"
    using derive_conv_key_ok [OF sample_ext_laws alice_bob_ok(2)] .
  then have k': "derive_conv_key sample_ext bob (public_of sample_ext alice) [1, 2] = Inr (SymmetricKey k)"
    using derive_conv_key_sym [OF sample_ext_laws alice_bob_ok, of "[1, 2]"] by simp
  obtain m e ts s' where s: "seal_outgoing sample_ext alice (public_of sample_ext alice)
      (SymmetricKey k) ''hi'' sample_os = (Inr (m, e, ts), s')"
    unfolding seal_outgoing_def
    by (rule seal_kind_total [OF sample_ext_laws, of "tag_text # as_bytes ''hi''" sample_os])
      (simp_all add: sample_os_def)
  have "is_str ''hi''"
    by code_simp
  then show ?thesis
    using seal_text_opens_at_peer [OF sample_ext_laws alice_bob_ok _ k k' s] k k' s by blast
qed

end
