(* ===== verification/Tables.thy ===== *)
theory Tables
  imports Prelude
begin

text \<open>
  The fragment of SQL that the storage crate uses, on tables kept as lists of rows in rowid
  order: selection of one row by its primary key, \<open>UPDATE ... WHERE\<close>, \<open>DELETE ... WHERE\<close>,
  \<open>INSERT ... ON CONFLICT DO UPDATE\<close>, \<open>INSERT OR IGNORE\<close>, \<open>ORDER BY\<close> (rows that tie stay in
  rowid order) and \<open>LIMIT\<close> (a negative limit is none). The locale \<open>row_store\<close> is the contract
  of a table with a primary key; every such table of the schema is an interpretation of it.
\<close>

section \<open>Statements\<close>

definition find_row :: "('r \<Rightarrow> 'k) \<Rightarrow> 'k \<Rightarrow> 'r list \<Rightarrow> 'r option" where
  "find_row key k rows = List.find (\<lambda>r. key r = k) rows"

definition update_where :: "('r \<Rightarrow> bool) \<Rightarrow> ('r \<Rightarrow> 'r) \<Rightarrow> 'r list \<Rightarrow> 'r list" where
  "update_where p f rows = map (\<lambda>r. if p r then f r else r) rows"

definition affected :: "('r \<Rightarrow> bool) \<Rightarrow> 'r list \<Rightarrow> nat" where
  "affected p rows = length (filter p rows)"

definition delete_where :: "('r \<Rightarrow> bool) \<Rightarrow> 'r list \<Rightarrow> 'r list" where
  "delete_where p rows = filter (\<lambda>r. \<not> p r) rows"

definition has_key :: "('r \<Rightarrow> 'k) \<Rightarrow> 'k \<Rightarrow> 'r list \<Rightarrow> bool" where
  "has_key key k rows \<longleftrightarrow> k \<in> key ` set rows"

definition upsert :: "('r \<Rightarrow> 'k) \<Rightarrow> ('r \<Rightarrow> 'r \<Rightarrow> 'r) \<Rightarrow> 'r \<Rightarrow> 'r list \<Rightarrow> 'r list" where
  "upsert key merge new rows =
     (if has_key key (key new) rows
      then update_where (\<lambda>r. key r = key new) (merge new) rows
      else rows @ [new])"

definition insert_or_ignore :: "('r \<Rightarrow> 'k) \<Rightarrow> 'r \<Rightarrow> 'r list \<Rightarrow> 'r list" where
  "insert_or_ignore key new rows = (if has_key key (key new) rows then rows else rows @ [new])"

definition order_by :: "('r \<Rightarrow> 'o::linorder) \<Rightarrow> 'r list \<Rightarrow> 'r list" where
  "order_by f rows = sort_key f rows"

definition limit_rows :: "int \<Rightarrow> 'r list \<Rightarrow> 'r list" where
  "limit_rows n rows = (if n < 0 then rows else take (nat n) rows)"

definition keys_distinct :: "('r \<Rightarrow> 'k) \<Rightarrow> 'r list \<Rightarrow> bool" where
  "keys_distinct key rows \<longleftrightarrow> distinct (map key rows)"

lemma find_row_SomeD: "find_row key k rows = Some r \<Longrightarrow> r \<in> set rows \<and> key r = k"
  unfolding find_row_def by (drule find_SomeD)

lemma find_row_None_iff: "find_row key k rows = None \<longleftrightarrow> \<not> has_key key k rows"
  by (auto simp: find_row_def has_key_def find_None_iff)

lemma affected_key_0_iff: "affected (\<lambda>r. key r = k) rows = 0 \<longleftrightarrow> \<not> has_key key k rows"
  by (auto simp: affected_def has_key_def filter_empty_conv)

lemma find_row_unique:
  "keys_distinct key rows \<Longrightarrow> r \<in> set rows \<Longrightarrow> find_row key (key r) rows = Some r"
  by (induction rows) (auto simp: find_row_def keys_distinct_def image_iff)

lemma find_row_Nil [simp]: "find_row key k [] = None"
  by (simp add: find_row_def)

lemma find_row_append:
  "find_row key k (xs @ ys) =
     (case find_row key k xs of Some r \<Rightarrow> Some r | None \<Rightarrow> find_row key k ys)"
  unfolding find_row_def by (rule find_append)

lemma find_row_single [simp]: "find_row key k [r] = (if key r = k then Some r else None)"
  by (simp add: find_row_def)

lemma find_row_update_where:
  assumes "\<And>r. p r \<Longrightarrow> key (f r) = key r"
  shows "find_row key k (update_where p f rows) =
           map_option (\<lambda>r. if p r then f r else r) (find_row key k rows)"
  using assms by (induction rows) (auto simp: find_row_def update_where_def)

lemma filter_update_where:
  "(\<And>r. p r \<Longrightarrow> \<not> p (f r)) \<Longrightarrow> filter p (update_where p f rows) = []"
  by (induction rows) (simp_all add: update_where_def)

lemma update_where_none: "filter p rows = [] \<Longrightarrow> update_where p f rows = rows"
  by (induction rows) (auto simp: update_where_def split: if_splits)

lemma update_where_other: "r \<in> set rows \<Longrightarrow> \<not> p r \<Longrightarrow> r \<in> set (update_where p f rows)"
  by (force simp: update_where_def)

lemma update_where_hit: "r \<in> set rows \<Longrightarrow> p r \<Longrightarrow> f r \<in> set (update_where p f rows)"
  by (force simp: update_where_def)

lemma find_row_delete_key:
  "find_row key k (delete_where (\<lambda>r. key r = k') rows) = (if k = k' then None else find_row key k rows)"
  by (induction rows) (auto simp: find_row_def delete_where_def)

lemma find_row_delete_other:
  assumes "\<And>r. key r = k \<Longrightarrow> \<not> p r"
  shows "find_row key k (delete_where p rows) = find_row key k rows"
  using assms by (induction rows) (auto simp: find_row_def delete_where_def)

lemma set_delete_where [simp]: "set (delete_where p rows) = {r \<in> set rows. \<not> p r}"
  by (auto simp: delete_where_def)

lemma set_order_by [simp]: "set (order_by f rows) = set rows"
  by (simp add: order_by_def)

lemma sorted_order_by: "sorted (map f (order_by f rows))"
  by (simp add: order_by_def)

lemma set_limit_rows: "set (limit_rows n rows) \<subseteq> set rows"
  by (auto simp: limit_rows_def dest: in_set_takeD)

lemma length_limit_rows: "0 \<le> n \<Longrightarrow> length (limit_rows n rows) = min (nat n) (length rows)"
  by (simp add: limit_rows_def min.commute)

lemma sorted_limit_rows: "sorted (map f rows) \<Longrightarrow> sorted (map f (limit_rows n rows))"
  by (simp add: limit_rows_def sorted_wrt_take flip: take_map)

lemma keys_distinct_update_where:
  assumes "\<And>r. p r \<Longrightarrow> key (f r) = key r"
  shows "keys_distinct key (update_where p f rows) = keys_distinct key rows"
proof -
  have "map key (update_where p f rows) = map key rows"
    using assms by (simp add: update_where_def)
  then show ?thesis
    by (simp add: keys_distinct_def)
qed

lemma keys_distinct_delete: "keys_distinct key rows \<Longrightarrow> keys_distinct key (delete_where p rows)"
  by (simp add: keys_distinct_def delete_where_def distinct_map_filter)

lemma keys_distinct_insert_or_ignore:
  "keys_distinct key rows \<Longrightarrow> keys_distinct key (insert_or_ignore key new rows)"
  by (auto simp: keys_distinct_def insert_or_ignore_def has_key_def)

lemma find_row_insert_or_ignore:
  "find_row key k (insert_or_ignore key new rows) =
     (case find_row key k rows of
        Some r \<Rightarrow> Some r
      | None \<Rightarrow> if k = key new then Some new else None)"
  using find_row_None_iff [of key "key new" rows]
  by (auto simp: insert_or_ignore_def find_row_append split: option.splits)

section \<open>The contract of a table with a primary key\<close>

text \<open>
  The client names the primary key and what \<open>DO UPDATE SET\<close> does to the row in place; the
  contract is that it does not touch the key.
\<close>

locale row_store =
  fixes key :: "'r \<Rightarrow> 'k"
    and merge :: "'r \<Rightarrow> 'r \<Rightarrow> 'r"
  assumes key_merge: "key new = key old \<Longrightarrow> key (merge new old) = key old"
begin

lemma find_upsert:
  "find_row key k (upsert key merge new rows) =
     (if k = key new
      then Some (case find_row key k rows of None \<Rightarrow> new | Some old \<Rightarrow> merge new old)
      else find_row key k rows)"
proof (cases "has_key key (key new) rows")
  case True
  then obtain old where "find_row key (key new) rows = Some old"
    using find_row_None_iff by fastforce
  moreover have "find_row key k (update_where (\<lambda>r. key r = key new) (merge new) rows) =
      map_option (\<lambda>r. if key r = key new then merge new r else r) (find_row key k rows)"
    by (rule find_row_update_where) (simp add: key_merge)
  ultimately show ?thesis
    using True find_row_SomeD [of key k rows]
    by (cases "find_row key k rows") (auto simp: upsert_def)
next
  case False
  then have "find_row key (key new) rows = None"
    by (simp add: find_row_None_iff)
  with False show ?thesis
    by (auto simp: upsert_def find_row_append split: option.splits)
qed

lemma find_upsert_same:
  "find_row key (key new) (upsert key merge new rows) =
     Some (case find_row key (key new) rows of None \<Rightarrow> new | Some old \<Rightarrow> merge new old)"
  by (simp add: find_upsert)

lemma find_upsert_other:
  "k \<noteq> key new \<Longrightarrow> find_row key k (upsert key merge new rows) = find_row key k rows"
  by (simp add: find_upsert)

lemma keys_distinct_upsert:
  assumes "keys_distinct key rows"
  shows "keys_distinct key (upsert key merge new rows)"
proof (cases "has_key key (key new) rows")
  case True
  have "keys_distinct key (update_where (\<lambda>r. key r = key new) (merge new) rows) = keys_distinct key rows"
    by (rule keys_distinct_update_where) (simp add: key_merge)
  with True assms show ?thesis
    by (simp add: upsert_def)
next
  case False
  then show ?thesis
    using assms by (auto simp: upsert_def keys_distinct_def has_key_def)
qed

lemma has_key_upsert: "has_key key k (upsert key merge new rows) \<longleftrightarrow> k = key new \<or> has_key key k rows"
  using find_upsert [of k new rows] find_row_None_iff [of key k rows]
    find_row_None_iff [of key k "upsert key merge new rows"]
  by (cases "k = key new") auto

lemma upsert_other_rows:
  "r \<in> set rows \<Longrightarrow> key r \<noteq> key new \<Longrightarrow> r \<in> set (upsert key merge new rows)"
  by (auto simp: upsert_def update_where_def image_iff intro!: bexI [of _ r])

end

section \<open>Acting on a part of the state\<close>

text \<open>
  The storage layer runs on the database, which is a part of the application's state, and
  draws on the operating system's entropy, which is a part of the database's environment.
\<close>

definition zoom :: "('s \<Rightarrow> 't) \<Rightarrow> ('t \<Rightarrow> 's \<Rightarrow> 's) \<Rightarrow> ('t, 'e, 'a) act \<Rightarrow> ('s, 'e, 'a) act" where
  "zoom get put m s = (case m (get s) of (r, t) \<Rightarrow> (r, put t s))"

lemma zoom_result: "fst (zoom get put m s) = fst (m (get s))"
  by (simp add: zoom_def split: prod.splits)

locale substate =
  fixes get :: "'s \<Rightarrow> 't"
    and put :: "'t \<Rightarrow> 's \<Rightarrow> 's"
  assumes get_put: "get (put t s) = t"
    and put_get: "put (get s) s = s"
    and put_put: "put t (put u s) = put t s"
begin

lemma zoom_state: "snd (zoom get put m s) = put (snd (m (get s))) s"
  by (simp add: zoom_def split: prod.splits)

lemma get_zoom: "get (snd (zoom get put m s)) = snd (m (get s))"
  by (simp add: zoom_state get_put)

lemma keeps_zoom: "keeps P m \<Longrightarrow> keeps (\<lambda>s. P (get s)) (zoom get put m)"
  by (simp add: keeps_def get_zoom)

lemma zoom_unchanged: "snd (m (get s)) = get s \<Longrightarrow> snd (zoom get put m s) = s"
  by (simp add: zoom_state put_get)

lemma zoom_ret: "zoom get put (ret x) = ret x"
  by (rule ext) (simp add: zoom_def put_get)

lemma zoom_andThen:
  "zoom get put (andThen m f) = andThen (zoom get put m) (\<lambda>x. zoom get put (f x))"
  by (rule ext) (simp add: zoom_def andThen_def get_put put_put split: prod.splits sum.splits)

end

end
