(* ===== verification/Db.thy ===== *)
theory Db
  imports Messaging Tables
begin

text \<open>
  The database handle (\<open>y7ke-storage/src/db.rs\<close>, \<open>dek.rs\<close>, \<open>field_crypto.rs\<close>) over the schema of
  the migrations: each table is a list of raw rows in rowid order, as SQLite stores them, before
  any decoding. Which statements fail, and with what text, is part of the state
  (\<open>db_fault\<close>, by the label the source puts in front of the error).
\<close>

section \<open>Rows of the schema\<close>

record user_row =
  ur_y7_id :: string
  ur_pub :: bytes
  ur_priv_enc :: bytes
  ur_priv_nonce :: bytes
  ur_created_at :: int

record contact_row =
  cr_y7_id :: string
  cr_pub :: bytes
  cr_nickname :: "string option"
  cr_added_at :: int
  cr_status :: string

record request_row =
  rr_id :: int
  rr_direction :: string
  rr_peer :: string
  rr_text_enc :: "bytes option"
  rr_text_nonce :: "bytes option"
  rr_created_at :: int
  rr_resolved_at :: "int option"
  rr_resolution :: "string option"

record message_row =
  mr_id :: bytes
  mr_conv :: bytes
  mr_sender :: bytes
  mr_recipient :: bytes
  mr_timestamp :: int
  mr_status :: int
  mr_payload :: bytes
  mr_nonce :: bytes
  mr_sig :: bytes
  mr_inserted_at :: int

record session_row =
  sr_peer :: string
  sr_established_at :: int
  sr_last_used_at :: int

record queue_row =
  qr_message :: bytes
  qr_target :: string
  qr_attempts :: int
  qr_next_retry_at :: int

record peer_state_row =
  pr_peer :: string
  pr_addrs_json :: "string option"
  pr_last_seen_at :: "int option"
  pr_highest_seen :: "bytes option"
  pr_highest_sent :: "bytes option"

record delete_row =
  dr_peer :: string
  dr_envelope :: bytes
  dr_attempts :: int
  dr_next_retry_at :: int

record tables =
  t_users :: "user_row list"
  t_contacts :: "contact_row list"
  t_requests :: "request_row list"
  t_requests_seq :: int
  t_messages :: "message_row list"
  t_sessions :: "session_row list"
  t_queue :: "queue_row list"
  t_peer_state :: "peer_state_row list"
  t_settings :: "string option"
  t_deletes :: "delete_row list"

record db =
  db_tables :: tables
  db_dek :: symmetric_key
  db_os :: os
  db_fault :: "string \<Rightarrow> string option"

text \<open>Tables without rows, and a database that holds them, for the concrete instances.\<close>

definition empty_tables :: tables where
  "empty_tables =
     \<lparr>t_users = [], t_contacts = [], t_requests = [], t_requests_seq = 0, t_messages = [],
      t_sessions = [], t_queue = [], t_peer_state = [], t_settings = None, t_deletes = []\<rparr>"

definition sample_db :: db where
  "sample_db =
     \<lparr>db_tables = empty_tables, db_dek = SymmetricKey (replicate 32 7), db_os = sample_os,
      db_fault = (\<lambda>_. None)\<rparr>"

definition on_os :: "(os, 'a) action \<Rightarrow> (db, 'a) action" where
  "on_os = zoom db_os (\<lambda>w d. d\<lparr>db_os := w\<rparr>)"

interpretation os_in_db: substate db_os "\<lambda>w d. d\<lparr>db_os := w\<rparr>"
  by unfold_locales simp_all

section \<open>Statements\<close>

definition storage_error :: "string \<Rightarrow> string \<Rightarrow> app_error" where
  "storage_error label e = StorageErr (label @ '': '' @ e)"

text \<open>Run a statement: it fails as the environment says, or reads and writes the tables.\<close>

definition stmt :: "string \<Rightarrow> (tables \<Rightarrow> 'a \<times> tables) \<Rightarrow> (db, 'a) action" where
  "stmt label f d =
     (case db_fault d label of
        Some e \<Rightarrow> (Inl (storage_error label e), d)
      | None \<Rightarrow> (case f (db_tables d) of (x, t) \<Rightarrow> (Inr x, d\<lparr>db_tables := t\<rparr>)))"

text \<open>A statement that a constraint of the schema may refuse.\<close>

definition stmt_checked :: "string \<Rightarrow> (tables \<Rightarrow> string + tables) \<Rightarrow> (db, unit) action" where
  "stmt_checked label f d =
     (case db_fault d label of
        Some e \<Rightarrow> (Inl (storage_error label e), d)
      | None \<Rightarrow> (case f (db_tables d) of
                   Inl e \<Rightarrow> (Inl (storage_error label e), d)
                 | Inr t \<Rightarrow> (Inr (), d\<lparr>db_tables := t\<rparr>)))"

definition query :: "string \<Rightarrow> (tables \<Rightarrow> 'a) \<Rightarrow> (db, 'a) action" where
  "query label f = stmt label (\<lambda>t. (f t, t))"

definition execute :: "string \<Rightarrow> (tables \<Rightarrow> tables) \<Rightarrow> (db, unit) action" where
  "execute label f = stmt label (\<lambda>t. ((), f t))"

definition now_ms :: "(db, int) action" where
  "now_ms = asks (\<lambda>d. os_now (db_os d))"

lemma run_now_ms [simp]: "now_ms d = (Inr (os_now (db_os d)), d)"
  by (simp add: now_ms_def)

lemma query_Inl: "db_fault d l = Some e \<Longrightarrow> query l f d = (Inl (storage_error l e), d)"
  by (simp add: query_def stmt_def)

lemma query_Inr: "db_fault d l = None \<Longrightarrow> query l f d = (Inr (f (db_tables d)), d)"
  by (simp add: query_def stmt_def)

lemma query_state [simp]: "snd (query l f d) = d"
  by (simp add: query_def stmt_def split: option.splits)

lemma pure_query: "pure_act (query l f)"
  by (simp add: pure_act_def)

lemma execute_Inl: "db_fault d l = Some e \<Longrightarrow> execute l f d = (Inl (storage_error l e), d)"
  by (simp add: execute_def stmt_def)

lemma execute_Inr:
  "db_fault d l = None \<Longrightarrow> execute l f d = (Inr (), d\<lparr>db_tables := f (db_tables d)\<rparr>)"
  by (simp add: execute_def stmt_def)

text \<open>What holds of the tables through a statement holds through the action.\<close>

lemma keeps_execute [keeps_intros]:
  "(\<And>d. P d \<Longrightarrow> P (d\<lparr>db_tables := f (db_tables d)\<rparr>)) \<Longrightarrow> keeps P (execute l f)"
  by (auto simp: keeps_def execute_def stmt_def split: option.splits)

lemma keeps_query [keeps_intros]: "keeps P (query l f)"
  by (simp add: keeps_def)

lemma keeps_now_ms [keeps_intros]: "keeps P now_ms"
  by (simp add: keeps_def)

lemma keeps_on_os [keeps_intros]:
  "(\<And>d os. P d \<Longrightarrow> P (d\<lparr>db_os := os\<rparr>)) \<Longrightarrow> keeps P (on_os m)"
  by (simp add: keeps_def on_os_def os_in_db.zoom_state)

section \<open>Field encryption (\<open>field_crypto.rs\<close>)\<close>

definition field_seal :: "ext \<Rightarrow> symmetric_key \<Rightarrow> bytes \<Rightarrow> bytes \<Rightarrow> (os, bytes \<times> bytes) action" where
  "field_seal E dek plaintext aad = key_seal E dek plaintext aad"

definition field_open :: "ext \<Rightarrow> symmetric_key \<Rightarrow> bytes \<Rightarrow> bytes \<Rightarrow> bytes \<Rightarrow> bytes res" where
  "field_open E dek nonce ciphertext aad =
     (if length nonce \<noteq> 12
      then Inl (StorageErr (''field nonce must be 12 bytes, got '' @ show_nat (length nonce)))
      else key_open E dek nonce ciphertext aad)"

lemma field_open_sealed:
  assumes "aead_law E" "rng_law E" "field_seal E k p a s = (Inr (c, n), s')"
  shows "field_open E k n c a = Inr p"
proof -
  have "length n = 12"
    using assms by (simp add: field_seal_def key_seal_Inr rng_law_def nonce_len_def)
  with assms show ?thesis
    by (simp add: field_open_def field_seal_def key_open_sealed)
qed

section \<open>The data-encryption key (\<open>dek.rs\<close>)\<close>

text \<open>
  A path is the list of its components. The file system is a map from paths to contents, with
  the operations that fail (\<open>fs_error\<close>, by operation) and the permissions that were set.
\<close>

record fs =
  fs_files :: "string list \<Rightarrow> bytes option"
  fs_dirs :: "string list set"
  fs_mode :: "string list \<Rightarrow> nat"
  fs_error :: "string \<Rightarrow> string option"
  fs_os :: os

datatype dek_error = DekIo string | InvalidSize nat | NoParent "string list"

definition show_path :: "string list \<Rightarrow> string" where
  "show_path p = concat (map (\<lambda>c. ''/'' @ c) p)"

fun show_dek_error :: "dek_error \<Rightarrow> string" where
  "show_dek_error (DekIo e) = ''io: '' @ e"
| "show_dek_error (InvalidSize n) =
     ''dek file has unexpected size '' @ show_nat n @ '' (expected 32)''"
| "show_dek_error (NoParent p) = ''dek file path has no parent: '' @ show_path p"

definition fs_op :: "string \<Rightarrow> (fs \<Rightarrow> 'a \<times> fs) \<Rightarrow> (fs, dek_error, 'a) act" where
  "fs_op label f s =
     (case fs_error s label of
        Some e \<Rightarrow> (Inl (DekIo e), s)
      | None \<Rightarrow> (case f s of (x, s') \<Rightarrow> (Inr x, s')))"

definition write_file_private :: "string list \<Rightarrow> bytes \<Rightarrow> (fs, dek_error, unit) act" where
  "write_file_private path bs s =
     (if fs_files s path \<noteq> None then (Inl (DekIo ''File exists (os error 17)''), s)
      else fs_op ''write'' (\<lambda>s. ((), s\<lparr>fs_files := (fs_files s)(path \<mapsto> bs),
                                      fs_mode := (fs_mode s)(path := 384)\<rparr>)) s)"

definition restrict_dir_perms :: "string list \<Rightarrow> (fs, dek_error, unit) act" where
  "restrict_dir_perms dir = fs_op ''chmod'' (\<lambda>s. ((), s\<lparr>fs_mode := (fs_mode s)(dir := 448)\<rparr>))"

definition create_dir_all :: "string list \<Rightarrow> (fs, dek_error, unit) act" where
  "create_dir_all dir =
     fs_op ''create_dir_all''
       (\<lambda>s. ((), s\<lparr>fs_dirs := fs_dirs s \<union> (\<lambda>n. take n dir) ` {0..length dir}\<rparr>))"

definition load_or_create :: "ext \<Rightarrow> string list \<Rightarrow> (fs, dek_error, symmetric_key) act" where
  "load_or_create E path =
     andThen (asks (\<lambda>s. fs_files s path)) (\<lambda>existing.
       case existing of
         Some content \<Rightarrow>
           andThen (fs_op ''read'' (\<lambda>s. (content, s))) (\<lambda>bs.
             if length bs \<noteq> 32 then throw (InvalidSize (length bs))
             else ret (SymmetricKey bs))
       | None \<Rightarrow>
           if path = [] then throw (NoParent path)
           else
             seqA (create_dir_all (butlast path))
               (seqA (restrict_dir_perms (butlast path))
                  (andThen
                     (\<lambda>s. (Inr (rng_bytes E (os_draws (fs_os s)) 32),
                           s\<lparr>fs_os := (fs_os s)\<lparr>os_draws := os_draws (fs_os s) + 1\<rparr>\<rparr>))
                     (\<lambda>key. seqA (write_file_private path key) (ret (SymmetricKey key))))))"

text \<open>
  C28. The data-encryption key is stable: once \<open>load_or_create\<close> has returned a key, a later call
  returns the same key and writes nothing; and whatever the outcome, an existing file (of any
  size) and the rest of the file system are left alone.
\<close>

theorem load_or_create_stable:
  assumes "rng_law E" "load_or_create E path s = (r, s')"
  shows "(r = Inr k \<longrightarrow> fs_error s' ''read'' = None \<longrightarrow> load_or_create E path s' = (Inr k, s')) \<and>
         (fs_files s path \<noteq> None \<longrightarrow> s' = s)"
  using assms
  by (auto simp: load_or_create_def fs_op_def write_file_private_def restrict_dir_perms_def
      create_dir_all_def action_simps rng_law_def split: option.splits if_splits)

definition sample_fs :: fs where
  "sample_fs = \<lparr>fs_files = Map.empty, fs_dirs = {}, fs_mode = (\<lambda>_. 420),
     fs_error = (\<lambda>_. None), fs_os = \<lparr>os_now = 0, os_instant = 0, os_draws = 0\<rparr>\<rparr>"

theorem load_or_create_stable_witness:
  "\<exists>k s'. load_or_create sample_ext [''y7ke'', ''master.dek''] sample_fs = (Inr k, s') \<and>
      fs_files s' [''y7ke'', ''master.dek''] = Some (key_bytes k) \<and>
      load_or_create sample_ext [''y7ke'', ''master.dek''] s' = (Inr k, s')"
proof -
  have r: "rng_law sample_ext"
    by (simp add: ext_lawsD [OF sample_ext_laws])
  let ?k = "SymmetricKey (rng_bytes sample_ext 0 32)"
  obtain s' where l: "load_or_create sample_ext [''y7ke'', ''master.dek''] sample_fs = (Inr ?k, s')"
    and f: "fs_error s' = (\<lambda>_. None)" "fs_files s' [''y7ke'', ''master.dek''] = Some (key_bytes ?k)"
    by (simp add: load_or_create_def fs_op_def write_file_private_def restrict_dir_perms_def
      create_dir_all_def action_simps sample_fs_def)
  show ?thesis
    using load_or_create_stable [OF r l, of ?k] l f by auto
qed

section \<open>Opening (\<open>db.rs\<close>)\<close>

record db_config =
  cfg_db_path :: "string list"
  cfg_dek_path :: "string list"

definition in_dir :: "string list \<Rightarrow> db_config" where
  "in_dir dir = \<lparr>cfg_db_path = dir @ [''y7ke.db''], cfg_dek_path = dir @ [''master.dek'']\<rparr>"

text \<open>The environment's override, or the platform's data directory if it has one.\<close>

definition default_for_app :: "string list option \<Rightarrow> string list option \<Rightarrow> db_config res" where
  "default_for_app y7ke_data_dir project_data_dir =
     (case y7ke_data_dir of
        Some custom \<Rightarrow> Inr (in_dir custom)
      | None \<Rightarrow>
          (case project_data_dir of
             None \<Rightarrow> Inl (StorageErr ''could not resolve app data directory'')
           | Some dir \<Rightarrow> Inr (in_dir dir)))"

definition map_dek :: "string \<Rightarrow> (dek_error \<Rightarrow> string) \<Rightarrow> (fs, dek_error, 'a) act \<Rightarrow> (fs, 'a) action" where
  "map_dek what f m s =
     (case m s of
        (Inl e, s') \<Rightarrow> (Inl (StorageErr (what @ f e)), s')
      | (Inr x, s') \<Rightarrow> (Inr x, s'))"

fun dek_io_text :: "dek_error \<Rightarrow> string" where
  "dek_io_text (DekIo e) = e"
| "dek_io_text e = show_dek_error e"

definition io_step :: "string \<Rightarrow> string \<Rightarrow> (fs, unit) action" where
  "io_step label what = map_dek what dek_io_text (fs_op label (\<lambda>s. ((), s)))"

text \<open>
  The connection pool and the migrations are \<open>sqlx\<close>: they fail with the environment's text, or
  yield the tables that the file holds once migrated (\<open>disk\<close>).
\<close>

definition db_open :: "ext \<Rightarrow> db_config \<Rightarrow> tables \<Rightarrow> (string \<Rightarrow> string option) \<Rightarrow> (fs, db) action" where
  "db_open E cfg disk fault =
     seqA
       (if cfg_db_path cfg = [] then ret ()
        else map_dek ''create_dir_all: '' dek_io_text (create_dir_all (butlast (cfg_db_path cfg))))
       (andThen (map_dek ''load DEK: '' show_dek_error (load_or_create E (cfg_dek_path cfg))) (\<lambda>dek.
          seqA (io_step ''connect'' ''connect: '')
            (seqA (io_step ''migrate'' ''migrate: '')
               (andThen (asks fs_os) (\<lambda>w.
                  ret \<lparr>db_tables = disk, db_dek = dek, db_os = w, db_fault = fault\<rparr>)))))"

end
