(* ===== verification/Dao_Contacts.thy ===== *)
theory Dao_Contacts
  imports Db
begin

text \<open>The address book (\<open>dao/contacts.rs\<close>): one row per peer URI, status kept as text.\<close>

record contact =
  contact_id :: y7id
  contact_pub :: bytes
  contact_nickname :: "string option"
  contact_added_at :: int
  contact_state :: contact_status

record new_contact =
  nc_id :: y7id
  nc_pub :: bytes
  nc_nickname :: "string option"
  nc_status :: contact_status

definition contact_merge :: "contact_row \<Rightarrow> contact_row \<Rightarrow> contact_row" where
  "contact_merge new old =
     old\<lparr>cr_pub := cr_pub new, cr_nickname := cr_nickname new, cr_status := cr_status new\<rparr>"

definition contact_new_row :: "ext \<Rightarrow> int \<Rightarrow> new_contact \<Rightarrow> contact_row" where
  "contact_new_row E added_at c =
     \<lparr>cr_y7_id = to_uri E (nc_id c), cr_pub = nc_pub c, cr_nickname = nc_nickname c,
      cr_added_at = added_at, cr_status = contact_status_as_str (nc_status c)\<rparr>"

definition contacts_insert :: "ext \<Rightarrow> new_contact \<Rightarrow> (db, contact) action" where
  "contacts_insert E c =
     andThen now_ms (\<lambda>added_at.
       seqA
         (execute ''contacts.insert'' (\<lambda>t.
            t\<lparr>t_contacts := upsert cr_y7_id contact_merge (contact_new_row E added_at c) (t_contacts t)\<rparr>))
         (ret \<lparr>contact_id = nc_id c, contact_pub = nc_pub c, contact_nickname = nc_nickname c,
               contact_added_at = added_at, contact_state = nc_status c\<rparr>))"

definition contacts_update_status :: "ext \<Rightarrow> y7id \<Rightarrow> contact_status \<Rightarrow> (db, unit) action" where
  "contacts_update_status E y status =
     andThen
       (stmt ''contacts.update_status'' (\<lambda>t.
          (affected (\<lambda>r. cr_y7_id r = to_uri E y) (t_contacts t),
           t\<lparr>t_contacts := update_where (\<lambda>r. cr_y7_id r = to_uri E y)
               (\<lambda>r. r\<lparr>cr_status := contact_status_as_str status\<rparr>) (t_contacts t)\<rparr>)))
       (\<lambda>n. if n = 0 then throw NotFound else ret ())"

definition contact_parse_row :: "ext \<Rightarrow> contact_row \<Rightarrow> contact res" where
  "contact_parse_row E r =
     bindR (parse E (cr_y7_id r)) (\<lambda>y7.
     bindR (if length (cr_pub r) = 32 then Inr (cr_pub r)
            else Inl (StorageErr ''contacts.ed25519_pub: expected 32 bytes'')) (\<lambda>pub.
     bindR (contact_status_from_str (cr_status r)) (\<lambda>status.
       Inr \<lparr>contact_id = y7, contact_pub = pub, contact_nickname = cr_nickname r,
            contact_added_at = cr_added_at r, contact_state = status\<rparr>)))"

definition contacts_get :: "ext \<Rightarrow> y7id \<Rightarrow> (db, contact option) action" where
  "contacts_get E y =
     andThen (query ''contacts.get'' (\<lambda>t. find_row cr_y7_id (to_uri E y) (t_contacts t)))
       (\<lambda>row. lift_res (transposeR (contact_parse_row E) row))"

definition contacts_list :: "ext \<Rightarrow> (db, contact list) action" where
  "contacts_list E =
     andThen
       (query ''contacts.list''
          (\<lambda>t. order_by cr_added_at (filter (\<lambda>r. cr_status r \<noteq> ''removed'') (t_contacts t))))
       (\<lambda>rows. lift_res (traverseR (contact_parse_row E) rows))"

section \<open>Facts\<close>

lemma contact_new_row_key [simp]: "cr_y7_id (contact_new_row E t c) = to_uri E (nc_id c)"
  by (simp add: contact_new_row_def)

interpretation contact_rows: row_store cr_y7_id contact_merge
  by unfold_locales (simp add: contact_merge_def)

lemma contacts_get_state [simp]: "snd (contacts_get E y d) = d"
  by (simp add: contacts_get_def query_def stmt_def action_simps split: option.splits)

lemma pure_contacts_get: "pure_act (contacts_get E y)"
  by (simp add: pure_act_def)

lemma contacts_list_state [simp]: "snd (contacts_list E d) = d"
  by (simp add: contacts_list_def query_def stmt_def action_simps split: option.splits)

text \<open>A row of the address book is well formed when it decodes; every write keeps that.\<close>

definition contact_row_ok :: "ext \<Rightarrow> contact_row \<Rightarrow> bool" where
  "contact_row_ok E r \<longleftrightarrow>
     (\<exists>y s. y7id_ok y \<and> cr_y7_id r = to_uri E y \<and> length (cr_pub r) = 32 \<and>
            cr_status r = contact_status_as_str s)"

lemma contact_parse_ok:
  assumes "b58_law E" "y7id_ok y" "cr_y7_id r = to_uri E y" "length (cr_pub r) = 32"
    "cr_status r = contact_status_as_str s"
  shows "contact_parse_row E r = Inr \<lparr>contact_id = y, contact_pub = cr_pub r,
    contact_nickname = cr_nickname r, contact_added_at = cr_added_at r, contact_state = s\<rparr>"
  using assms parse_Inr_iff [of E "to_uri E y" y] by (simp add: contact_parse_row_def)

text \<open>What a lookup reports of a peer's status, over the raw rows.\<close>

definition status_of :: "ext \<Rightarrow> y7id \<Rightarrow> tables \<Rightarrow> contact_status option" where
  "status_of E y t =
     (case find_row cr_y7_id (to_uri E y) (t_contacts t) of
        None \<Rightarrow> None
      | Some r \<Rightarrow> res_opt (contact_status_from_str (cr_status r)))"

lemma contacts_get_Some:
  assumes "contacts_get E y d = (Inr (Some c), d')"
  shows "d' = d" "status_of E y (db_tables d) = Some (contact_state c)"
  using assms
  by (auto simp: contacts_get_def query_def stmt_def action_simps status_of_def transposeR_def
      contact_parse_row_def bindR_Inr_iff res_opt_def split: option.splits if_splits sum.splits)

lemma contacts_get_None:
  assumes "contacts_get E y d = (Inr None, d')"
  shows "d' = d" "status_of E y (db_tables d) = None"
  using assms
  by (auto simp: contacts_get_def query_def stmt_def action_simps status_of_def transposeR_def
      bindR_Inr_iff split: option.splits)

lemma contacts_insert_Inr:
  assumes "contacts_insert E c d = (Inr r, d')"
  shows "db_fault d ''contacts.insert'' = None"
    "d' = d\<lparr>db_tables := (db_tables d)\<lparr>t_contacts :=
       upsert cr_y7_id contact_merge (contact_new_row E (os_now (db_os d)) c)
         (t_contacts (db_tables d))\<rparr>\<rparr>"
  using assms
  by (auto simp: contacts_insert_def execute_def stmt_def action_simps split: option.splits)

lemma contacts_update_status_Inr:
  assumes "contacts_update_status E y s d = (Inr r, d')"
  shows "db_fault d ''contacts.update_status'' = None"
    "has_key cr_y7_id (to_uri E y) (t_contacts (db_tables d))"
    "d' = d\<lparr>db_tables := (db_tables d)\<lparr>t_contacts :=
       update_where (\<lambda>r. cr_y7_id r = to_uri E y)
         (\<lambda>r. r\<lparr>cr_status := contact_status_as_str s\<rparr>) (t_contacts (db_tables d))\<rparr>\<rparr>"
  using assms
  by (auto simp: contacts_update_status_def stmt_def action_simps affected_key_0_iff
      split: option.splits if_splits)

lemma status_of_insert:
  assumes "b58_law E" "y7id_ok y" "y7id_ok (nc_id c)"
    and "contacts_insert E c d = (Inr r, d')"
  shows "status_of E y (db_tables d') =
           (if y = nc_id c then Some (nc_status c) else status_of E y (db_tables d))"
  using contacts_insert_Inr [OF assms(4)] to_uri_inj [OF assms(1-3)]
  by (auto simp: status_of_def contact_rows.find_upsert contact_new_row_def contact_merge_def
      res_opt_def split: option.splits)

lemma status_of_update:
  assumes "b58_law E" "y7id_ok y" "y7id_ok z"
    and "contacts_update_status E z s d = (Inr r, d')"
  shows "status_of E y (db_tables d') =
           (if y = z then Some s else status_of E y (db_tables d))"
proof -
  let ?rows = "t_contacts (db_tables d)"
  note f = contacts_update_status_Inr [OF assms(4)]
  have "find_row cr_y7_id (to_uri E y) (t_contacts (db_tables d')) =
      map_option (\<lambda>r. if cr_y7_id r = to_uri E z then r\<lparr>cr_status := contact_status_as_str s\<rparr> else r)
        (find_row cr_y7_id (to_uri E y) ?rows)"
    by (simp add: f(3) find_row_update_where)
  moreover have "find_row cr_y7_id (to_uri E z) ?rows \<noteq> None"
    using f(2) by (simp add: find_row_None_iff)
  ultimately show ?thesis
    using find_row_SomeD [of cr_y7_id "to_uri E y" ?rows] to_uri_inj [OF assms(1-3)]
    by (auto simp: status_of_def res_opt_def split: option.splits)
qed

text \<open>
  The address book: after an insert the lookup returns exactly what was inserted, except
  that a contact that was there before keeps the time at which it was first added; every other
  contact is returned as before.
\<close>

theorem contacts_insert_get:
  assumes "b58_law E" "y7id_ok (nc_id c)" "length (nc_pub c) = 32"
    and "contacts_insert E c d = (Inr r, d')" "db_fault d ''contacts.get'' = None"
  shows "contacts_get E (nc_id c) d' =
      (Inr (Some (r\<lparr>contact_added_at :=
         (case find_row cr_y7_id (to_uri E (nc_id c)) (t_contacts (db_tables d)) of
            None \<Rightarrow> os_now (db_os d) | Some old \<Rightarrow> cr_added_at old)\<rparr>)), d') \<and>
    (\<forall>y. to_uri E y \<noteq> to_uri E (nc_id c) \<longrightarrow> fst (contacts_get E y d') = fst (contacts_get E y d))"
proof -
  note f = contacts_insert_Inr [OF assms(4)]
  have r: "r = \<lparr>contact_id = nc_id c, contact_pub = nc_pub c, contact_nickname = nc_nickname c,
      contact_added_at = os_now (db_os d), contact_state = nc_status c\<rparr>"
    using assms(4) by (auto simp: contacts_insert_def execute_def stmt_def action_simps
        split: option.splits)
  let ?old = "find_row cr_y7_id (to_uri E (nc_id c)) (t_contacts (db_tables d))"
  let ?row = "case ?old of None \<Rightarrow> contact_new_row E (os_now (db_os d)) c
    | Some old \<Rightarrow> contact_merge (contact_new_row E (os_now (db_os d)) c) old"
  have "find_row cr_y7_id (to_uri E (nc_id c)) (t_contacts (db_tables d')) = Some ?row"
    by (simp add: f(2) contact_rows.find_upsert)
  moreover have "contact_parse_row E ?row = Inr (r\<lparr>contact_added_at :=
      (case ?old of None \<Rightarrow> os_now (db_os d) | Some old \<Rightarrow> cr_added_at old)\<rparr>)"
    using find_row_SomeD [of cr_y7_id "to_uri E (nc_id c)"] assms(1-3) r
    by (subst contact_parse_ok [where y = "nc_id c" and s = "nc_status c"])
      (auto simp: contact_new_row_def contact_merge_def split: option.splits)
  ultimately have "contacts_get E (nc_id c) d' =
      (Inr (Some (r\<lparr>contact_added_at :=
         (case ?old of None \<Rightarrow> os_now (db_os d) | Some old \<Rightarrow> cr_added_at old)\<rparr>)), d')"
    using assms(5) f(2) by (simp add: contacts_get_def query_Inr action_simps transposeR_def)
  moreover have "fst (contacts_get E y d') = fst (contacts_get E y d)"
    if "to_uri E y \<noteq> to_uri E (nc_id c)" for y
    using that assms(5) f(2)
    by (simp add: contacts_get_def query_Inr action_simps contact_rows.find_upsert
        contact_new_row_def)
  ultimately show ?thesis
    by blast
qed

definition sample_contact :: new_contact where
  "sample_contact = \<lparr>nc_id = Y7Id (public_of sample_ext bob), nc_pub = public_of sample_ext bob,
     nc_nickname = Some ''bob'', nc_status = PendingOut\<rparr>"

theorem contacts_insert_get_witness:
  "\<exists>r d'. contacts_insert sample_ext sample_contact sample_db = (Inr r, d') \<and>
     contacts_get sample_ext (Y7Id (public_of sample_ext bob)) d' = (Inr (Some r), d')"
proof -
  obtain r d' where i: "contacts_insert sample_ext sample_contact sample_db = (Inr r, d')"
    by (simp add: contacts_insert_def execute_def stmt_def action_simps sample_db_def)
  have "length (public_of sample_ext bob) = 32"
    by (simp add: length_public_of ext_lawsD sample_ext_laws alice_bob_ok)
  then show ?thesis
    using contacts_insert_get [OF sample_b58 _ _ i] i
    by (auto simp: sample_contact_def y7id_ok_def sample_db_def empty_tables_def contacts_insert_def
        execute_def stmt_def action_simps)
qed

end
