(* ===== verification/Dao_Messages.thy ===== *)
theory Dao_Messages
  imports Db
begin

text \<open>
  The message store (\<open>dao/messages.rs\<close>): insertion that ignores a message id already present,
  status updates, the pages that synchronisation reads and the promotion of sent rows to
  \<open>Synced\<close>. Message ids compare as byte strings, as SQLite compares blobs.
\<close>

record message =
  msg_id :: message_id
  msg_conv :: conversation_id
  msg_sender :: bytes
  msg_recipient :: bytes
  msg_timestamp :: int
  msg_status :: message_status
  msg_payload :: bytes
  msg_nonce :: bytes
  msg_sig :: bytes
  msg_inserted_at :: int

record new_message =
  nm_id :: message_id
  nm_conv :: conversation_id
  nm_sender :: bytes
  nm_recipient :: bytes
  nm_timestamp :: int
  nm_status :: message_status
  nm_payload :: bytes
  nm_nonce :: bytes
  nm_sig :: bytes

definition message_new_row :: "int \<Rightarrow> new_message \<Rightarrow> message_row" where
  "message_new_row inserted_at m =
     \<lparr>mr_id = mid_bytes (nm_id m), mr_conv = conv_bytes (nm_conv m), mr_sender = nm_sender m,
      mr_recipient = nm_recipient m, mr_timestamp = nm_timestamp m,
      mr_status = message_status_as_i64 (nm_status m), mr_payload = nm_payload m,
      mr_nonce = nm_nonce m, mr_sig = nm_sig m, mr_inserted_at = inserted_at\<rparr>"

definition messages_insert :: "new_message \<Rightarrow> (db, bool) action" where
  "messages_insert m =
     andThen now_ms (\<lambda>now.
       stmt ''messages.insert'' (\<lambda>t.
         (\<not> has_key mr_id (mid_bytes (nm_id m)) (t_messages t),
          t\<lparr>t_messages := insert_or_ignore mr_id (message_new_row now m) (t_messages t)\<rparr>)))"

definition messages_update_status :: "message_id \<Rightarrow> message_status \<Rightarrow> (db, unit) action" where
  "messages_update_status i status =
     execute ''messages.update_status'' (\<lambda>t.
       t\<lparr>t_messages := update_where (\<lambda>r. mr_id r = mid_bytes i)
           (\<lambda>r. r\<lparr>mr_status := message_status_as_i64 status\<rparr>) (t_messages t)\<rparr>)"

definition try_bytes :: "nat \<Rightarrow> string \<Rightarrow> bytes \<Rightarrow> bytes res" where
  "try_bytes n what bs =
     (if length bs = n then Inr bs
      else Inl (StorageErr (what @ '': expected '' @ show_nat n @ '' bytes'')))"

definition try_msg_id :: "bytes \<Rightarrow> message_id res" where
  "try_msg_id b = bindR (try_bytes 16 ''messages.message_id'' b) (\<lambda>bs. Inr (MessageId bs))"

definition try_conv_id :: "bytes \<Rightarrow> conversation_id res" where
  "try_conv_id b = bindR (try_bytes 16 ''messages.conversation_id'' b) (\<lambda>bs. Inr (ConversationId bs))"

definition try_pubkey :: "bytes \<Rightarrow> string \<Rightarrow> bytes res" where
  "try_pubkey b ctx = try_bytes 32 ctx b"

definition try_nonce :: "bytes \<Rightarrow> bytes res" where
  "try_nonce b = try_bytes 12 ''messages.payload_nonce'' b"

definition try_sig :: "bytes \<Rightarrow> bytes res" where
  "try_sig b = try_bytes 64 ''messages.sig'' b"

definition message_decode :: "message_row \<Rightarrow> message res" where
  "message_decode r =
     bindR (try_msg_id (mr_id r)) (\<lambda>i.
     bindR (try_conv_id (mr_conv r)) (\<lambda>c.
     bindR (try_pubkey (mr_sender r) ''messages.sender_pub'') (\<lambda>snd_pub.
     bindR (try_pubkey (mr_recipient r) ''messages.recipient_pub'') (\<lambda>rcp_pub.
     bindR (case message_status_from_i64 (mr_status r) of
              None \<Rightarrow> Inl (StorageErr (''messages.status: invalid '' @ show_int (mr_status r)))
            | Some s \<Rightarrow> Inr s) (\<lambda>status.
     bindR (try_nonce (mr_nonce r)) (\<lambda>nonce.
     bindR (try_sig (mr_sig r)) (\<lambda>sig.
       Inr \<lparr>msg_id = i, msg_conv = c, msg_sender = snd_pub, msg_recipient = rcp_pub,
            msg_timestamp = mr_timestamp r, msg_status = status, msg_payload = mr_payload r,
            msg_nonce = nonce, msg_sig = sig, msg_inserted_at = mr_inserted_at r\<rparr>)))))))"

definition messages_get :: "message_id \<Rightarrow> (db, message option) action" where
  "messages_get i =
     andThen (query ''messages.get'' (\<lambda>t. find_row mr_id (mid_bytes i) (t_messages t)))
       (\<lambda>row. lift_res (transposeR message_decode row))"

definition messages_list_for_conversation :: "conversation_id \<Rightarrow> int \<Rightarrow> (db, message list) action" where
  "messages_list_for_conversation conv limit =
     andThen
       (query ''messages.list'' (\<lambda>t.
          limit_rows limit (order_by mr_timestamp
            (filter (\<lambda>r. mr_conv r = conv_bytes conv) (t_messages t)))))
       (\<lambda>rows. lift_res (traverseR message_decode rows))"

text \<open>\<open>ORDER BY message_id DESC LIMIT 1\<close>.\<close>

definition highest_id :: "message_row list \<Rightarrow> bytes option" where
  "highest_id rows = (case rev (order_by mr_id rows) of [] \<Rightarrow> None | r # _ \<Rightarrow> Some (mr_id r))"

definition messages_highest_inbound :: "conversation_id \<Rightarrow> bytes \<Rightarrow> (db, message_id option) action" where
  "messages_highest_inbound conv recipient_pub =
     andThen
       (query ''messages.highest_inbound'' (\<lambda>t.
          highest_id (filter (\<lambda>r. mr_conv r = conv_bytes conv \<and> mr_recipient r = recipient_pub)
            (t_messages t))))
       (\<lambda>row. lift_res (transposeR try_msg_id row))"

definition messages_highest_outbound :: "conversation_id \<Rightarrow> bytes \<Rightarrow> (db, message_id option) action" where
  "messages_highest_outbound conv sender_pub =
     andThen
       (query ''messages.highest_outbound'' (\<lambda>t.
          highest_id (filter (\<lambda>r. mr_conv r = conv_bytes conv \<and> mr_sender r = sender_pub)
            (t_messages t))))
       (\<lambda>row. lift_res (transposeR try_msg_id row))"

definition messages_pull_outbound_after ::
  "conversation_id \<Rightarrow> bytes \<Rightarrow> message_id option \<Rightarrow> int \<Rightarrow> (db, message list) action" where
  "messages_pull_outbound_after conv sender_pub since limit =
     andThen
       (query ''messages.pull_outbound_after'' (\<lambda>t.
          case since of
            Some s \<Rightarrow>
              limit_rows limit (order_by mr_id
                (filter (\<lambda>r. mr_conv r = conv_bytes conv \<and> mr_sender r = sender_pub \<and>
                             mid_bytes s < mr_id r) (t_messages t)))
          | None \<Rightarrow>
              limit_rows limit (order_by mr_id
                (filter (\<lambda>r. mr_conv r = conv_bytes conv \<and> mr_sender r = sender_pub) (t_messages t)))))
       (\<lambda>rows. lift_res (traverseR message_decode rows))"

definition promotable :: "conversation_id \<Rightarrow> bytes \<Rightarrow> message_id \<Rightarrow> message_row \<Rightarrow> bool" where
  "promotable conv sender_pub hi r \<longleftrightarrow>
     mr_conv r = conv_bytes conv \<and> mr_sender r = sender_pub \<and>
     mr_id r \<le> mid_bytes hi \<and> mr_status r < message_status_as_i64 Synced"

definition messages_promote_outbound_synced ::
  "conversation_id \<Rightarrow> bytes \<Rightarrow> message_id \<Rightarrow> (db, message_id list) action" where
  "messages_promote_outbound_synced conv sender_pub hi =
     andThen
       (stmt ''messages.promote_outbound_synced'' (\<lambda>t.
          (map mr_id (filter (promotable conv sender_pub hi) (t_messages t)),
           t\<lparr>t_messages := update_where (promotable conv sender_pub hi)
               (\<lambda>r. r\<lparr>mr_status := message_status_as_i64 Synced\<rparr>) (t_messages t)\<rparr>)))
       (\<lambda>ids. lift_res (traverseR try_msg_id ids))"

section \<open>Facts\<close>

lemma messages_insert_Inr:
  assumes "messages_insert m d = (Inr b, d')"
  shows "db_fault d ''messages.insert'' = None"
    "b \<longleftrightarrow> \<not> has_key mr_id (mid_bytes (nm_id m)) (t_messages (db_tables d))"
    "d' = d\<lparr>db_tables := (db_tables d)\<lparr>t_messages :=
       insert_or_ignore mr_id (message_new_row (os_now (db_os d)) m) (t_messages (db_tables d))\<rparr>\<rparr>"
  using assms by (auto simp: messages_insert_def stmt_def action_simps split: option.splits)

lemma messages_insert_state:
  "snd (messages_insert m d) =
     (if db_fault d ''messages.insert'' = None
      then d\<lparr>db_tables := (db_tables d)\<lparr>t_messages :=
             insert_or_ignore mr_id (message_new_row (os_now (db_os d)) m) (t_messages (db_tables d))\<rparr>\<rparr>
      else d)"
  by (auto simp: messages_insert_def stmt_def action_simps split: option.splits)

lemma message_new_row_key [simp]: "mr_id (message_new_row now m) = mid_bytes (nm_id m)"
  by (simp add: message_new_row_def)

lemma messages_get_state [simp]: "snd (messages_get i d) = d"
  by (simp add: messages_get_def query_def stmt_def action_simps split: option.splits)

lemma messages_list_state [simp]: "snd (messages_list_for_conversation c n d) = d"
  by (simp add: messages_list_for_conversation_def query_def stmt_def action_simps
      split: option.splits)

lemma messages_pull_state [simp]: "snd (messages_pull_outbound_after c k s n d) = d"
  by (simp add: messages_pull_outbound_after_def query_def stmt_def action_simps
      split: option.splits)

lemma messages_highest_state [simp]:
  "snd (messages_highest_inbound c k d) = d" "snd (messages_highest_outbound c k d) = d"
  by (simp_all add: messages_highest_inbound_def messages_highest_outbound_def query_def stmt_def
      action_simps split: option.splits)

text \<open>Decoding reads back every field of a well-formed row.\<close>

lemma message_decode_Inr_iff:
  "message_decode r = Inr m \<longleftrightarrow>
     mr_id r = mid_bytes (msg_id m) \<and> length (mr_id r) = 16 \<and>
     mr_conv r = conv_bytes (msg_conv m) \<and> length (mr_conv r) = 16 \<and>
     mr_sender r = msg_sender m \<and> length (mr_sender r) = 32 \<and>
     mr_recipient r = msg_recipient m \<and> length (mr_recipient r) = 32 \<and>
     mr_timestamp r = msg_timestamp m \<and> mr_status r = message_status_as_i64 (msg_status m) \<and>
     mr_payload r = msg_payload m \<and> mr_nonce r = msg_nonce m \<and> length (mr_nonce r) = 12 \<and>
     mr_sig r = msg_sig m \<and> length (mr_sig r) = 64 \<and> mr_inserted_at r = msg_inserted_at m"
  by (cases m; cases "msg_id m"; cases "msg_conv m")
    (auto simp: message_decode_def bindR_Inr_iff try_msg_id_def try_conv_id_def try_pubkey_def
      try_nonce_def try_sig_def try_bytes_def message_status.dec_iff message_status.enc_inj
      split: if_splits option.splits)

lemma message_decode_id: "message_decode r = Inr m \<Longrightarrow> mid_bytes (msg_id m) = mr_id r"
  by (simp add: message_decode_Inr_iff)

lemma traverse_decode_ids:
  "traverseR message_decode rows = Inr ms \<Longrightarrow> map (\<lambda>m. mid_bytes (msg_id m)) ms = map mr_id rows"
  by (auto simp: traverseR_Inr_iff list_all2_conv_all_nth message_decode_id intro!: nth_equalityI)

text \<open>The rows a page is cut from.\<close>

definition outbound_rows :: "conversation_id \<Rightarrow> bytes \<Rightarrow> message_id option \<Rightarrow> tables \<Rightarrow> message_row list" where
  "outbound_rows conv sender_pub since t =
     filter (\<lambda>r. mr_conv r = conv_bytes conv \<and> mr_sender r = sender_pub \<and>
                 (case since of Some s \<Rightarrow> mid_bytes s < mr_id r | None \<Rightarrow> True)) (t_messages t)"

lemma messages_pull_run:
  "messages_pull_outbound_after conv k since n d =
     (case db_fault d ''messages.pull_outbound_after'' of
        Some e \<Rightarrow> (Inl (storage_error ''messages.pull_outbound_after'' e), d)
      | None \<Rightarrow> (traverseR message_decode
                  (limit_rows n (order_by mr_id (outbound_rows conv k since (db_tables d)))), d))"
  by (auto simp: messages_pull_outbound_after_def query_def stmt_def action_simps outbound_rows_def
      split: option.splits)

text \<open>The rows of the page, and those that the limit cuts off.\<close>

lemma page_rows_strict:
  assumes "keys_distinct mr_id (t_messages t)"
  shows "sorted_wrt (<) (map mr_id (order_by mr_id (outbound_rows conv pk since t)))"
proof -
  have "distinct (map mr_id (outbound_rows conv pk since t))"
    using assms by (simp add: outbound_rows_def keys_distinct_def distinct_map_filter)
  then have "distinct (map mr_id (order_by mr_id (outbound_rows conv pk since t)))"
    by (simp add: order_by_def distinct_map)
  then show ?thesis
    using sorted_order_by [of mr_id "outbound_rows conv pk since t"] by (simp add: strict_sorted_iff)
qed

lemma cut_off_rows:
  assumes "sorted_wrt (<) (map f xs)" "0 \<le> limit" "x \<in> set xs" "x \<notin> set (limit_rows limit xs)"
  shows "int (length (limit_rows limit xs)) = limit" "\<forall>i \<in> set (map f (limit_rows limit xs)). i < f x"
proof -
  have split: "xs = limit_rows limit xs @ drop (nat limit) xs"
    using assms(2) by (simp add: limit_rows_def)
  then have dr: "x \<in> set (drop (nat limit) xs)"
    using assms(3,4) by (metis Un_iff set_append)
  then have "nat limit < length xs"
    by (metis drop_eq_Nil empty_iff empty_set linorder_not_le)
  then show "int (length (limit_rows limit xs)) = limit"
    using assms(2) by (simp add: length_limit_rows)
  show "\<forall>i \<in> set (map f (limit_rows limit xs)). i < f x"
    using assms(1) dr by (subst (asm) split) (auto simp: sorted_wrt_append)
qed

lemma page_entry:
  assumes "traverseR message_decode (limit_rows limit (order_by mr_id (outbound_rows conv pk since t))) = Inr page"
    and "m \<in> set page"
  shows "msg_sender m = pk \<and> msg_conv m = conv \<and> (\<exists>r \<in> set (t_messages t). message_decode r = Inr m) \<and>
    (case since of Some s \<Rightarrow> mid_bytes s < mid_bytes (msg_id m) | None \<Rightarrow> True)"
proof -
  obtain r where "r \<in> set (outbound_rows conv pk since t)" "message_decode r = Inr m"
    using traverseR_in [OF assms] set_limit_rows [of limit "order_by mr_id (outbound_rows conv pk since t)"] by auto
  then show ?thesis
    by (cases since) (auto simp: outbound_rows_def message_decode_Inr_iff conversation_id.expand)
qed

text \<open>
  C29. A page of outbound messages holds only rows that \<open>sender_pub\<close> wrote in this conversation
  after \<open>since\<close>, in strictly ascending order of their ids, at most \<open>limit\<close> of them; and it is
  complete: such a row that is missing from the page comes after everything in it, and then the
  page is full.
\<close>

theorem pull_outbound_page:
  assumes "keys_distinct mr_id (t_messages (db_tables d))" "0 \<le> limit"
    and "messages_pull_outbound_after conv sender_pub since limit d = (Inr page, d')"
  shows "d' = d \<and> int (length page) \<le> limit \<and>
    sorted_wrt (<) (map (\<lambda>m. mid_bytes (msg_id m)) page) \<and>
    (\<forall>m \<in> set page. msg_sender m = sender_pub \<and> msg_conv m = conv \<and>
       (\<exists>r \<in> set (t_messages (db_tables d)). message_decode r = Inr m) \<and>
       (case since of Some s \<Rightarrow> mid_bytes s < mid_bytes (msg_id m) | None \<Rightarrow> True)) \<and>
    (\<forall>r \<in> set (outbound_rows conv sender_pub since (db_tables d)).
       mr_id r \<in> (\<lambda>m. mid_bytes (msg_id m)) ` set page \<or>
       (int (length page) = limit \<and> (\<forall>m \<in> set page. mid_bytes (msg_id m) < mr_id r)))"
proof -
  let ?sorted = "order_by mr_id (outbound_rows conv sender_pub since (db_tables d))"
  let ?cut = "limit_rows limit ?sorted"
  have d: "d' = d" and t: "traverseR message_decode ?cut = Inr page"
    using assms(3) by (auto simp: messages_pull_run split: option.splits)
  note strict = page_rows_strict [OF assms(1)] and ids = traverse_decode_ids [OF t]
  have len: "length page = length ?cut"
    by (rule length_traverseR [OF t])
  have "mr_id r \<in> (\<lambda>m. mid_bytes (msg_id m)) ` set page \<or>
      (int (length page) = limit \<and> (\<forall>m \<in> set page. mid_bytes (msg_id m) < mr_id r))"
    if "r \<in> set (outbound_rows conv sender_pub since (db_tables d))" for r
  proof (cases "r \<in> set ?cut")
    case True
    then have "mr_id r \<in> set (map mr_id ?cut)"
      by simp
    then show ?thesis
      by (simp flip: ids)
  next
    case False
    then show ?thesis
      using cut_off_rows [OF strict assms(2) _ False] that len by (simp flip: ids)
  qed
  moreover have "sorted_wrt (<) (map (\<lambda>m. mid_bytes (msg_id m)) page)"
    using strict unfolding ids by (simp add: limit_rows_def sorted_wrt_take flip: take_map)
  ultimately show ?thesis
    using d page_entry [OF t] len assms(2) by (simp add: length_limit_rows)
qed

text \<open>A concrete conversation: two own messages around one of the peer.\<close>

definition sample_row :: "byte \<Rightarrow> byte \<Rightarrow> int \<Rightarrow> message_row" where
  "sample_row i who status =
     \<lparr>mr_id = replicate 16 i, mr_conv = replicate 16 9, mr_sender = replicate 32 who,
      mr_recipient = replicate 32 (3 - who), mr_timestamp = 5, mr_status = status,
      mr_payload = [1], mr_nonce = replicate 12 0, mr_sig = replicate 64 0, mr_inserted_at = 5\<rparr>"

definition sample_messages_db :: db where
  "sample_messages_db = sample_db\<lparr>db_tables := empty_tables\<lparr>t_messages :=
     [sample_row 4 1 0, sample_row 2 2 2, sample_row 1 1 1]\<rparr>\<rparr>"

theorem pull_outbound_page_witness:
  "\<exists>page. messages_pull_outbound_after (ConversationId (replicate 16 9)) (replicate 32 1) None 1
      sample_messages_db = (Inr page, sample_messages_db) \<and>
     map (\<lambda>m. mid_bytes (msg_id m)) page = [replicate 16 1] \<and> int (length page) \<le> 1 \<and>
     (\<forall>m \<in> set page. msg_sender m = replicate 32 1)"
proof -
  have k: "keys_distinct mr_id (t_messages (db_tables sample_messages_db))"
    by code_simp
  obtain page where p: "messages_pull_outbound_after (ConversationId (replicate 16 9))
      (replicate 32 1) None 1 sample_messages_db = (Inr page, sample_messages_db)"
    and i: "map (\<lambda>m. mid_bytes (msg_id m)) page = [replicate 16 1]"
  proof
    have "fst (messages_pull_outbound_after (ConversationId (replicate 16 9)) (replicate 32 1) None 1
      sample_messages_db) = Inr [\<lparr>msg_id = MessageId (replicate 16 1),
        msg_conv = ConversationId (replicate 16 9), msg_sender = replicate 32 1,
        msg_recipient = replicate 32 2, msg_timestamp = 5, msg_status = Sent, msg_payload = [1],
        msg_nonce = replicate 12 0, msg_sig = replicate 64 0, msg_inserted_at = 5\<rparr>]"
      by code_simp
    then show "messages_pull_outbound_after (ConversationId (replicate 16 9)) (replicate 32 1) None 1
      sample_messages_db = (Inr [\<lparr>msg_id = MessageId (replicate 16 1),
        msg_conv = ConversationId (replicate 16 9), msg_sender = replicate 32 1,
        msg_recipient = replicate 32 2, msg_timestamp = 5, msg_status = Sent, msg_payload = [1],
        msg_nonce = replicate 12 0, msg_sig = replicate 64 0, msg_inserted_at = 5\<rparr>],
      sample_messages_db)"
      by (simp add: prod_eq_iff)
  qed simp
  show ?thesis
    using pull_outbound_page [OF k _ p] p i by auto
qed

section \<open>Promotion\<close>

lemma messages_promote_Inr:
  assumes "messages_promote_outbound_synced conv k hi d = (Inr ids, d')"
  shows "db_fault d ''messages.promote_outbound_synced'' = None"
    "map mid_bytes ids = map mr_id (filter (promotable conv k hi) (t_messages (db_tables d)))"
    "d' = d\<lparr>db_tables := (db_tables d)\<lparr>t_messages := update_where (promotable conv k hi)
       (\<lambda>r. r\<lparr>mr_status := message_status_as_i64 Synced\<rparr>) (t_messages (db_tables d))\<rparr>\<rparr>"
proof -
  have i: "map mid_bytes ys = xs" if "traverseR try_msg_id xs = Inr ys" for xs ys
    using that
    by (induction xs arbitrary: ys)
      (auto simp: try_msg_id_def try_bytes_def bindR_Inr_iff split: if_splits)
  show "db_fault d ''messages.promote_outbound_synced'' = None"
    "map mid_bytes ids = map mr_id (filter (promotable conv k hi) (t_messages (db_tables d)))"
    "d' = d\<lparr>db_tables := (db_tables d)\<lparr>t_messages := update_where (promotable conv k hi)
       (\<lambda>r. r\<lparr>mr_status := message_status_as_i64 Synced\<rparr>) (t_messages (db_tables d))\<rparr>\<rparr>"
    using assms i
    by (auto simp: messages_promote_outbound_synced_def stmt_def action_simps split: option.splits)
qed

text \<open>
  C30. Promotion is exact and idempotent: it reports precisely the ids of the own rows of the
  conversation up to the given id that were below \<open>Synced\<close>, sets exactly these rows to
  \<open>Synced\<close> (3) and leaves their other fields, every other row (a \<open>Failed\<close> one too) and everything
  else as it was; and running it again reports and changes nothing.
\<close>

theorem promote_exact_idempotent:
  assumes "messages_promote_outbound_synced conv sender_pub hi d = (Inr ids, d')"
  shows "mid_bytes ` set ids = {mr_id r | r. r \<in> set (t_messages (db_tables d)) \<and>
       mr_conv r = conv_bytes conv \<and> mr_sender r = sender_pub \<and> mr_id r \<le> mid_bytes hi \<and>
       mr_status r < 3} \<and>
     d' = d\<lparr>db_tables := (db_tables d)\<lparr>t_messages := map (\<lambda>r.
       if mr_conv r = conv_bytes conv \<and> mr_sender r = sender_pub \<and> mr_id r \<le> mid_bytes hi \<and> mr_status r < 3
       then r\<lparr>mr_status := 3\<rparr> else r) (t_messages (db_tables d))\<rparr>\<rparr> \<and>
     messages_promote_outbound_synced conv sender_pub hi d' = (Inr [], d')"
proof -
  let ?rows = "t_messages (db_tables d)"
  let ?p = "promotable conv sender_pub hi"
  note f = messages_promote_Inr [OF assms]
  have "mid_bytes ` set ids = mr_id ` set (filter ?p ?rows)"
    using f(2) by (metis set_map)
  then have ids: "mid_bytes ` set ids = {mr_id r | r. r \<in> set ?rows \<and> mr_conv r = conv_bytes conv \<and>
      mr_sender r = sender_pub \<and> mr_id r \<le> mid_bytes hi \<and> mr_status r < 3}"
    by (auto simp: promotable_def)
  have none: "filter ?p (t_messages (db_tables d')) = []"
    unfolding f(3) by (simp add: promotable_def filter_update_where)
  then have "update_where ?p (\<lambda>r. r\<lparr>mr_status := message_status_as_i64 Synced\<rparr>)
      (t_messages (db_tables d')) = t_messages (db_tables d')"
    by (rule update_where_none)
  with none f(1,3) have "messages_promote_outbound_synced conv sender_pub hi d' = (Inr [], d')"
    by (simp add: messages_promote_outbound_synced_def stmt_def action_simps)
  with ids f(3) show ?thesis
    by (simp add: update_where_def promotable_def)
qed

theorem promote_exact_idempotent_witness:
  "\<exists>d'. messages_promote_outbound_synced (ConversationId (replicate 16 9)) (replicate 32 1)
      (MessageId (replicate 16 3)) sample_messages_db = (Inr [MessageId (replicate 16 1)], d') \<and>
    map (\<lambda>r. (hd (mr_id r), mr_status r)) (t_messages (db_tables sample_messages_db)) = [(4, 0), (2, 2), (1, 1)] \<and>
    map (\<lambda>r. (hd (mr_id r), mr_status r)) (t_messages (db_tables d')) = [(4, 0), (2, 2), (1, 3)] \<and>
    messages_promote_outbound_synced (ConversationId (replicate 16 9)) (replicate 32 1)
      (MessageId (replicate 16 3)) d' = (Inr [], d')"
proof -
  obtain d' where p: "messages_promote_outbound_synced (ConversationId (replicate 16 9))
      (replicate 32 1) (MessageId (replicate 16 3)) sample_messages_db =
      (Inr [MessageId (replicate 16 1)], d')"
  proof
    show "messages_promote_outbound_synced (ConversationId (replicate 16 9)) (replicate 32 1)
      (MessageId (replicate 16 3)) sample_messages_db =
      (Inr [MessageId (replicate 16 1)], snd (messages_promote_outbound_synced
        (ConversationId (replicate 16 9)) (replicate 32 1) (MessageId (replicate 16 3))
        sample_messages_db))"
      by (rule prod_eqI) (code_simp, simp)
  qed
  note f = promote_exact_idempotent [OF p, THEN conjunct2]
  have less: "\<not> replicate 16 (4 :: 8 word) \<le> replicate 16 3" "replicate 16 (1 :: 8 word) \<le> replicate 16 3"
    by code_simp+
  have rows: "t_messages (db_tables sample_messages_db) = [sample_row 4 1 0, sample_row 2 2 2, sample_row 1 1 1]"
    by (simp add: sample_messages_db_def)
  then have "map (\<lambda>r. (hd (mr_id r), mr_status r)) (t_messages (db_tables d')) = [(4, 0), (2, 2), (1, 3)]"
    using less by (simp add: f [THEN conjunct1] sample_row_def)
  then show ?thesis
    using f [THEN conjunct2] p rows by (auto simp: sample_row_def)
qed

end
