(* ===== verification/Dao_Requests.thy ===== *)
theory Dao_Requests
  imports Db
begin

text \<open>
  Contact requests (\<open>dao/requests.rs\<close>): the greeting is encrypted under the data-encryption key
  with the peer's URI as associated data, and a request is resolved once.
\<close>

datatype request_direction = Incoming | Outgoing

fun direction_as_str :: "request_direction \<Rightarrow> string" where
  "direction_as_str Incoming = ''incoming''"
| "direction_as_str Outgoing = ''outgoing''"

text \<open>\<open>{:?}\<close> of a string, for the strings that a column can hold: quoted.\<close>

definition show_quoted :: "string \<Rightarrow> string" where
  "show_quoted s = [CHR 0x22] @ s @ [CHR 0x22]"

definition direction_parse :: "string \<Rightarrow> request_direction res" where
  "direction_parse s =
     (if s = ''incoming'' then Inr Incoming
      else if s = ''outgoing'' then Inr Outgoing
      else Inl (StorageErr (''requests.direction: unexpected '' @ show_quoted s)))"

interpretation direction: codec direction_as_str "res_opt \<circ> direction_parse"
proof
  show "(res_opt \<circ> direction_parse) (direction_as_str x) = Some x" for x
    by (cases x) (simp_all add: direction_parse_def res_opt_def)
  show "(res_opt \<circ> direction_parse) y = Some x \<Longrightarrow> direction_as_str x = y" for x y
    by (auto simp: direction_parse_def res_opt_def split: if_splits)
qed

lemma direction_parse_as [simp]: "direction_parse (direction_as_str x) = Inr x"
  by (cases x) (simp_all add: direction_parse_def)

fun resolution_as_str :: "request_resolution \<Rightarrow> string" where
  "resolution_as_str ResAccepted = ''accepted''"
| "resolution_as_str ResRejected = ''rejected''"
| "resolution_as_str ResCancelled = ''cancelled''"

definition resolution_parse :: "string \<Rightarrow> request_resolution res" where
  "resolution_parse s =
     (if s = ''accepted'' then Inr ResAccepted
      else if s = ''rejected'' then Inr ResRejected
      else if s = ''cancelled'' then Inr ResCancelled
      else Inl (StorageErr (''requests.resolution: unexpected '' @ show_quoted s)))"

record request =
  req_id :: int
  req_direction :: request_direction
  req_peer :: y7id
  req_text :: "string option"
  req_created_at :: int
  req_resolved_at :: "int option"
  req_resolution :: "request_resolution option"

record new_request =
  nr_direction :: request_direction
  nr_peer :: y7id
  nr_text :: "string option"

definition on_os_seal :: "ext \<Rightarrow> symmetric_key \<Rightarrow> bytes \<Rightarrow> bytes \<Rightarrow> (db, bytes \<times> bytes) action" where
  "on_os_seal E dek p a = on_os (field_seal E dek p a)"

definition requests_insert :: "ext \<Rightarrow> new_request \<Rightarrow> (db, request) action" where
  "requests_insert E new =
     andThen
       (case nr_text new of
          Some text \<Rightarrow>
            andThen (asks db_dek) (\<lambda>dek.
            andThen (on_os_seal E dek (as_bytes text) (as_bytes (to_uri E (nr_peer new))))
              (\<lambda>(ct, nonce). ret (Some ct, Some nonce)))
        | None \<Rightarrow> ret (None, None))
       (\<lambda>(text_enc, text_nonce).
          andThen now_ms (\<lambda>created_at.
          andThen
            (stmt ''requests.insert'' (\<lambda>t.
               (t_requests_seq t + 1,
                t\<lparr>t_requests := t_requests t @
                    [\<lparr>rr_id = t_requests_seq t + 1,
                      rr_direction = direction_as_str (nr_direction new),
                      rr_peer = to_uri E (nr_peer new), rr_text_enc = text_enc,
                      rr_text_nonce = text_nonce, rr_created_at = created_at,
                      rr_resolved_at = None, rr_resolution = None\<rparr>],
                  t_requests_seq := t_requests_seq t + 1\<rparr>)))
            (\<lambda>i. ret \<lparr>req_id = i, req_direction = nr_direction new, req_peer = nr_peer new,
                      req_text = nr_text new, req_created_at = created_at,
                      req_resolved_at = None, req_resolution = None\<rparr>)))"

definition request_decode :: "ext \<Rightarrow> symmetric_key \<Rightarrow> request_row \<Rightarrow> request res" where
  "request_decode E dek r =
     bindR (direction_parse (rr_direction r)) (\<lambda>direction.
     bindR (parse E (rr_peer r)) (\<lambda>peer.
     bindR (case (rr_text_enc r, rr_text_nonce r) of
              (Some ct, Some nonce) \<Rightarrow>
                bindR (field_open E dek nonce ct (as_bytes (to_uri E peer))) (\<lambda>pt.
                  case from_utf8 pt of
                    Inl e \<Rightarrow> Inl (StorageErr (''requests.initial_text decode: '' @ e))
                  | Inr s \<Rightarrow> Inr (Some s))
            | _ \<Rightarrow> Inr None) (\<lambda>text.
     bindR (transposeR resolution_parse (rr_resolution r)) (\<lambda>resolution.
       Inr \<lparr>req_id = rr_id r, req_direction = direction, req_peer = peer, req_text = text,
            req_created_at = rr_created_at r, req_resolved_at = rr_resolved_at r,
            req_resolution = resolution\<rparr>))))"

definition requests_list_pending :: "ext \<Rightarrow> request_direction option \<Rightarrow> (db, request list) action" where
  "requests_list_pending E direction =
     andThen
       (case direction of
          None \<Rightarrow>
            query ''requests.list_pending'' (\<lambda>t.
              order_by rr_created_at (filter (\<lambda>r. rr_resolved_at r = None) (t_requests t)))
        | Some dir \<Rightarrow>
            query ''requests.list_pending'' (\<lambda>t.
              order_by rr_created_at
                (filter (\<lambda>r. rr_resolved_at r = None \<and> rr_direction r = direction_as_str dir)
                  (t_requests t))))
       (\<lambda>rows. andThen (asks db_dek) (\<lambda>dek. lift_res (traverseR (request_decode E dek) rows)))"

definition requests_resolve :: "int \<Rightarrow> request_resolution \<Rightarrow> (db, unit) action" where
  "requests_resolve i resolution =
     (let s = resolution_as_str resolution in
      andThen now_ms (\<lambda>now.
      andThen
        (stmt ''requests.resolve'' (\<lambda>t.
           (affected (\<lambda>r. rr_id r = i \<and> rr_resolved_at r = None) (t_requests t),
            t\<lparr>t_requests := update_where (\<lambda>r. rr_id r = i \<and> rr_resolved_at r = None)
                (\<lambda>r. r\<lparr>rr_resolved_at := Some now, rr_resolution := Some s\<rparr>) (t_requests t)\<rparr>)))
        (\<lambda>n. if n = 0 then throw NotFound else ret ())))"

section \<open>Facts\<close>

lemma requests_list_state [simp]: "snd (requests_list_pending E dir d) = d"
  by (simp add: requests_list_pending_def query_def stmt_def action_simps
      split: option.splits)

lemma requests_resolve_Inr:
  assumes "requests_resolve i s d = (Inr r, d')"
  shows "db_fault d ''requests.resolve'' = None"
    "\<exists>r \<in> set (t_requests (db_tables d)). rr_id r = i \<and> rr_resolved_at r = None"
    "d' = d\<lparr>db_tables := (db_tables d)\<lparr>t_requests :=
       update_where (\<lambda>r. rr_id r = i \<and> rr_resolved_at r = None)
         (\<lambda>r. r\<lparr>rr_resolved_at := Some (os_now (db_os d)), rr_resolution := Some (resolution_as_str s)\<rparr>)
         (t_requests (db_tables d))\<rparr>\<rparr>"
  using assms
  by (auto simp: requests_resolve_def stmt_def action_simps affected_def filter_empty_conv Let_def
      split: option.splits if_splits)

text \<open>
  C31. A request is resolved at most once: after a successful resolution a second one, with
  whatever outcome, is refused as \<open>NotFound\<close> and changes nothing, and the first outcome and its
  time are what the row keeps.
\<close>

theorem requests_resolve_once:
  assumes "requests_resolve i s d = (Inr u, d')"
  shows "requests_resolve i s2 d' = (Inl NotFound, d') \<and>
     (\<forall>r \<in> set (t_requests (db_tables d')). rr_id r = i \<longrightarrow> rr_resolved_at r \<noteq> None) \<and>
     (\<exists>r \<in> set (t_requests (db_tables d')). rr_id r = i \<and>
        rr_resolution r = Some (resolution_as_str s) \<and> rr_resolved_at r = Some (os_now (db_os d)))"
proof -
  let ?p = "\<lambda>r. rr_id r = i \<and> rr_resolved_at r = None"
  note f = requests_resolve_Inr [OF assms]
  have none: "filter ?p (t_requests (db_tables d')) = []"
    unfolding f(3) by (simp add: filter_update_where)
  then have "requests_resolve i s2 d' = (Inl NotFound, d')"
    using f(1) update_where_none [OF none]
    by (simp add: requests_resolve_def stmt_def action_simps affected_def Let_def f(3))
  moreover have "\<exists>r \<in> set (t_requests (db_tables d')). rr_id r = i \<and>
        rr_resolution r = Some (resolution_as_str s) \<and> rr_resolved_at r = Some (os_now (db_os d))"
  proof -
    from f(2) obtain r where "r \<in> set (t_requests (db_tables d))" "?p r"
      by blast
    then have "r\<lparr>rr_resolved_at := Some (os_now (db_os d)), rr_resolution := Some (resolution_as_str s)\<rparr>
        \<in> set (t_requests (db_tables d'))"
      unfolding f(3) by (auto intro: update_where_hit)
    with \<open>?p r\<close> show ?thesis
      by (intro bexI) auto
  qed
  ultimately show ?thesis
    using none by (auto simp: filter_empty_conv)
qed

text \<open>
  The greeting survives the store: the row that an insert appends decodes, under the same
  data-encryption key, to exactly the request the insert returned, greeting included.
\<close>

theorem requests_insert_decode:
  assumes "ext_laws E" "y7id_ok (nr_peer new)" "\<And>t. nr_text new = Some t \<Longrightarrow> is_str t"
    and "requests_insert E new d = (Inr r, d')"
  shows "request_decode E (db_dek d) (last (t_requests (db_tables d'))) = Inr r \<and>
         butlast (t_requests (db_tables d')) = t_requests (db_tables d)"
proof (cases "nr_text new")
  case None
  with assms parse_to_uri [OF ext_lawsD(1) [OF assms(1)] assms(2)] show ?thesis
    by (auto simp: requests_insert_def stmt_def action_simps request_decode_def transposeR_def
        split: option.splits)
next
  case (Some g)
  obtain ct nonce w where seal: "field_seal E (db_dek d) (as_bytes g)
      (as_bytes (to_uri E (nr_peer new))) (db_os d) = (Inr (ct, nonce), w)"
    using assms(4) Some
    by (auto simp: requests_insert_def on_os_seal_def on_os_def zoom_def action_simps
        split: prod.splits sum.splits)
  have "field_open E (db_dek d) nonce ct (as_bytes (to_uri E (nr_peer new))) = Inr (as_bytes g)"
    using field_open_sealed seal assms(1) ext_lawsD by blast
  moreover have "is_str g"
    using assms(3) Some by simp
  ultimately show ?thesis
    using assms(4) Some seal parse_to_uri [OF ext_lawsD(1) [OF assms(1)] assms(2)]
    by (auto simp: requests_insert_def on_os_seal_def on_os_def zoom_def stmt_def action_simps
        request_decode_def transposeR_def from_utf8_as_bytes split: option.splits)
qed

definition sample_request :: new_request where
  "sample_request = \<lparr>nr_direction = Incoming, nr_peer = Y7Id (public_of sample_ext bob),
     nr_text = Some ''hello''\<rparr>"

theorem requests_insert_decode_witness:
  "\<exists>r d'. requests_insert sample_ext sample_request sample_db = (Inr r, d') \<and>
     request_decode sample_ext (db_dek sample_db) (last (t_requests (db_tables d'))) = Inr r \<and>
     req_text r = Some ''hello''"
proof -
  obtain r d' where i: "requests_insert sample_ext sample_request sample_db = (Inr r, d')"
    and t: "req_text r = Some ''hello''"
    by (simp add: requests_insert_def on_os_seal_def on_os_def zoom_def stmt_def action_simps
        sample_db_def sample_request_def field_seal_def key_seal_def generate_nonce_def draw_def
        sample_ext_def toy_encrypt_def)
  have "length (public_of sample_ext bob) = 32"
    by (simp add: length_public_of ext_lawsD sample_ext_laws alice_bob_ok)
  then have y: "y7id_ok (nr_peer sample_request)"
    by (simp add: sample_request_def y7id_ok_def)
  have "is_str ''hello''"
    by code_simp
  then have s: "nr_text sample_request = Some u \<Longrightarrow> is_str u" for u
    by (simp add: sample_request_def)
  show ?thesis
    using requests_insert_decode [OF sample_ext_laws y s i] i t by blast
qed

theorem requests_resolve_once_witness:
  "\<exists>r d d'. requests_insert sample_ext \<lparr>nr_direction = Outgoing, nr_peer = Y7Id [], nr_text = None\<rparr>
      sample_db = (Inr r, d) \<and>
     requests_resolve (req_id r) ResCancelled d = (Inr (), d') \<and>
     requests_resolve (req_id r) ResAccepted d' = (Inl NotFound, d')"
proof -
  obtain r d where i: "requests_insert sample_ext
      \<lparr>nr_direction = Outgoing, nr_peer = Y7Id [], nr_text = None\<rparr> sample_db = (Inr r, d)"
    and q: "req_id r = 1" "db_fault d = (\<lambda>_. None)" "map rr_id (t_requests (db_tables d)) = [1]"
      "map rr_resolved_at (t_requests (db_tables d)) = [None]"
    by (simp add: requests_insert_def stmt_def action_simps sample_db_def empty_tables_def)
  then obtain d' where "requests_resolve (req_id r) ResCancelled d = (Inr (), d')"
    by (auto simp: requests_resolve_def stmt_def action_simps affected_def Let_def)
  then show ?thesis
    using requests_resolve_once [of "req_id r" ResCancelled d "()" d' ResAccepted] i by blast
qed

end
