(* ===== verification/Dao_Queues.thy ===== *)
theory Dao_Queues
  imports Db
begin

text \<open>
  Handshake completion (\<open>dao/sessions.rs\<close>), the outbox of unconfirmed messages
  (\<open>dao/sync_queue.rs\<close>) and the durable outbox of chat deletions (\<open>dao/pending_deletes.rs\<close>).
\<close>

section \<open>Sessions\<close>

record session =
  ses_peer :: y7id
  ses_established_at :: int
  ses_last_used_at :: int

definition session_merge :: "session_row \<Rightarrow> session_row \<Rightarrow> session_row" where
  "session_merge new old = old\<lparr>sr_last_used_at := sr_last_used_at new\<rparr>"

definition sessions_upsert :: "ext \<Rightarrow> y7id \<Rightarrow> (db, unit) action" where
  "sessions_upsert E peer =
     andThen now_ms (\<lambda>now.
       execute ''sessions.upsert'' (\<lambda>t.
         t\<lparr>t_sessions := upsert sr_peer session_merge
             \<lparr>sr_peer = to_uri E peer, sr_established_at = now, sr_last_used_at = now\<rparr>
             (t_sessions t)\<rparr>))"

definition sessions_get :: "ext \<Rightarrow> y7id \<Rightarrow> (db, session option) action" where
  "sessions_get E peer =
     andThen (query ''sessions.get'' (\<lambda>t. find_row sr_peer (to_uri E peer) (t_sessions t)))
       (\<lambda>row. case row of
          None \<Rightarrow> ret None
        | Some r \<Rightarrow>
            andThen (lift_res (parse E (sr_peer r))) (\<lambda>y.
              ret (Some \<lparr>ses_peer = y, ses_established_at = sr_established_at r,
                        ses_last_used_at = sr_last_used_at r\<rparr>)))"

definition sessions_touch :: "ext \<Rightarrow> y7id \<Rightarrow> (db, unit) action" where
  "sessions_touch E peer =
     andThen now_ms (\<lambda>now.
       execute ''sessions.touch'' (\<lambda>t.
         t\<lparr>t_sessions := update_where (\<lambda>r. sr_peer r = to_uri E peer)
             (\<lambda>r. r\<lparr>sr_last_used_at := now\<rparr>) (t_sessions t)\<rparr>))"

interpretation session_rows: row_store sr_peer session_merge
  by unfold_locales (simp add: session_merge_def)

section \<open>The outbox of messages\<close>

record queue_entry =
  qe_message :: message_id
  qe_target :: y7id
  qe_attempts :: int
  qe_next_retry_at :: int

definition queue_key :: "queue_row \<Rightarrow> bytes \<times> string" where
  "queue_key r = (qr_message r, qr_target r)"

definition queue_merge :: "queue_row \<Rightarrow> queue_row \<Rightarrow> queue_row" where
  "queue_merge new old = old\<lparr>qr_next_retry_at := qr_next_retry_at new\<rparr>"

definition queue_enqueue :: "ext \<Rightarrow> message_id \<Rightarrow> y7id \<Rightarrow> int \<Rightarrow> (db, unit) action" where
  "queue_enqueue E i target next_retry_at =
     execute ''sync_queue.enqueue'' (\<lambda>t.
       t\<lparr>t_queue := upsert queue_key queue_merge
           \<lparr>qr_message = mid_bytes i, qr_target = to_uri E target, qr_attempts = 0,
            qr_next_retry_at = next_retry_at\<rparr> (t_queue t)\<rparr>)"

definition queue_decode :: "ext \<Rightarrow> queue_row \<Rightarrow> queue_entry res" where
  "queue_decode E r =
     bindR (if length (qr_message r) = 16 then Inr (qr_message r)
            else Inl (StorageErr ''sync_queue.message_id: expected 16 bytes'')) (\<lambda>bs.
     bindR (parse E (qr_target r)) (\<lambda>target.
       Inr \<lparr>qe_message = MessageId bs, qe_target = target, qe_attempts = qr_attempts r,
            qe_next_retry_at = qr_next_retry_at r\<rparr>))"

definition due_rows :: "('r \<Rightarrow> int) \<Rightarrow> int \<Rightarrow> int \<Rightarrow> 'r list \<Rightarrow> 'r list" where
  "due_rows at now limit rows = limit_rows limit (order_by at (filter (\<lambda>r. at r \<le> now) rows))"

definition queue_due :: "ext \<Rightarrow> int \<Rightarrow> int \<Rightarrow> (db, queue_entry list) action" where
  "queue_due E now limit =
     andThen (query ''sync_queue.due'' (\<lambda>t. due_rows qr_next_retry_at now limit (t_queue t)))
       (\<lambda>rows. lift_res (traverseR (queue_decode E) rows))"

definition queue_bump :: "ext \<Rightarrow> message_id \<Rightarrow> y7id \<Rightarrow> int \<Rightarrow> int \<Rightarrow> (db, unit) action" where
  "queue_bump E i target attempts next_retry_at =
     execute ''sync_queue.bump'' (\<lambda>t.
       t\<lparr>t_queue := update_where (\<lambda>r. queue_key r = (mid_bytes i, to_uri E target))
           (\<lambda>r. r\<lparr>qr_attempts := attempts, qr_next_retry_at := next_retry_at\<rparr>) (t_queue t)\<rparr>)"

definition queue_remove :: "ext \<Rightarrow> message_id \<Rightarrow> y7id \<Rightarrow> (db, unit) action" where
  "queue_remove E i target =
     execute ''sync_queue.remove'' (\<lambda>t.
       t\<lparr>t_queue := delete_where (\<lambda>r. queue_key r = (mid_bytes i, to_uri E target)) (t_queue t)\<rparr>)"

interpretation queue_rows: row_store queue_key queue_merge
  by unfold_locales (simp add: queue_key_def queue_merge_def)

section \<open>The outbox of chat deletions\<close>

record pending_delete =
  pd_peer :: y7id
  pd_envelope :: bytes
  pd_attempts :: int

definition delete_merge :: "delete_row \<Rightarrow> delete_row \<Rightarrow> delete_row" where
  "delete_merge new old =
     old\<lparr>dr_envelope := dr_envelope new, dr_next_retry_at := dr_next_retry_at new\<rparr>"

definition deletes_enqueue :: "ext \<Rightarrow> y7id \<Rightarrow> bytes \<Rightarrow> int \<Rightarrow> (db, unit) action" where
  "deletes_enqueue E peer envelope next_retry_at =
     execute ''pending_deletes.enqueue'' (\<lambda>t.
       t\<lparr>t_deletes := upsert dr_peer delete_merge
           \<lparr>dr_peer = to_uri E peer, dr_envelope = envelope, dr_attempts = 0,
            dr_next_retry_at = next_retry_at\<rparr> (t_deletes t)\<rparr>)"

definition deletes_get :: "ext \<Rightarrow> y7id \<Rightarrow> (db, pending_delete option) action" where
  "deletes_get E peer =
     andThen (query ''pending_deletes.get'' (\<lambda>t. find_row dr_peer (to_uri E peer) (t_deletes t)))
       (\<lambda>row. ret (map_option (\<lambda>r. \<lparr>pd_peer = peer, pd_envelope = dr_envelope r,
                                     pd_attempts = dr_attempts r\<rparr>) row))"

definition deletes_due :: "ext \<Rightarrow> int \<Rightarrow> int \<Rightarrow> (db, pending_delete list) action" where
  "deletes_due E now limit =
     andThen (query ''pending_deletes.due'' (\<lambda>t. due_rows dr_next_retry_at now limit (t_deletes t)))
       (\<lambda>rows. lift_res (traverseR
          (\<lambda>r. bindR (parse E (dr_peer r)) (\<lambda>peer.
             Inr \<lparr>pd_peer = peer, pd_envelope = dr_envelope r, pd_attempts = dr_attempts r\<rparr>)) rows))"

definition deletes_bump :: "ext \<Rightarrow> y7id \<Rightarrow> int \<Rightarrow> int \<Rightarrow> (db, unit) action" where
  "deletes_bump E peer attempts next_retry_at =
     execute ''pending_deletes.bump'' (\<lambda>t.
       t\<lparr>t_deletes := update_where (\<lambda>r. dr_peer r = to_uri E peer)
           (\<lambda>r. r\<lparr>dr_attempts := attempts, dr_next_retry_at := next_retry_at\<rparr>) (t_deletes t)\<rparr>)"

definition deletes_remove :: "ext \<Rightarrow> y7id \<Rightarrow> (db, unit) action" where
  "deletes_remove E peer =
     execute ''pending_deletes.remove'' (\<lambda>t.
       t\<lparr>t_deletes := delete_where (\<lambda>r. dr_peer r = to_uri E peer) (t_deletes t)\<rparr>)"

interpretation delete_rows: row_store dr_peer delete_merge
  by unfold_locales (simp add: delete_merge_def)

section \<open>Facts\<close>

lemma sessions_get_state [simp]: "snd (sessions_get E y d) = d"
  by (simp add: sessions_get_def query_def stmt_def action_simps split: option.splits sum.splits)

lemma queue_due_state [simp]: "snd (queue_due E n l d) = d"
  by (simp add: queue_due_def query_def stmt_def action_simps split: option.splits)

lemma deletes_get_state [simp]: "snd (deletes_get E y d) = d"
  by (simp add: deletes_get_def query_def stmt_def action_simps split: option.splits)

lemma deletes_due_state [simp]: "snd (deletes_due E n l d) = d"
  by (simp add: deletes_due_def query_def stmt_def action_simps split: option.splits)

text \<open>A statement that writes one table leaves the others.\<close>

lemma queue_remove_run:
  "queue_remove E i y d =
     (case db_fault d ''sync_queue.remove'' of
        Some e \<Rightarrow> (Inl (storage_error ''sync_queue.remove'' e), d)
      | None \<Rightarrow> (Inr (), d\<lparr>db_tables := (db_tables d)\<lparr>t_queue :=
          delete_where (\<lambda>r. queue_key r = (mid_bytes i, to_uri E y)) (t_queue (db_tables d))\<rparr>\<rparr>))"
  by (simp add: queue_remove_def execute_def stmt_def split: option.splits)

text \<open>The due rows: only due ones, the earliest first, and none skipped below the limit.\<close>

lemma due_rows_due: "r \<in> set (due_rows at now limit rows) \<Longrightarrow> r \<in> set rows \<and> at r \<le> now"
  using set_limit_rows [of limit "order_by at (filter (\<lambda>r. at r \<le> now) rows)"]
  by (auto simp: due_rows_def)

lemma due_rows_sorted: "sorted (map at (due_rows at now limit rows))"
  by (simp add: due_rows_def sorted_limit_rows sorted_order_by)

lemma due_rows_all:
  assumes "0 \<le> limit" "r \<in> set rows" "at r \<le> now" "r \<notin> set (due_rows at now limit rows)"
  shows "int (length (due_rows at now limit rows)) = limit \<and>
         (\<forall>q \<in> set (due_rows at now limit rows). at q \<le> at r)"
proof -
  let ?s = "order_by at (filter (\<lambda>r. at r \<le> now) rows)"
  have "r \<in> set ?s"
    using assms(2,3) by simp
  moreover have "?s = take (nat limit) ?s @ drop (nat limit) ?s"
    by simp
  moreover have cut: "due_rows at now limit rows = take (nat limit) ?s"
    using assms(1) by (simp add: due_rows_def limit_rows_def)
  ultimately have dr: "r \<in> set (drop (nat limit) ?s)"
    using assms(4) by (metis Un_iff set_append)
  then have "nat limit < length ?s"
    by (metis drop_eq_Nil empty_iff empty_set linorder_not_le)
  then show ?thesis
    using assms(1) cut dr sorted_takes_least [OF sorted_order_by] by auto
qed

end
