(* ===== verification/Settings_Core.thy ===== *)
theory Settings_Core
  imports Text_Scan CoreTypes
begin

text \<open>
  Bootstrap descriptors (\<open>y7ke-core/src/settings.rs\<close>): the transport-agnostic shorthand
  \<open>/<net>/<host>/<port>/p2p/<id>\<close> stands for a TCP and a QUIC address of the same node.
\<close>

definition default_relay_bootstrap :: string where
  "default_relay_bootstrap =
     ''/dns/bootstrap1.y7v.lol/4101/p2p/12D3KooWEVq9A1w4xk1paGxywwPNy4vz8D92wxE4XKBh8DpA8fSo''"

definition is_ascii_digit :: "char \<Rightarrow> bool" where
  "is_ascii_digit c \<longleftrightarrow> c \<in> set ''0123456789''"

definition is_shorthand :: "string list \<Rightarrow> bool" where
  "is_shorthand parts \<longleftrightarrow>
     length parts = 6 \<and>
     parts ! 1 \<in> {''dns'', ''dns4'', ''dns6'', ''ip4'', ''ip6''} \<and>
     parts ! 2 \<noteq> [] \<and>
     parts ! 3 \<noteq> [] \<and>
     list_all is_ascii_digit (parts ! 3) \<and>
     parts ! 4 = ''p2p'' \<and>
     parts ! 5 \<noteq> []"

definition expand_bootstrap :: "string \<Rightarrow> string list" where
  "expand_bootstrap s0 =
     (let s = trim s0;
          parts = split_on CHR ''/'' s
      in if is_shorthand parts
         then let net = parts ! 1; host = parts ! 2; port = parts ! 3; i = parts ! 5
              in [''/'' @ net @ ''/'' @ host @ ''/tcp/'' @ port @ ''/p2p/'' @ i,
                  ''/'' @ net @ ''/'' @ host @ ''/udp/'' @ port @ ''/quic-v1/p2p/'' @ i]
         else [s])"

text \<open>The parts of the two expansions.\<close>

lemma split_tcp:
  assumes "CHR ''/'' \<notin> set net" "CHR ''/'' \<notin> set host" "CHR ''/'' \<notin> set port" "CHR ''/'' \<notin> set i"
  shows "split_on CHR ''/'' (''/'' @ net @ ''/'' @ host @ ''/tcp/'' @ port @ ''/p2p/'' @ i) =
           ['''', net, host, ''tcp'', port, ''p2p'', i]"
proof -
  have "split_on CHR ''/'' (''tcp/'' @ t) = ''tcp'' # split_on CHR ''/'' t"
    "split_on CHR ''/'' (''p2p/'' @ t) = ''p2p'' # split_on CHR ''/'' t" for t
    using split_on_append [of "CHR ''/''" "''tcp''"] split_on_append [of "CHR ''/''" "''p2p''"]
    by simp_all
  then show ?thesis
    using assms by (simp add: split_on_append split_on_part)
qed

lemma split_udp:
  assumes "CHR ''/'' \<notin> set net" "CHR ''/'' \<notin> set host" "CHR ''/'' \<notin> set port" "CHR ''/'' \<notin> set i"
  shows "split_on CHR ''/'' (''/'' @ net @ ''/'' @ host @ ''/udp/'' @ port @ ''/quic-v1/p2p/'' @ i) =
           ['''', net, host, ''udp'', port, ''quic-v1'', ''p2p'', i]"
proof -
  have "split_on CHR ''/'' (''udp/'' @ t) = ''udp'' # split_on CHR ''/'' t"
    "split_on CHR ''/'' (''quic-v1/p2p/'' @ t) = ''quic-v1'' # ''p2p'' # split_on CHR ''/'' t" for t
    using split_on_append [of "CHR ''/''" "''udp''"] split_on_append [of "CHR ''/''" "''p2p''"]
      split_on_append [of "CHR ''/''" "''quic-v1''"]
    by simp_all
  then show ?thesis
    using assms by (simp add: split_on_append split_on_part)
qed

text \<open>Both expansions begin with a slash and end in the non-empty id, so they stay trimmed.\<close>

lemma trimmed_slashed:
  assumes i: "i \<noteq> []" "\<And>w. w \<in> set white_spaces \<Longrightarrow> \<not> suffix w i"
  shows "trimmed (CHR ''/'' # x @ CHR ''/'' # i)"
  unfolding trimmed_def
proof (intro ballI conjI)
  fix w assume w: "w \<in> set white_spaces"
  note ne = white_spaces_ne [OF w] and ns = white_spaces_slash [OF w]
  show "\<not> prefix w (CHR ''/'' # x @ CHR ''/'' # i)"
    using ne ns by (cases w) auto
  show "\<not> suffix w (CHR ''/'' # x @ CHR ''/'' # i)"
  proof
    assume "suffix w (CHR ''/'' # x @ CHR ''/'' # i)"
    then have s: "suffix w ((CHR ''/'' # x @ [CHR ''/'']) @ i)"
      by simp
    obtain v where "w = v @ i" "suffix v (CHR ''/'' # x @ [CHR ''/''])"
      using s i(2) [OF w] unfolding suffix_append by blast
    with ns have "suffix v (CHR ''/'' # x @ [CHR ''/''])" "CHR ''/'' \<notin> set v" "w = v @ i"
      by auto
    then have "w = i"
      by (cases v rule: rev_cases) (auto simp: suffix_def)
    with i(2) [OF w] show False
      by simp
  qed
qed

lemma shorthand_string:
  assumes "is_shorthand parts"
  obtains p0 net host port i where
    "parts = [p0, net, host, port, ''p2p'', i]" "i \<noteq> []"
  using assms unfolding is_shorthand_def
  by (auto simp: length_Suc_conv numeral_eq_Suc)

text \<open>
  Expansion is idempotent: every address in the expansion of any descriptor (shorthand,
  explicit multiaddress or garbage, surrounded by white space or not) passes through a second
  expansion unchanged, so stored descriptors may be expanded at every layer.
\<close>

theorem expand_bootstrap_idem:
  "concat (map expand_bootstrap (expand_bootstrap s0)) = expand_bootstrap s0"
proof (cases "is_shorthand (split_on CHR ''/'' (trim s0))")
  case False
  then show ?thesis
    by (simp add: expand_bootstrap_def Let_def)
next
  case True
  then obtain p0 net host port i where parts:
    "split_on CHR ''/'' (trim s0) = [p0, net, host, port, ''p2p'', i]" and ne: "i \<noteq> []"
    by (rule shorthand_string)
  have free: "CHR ''/'' \<notin> set net" "CHR ''/'' \<notin> set host" "CHR ''/'' \<notin> set port" "CHR ''/'' \<notin> set i"
    using split_parts [of _ "CHR ''/''" "trim s0"] parts by auto
  have "trim s0 = (p0 @ ''/'' @ net @ ''/'' @ host @ ''/'' @ port @ ''/p2p/'') @ i"
    using join_split [of "CHR ''/''" "trim s0"] parts by simp
  then have "suffix i (trim s0)"
    by (metis suffixI)
  then have clean: "\<not> suffix w i" if "w \<in> set white_spaces" for w
    using trimmed_trim [of s0] that suffix_order.trans unfolding trimmed_def by blast
  have "trimmed (''/'' @ net @ ''/'' @ host @ ''/tcp/'' @ port @ ''/p2p/'' @ i)"
    using trimmed_slashed [OF ne clean, of "net @ ''/'' @ host @ ''/tcp/'' @ port @ ''/p2p''"]
    by simp
  moreover have "trimmed (''/'' @ net @ ''/'' @ host @ ''/udp/'' @ port @ ''/quic-v1/p2p/'' @ i)"
    using trimmed_slashed [OF ne clean, of "net @ ''/'' @ host @ ''/udp/'' @ port @ ''/quic-v1/p2p''"]
    by simp
  ultimately show ?thesis
    using True parts split_tcp [OF free] split_udp [OF free]
    by (simp add: expand_bootstrap_def Let_def is_shorthand_def trim_trimmed)
qed

end
