(* ===== verification/Dao_State.thy ===== *)
theory Dao_State
  imports Dao_Contacts Dao_Messages Dao_Requests Dao_Queues Settings_Core
begin

text \<open>
  Per-peer state (\<open>dao/peer_state.rs\<close>), the settings row (\<open>dao/settings.rs\<close>), the local user
  (\<open>dao/users.rs\<close>, \<open>y7ke-app/src/identity.rs\<close>), opening the database and wiping a peer
  (\<open>db.rs\<close>).
\<close>

section \<open>Per-peer state\<close>

record peer_state =
  ps_peer :: y7id
  ps_last_addrs_json :: "string option"
  ps_last_seen_at :: "int option"
  ps_highest_seen :: "message_id option"
  ps_highest_sent :: "message_id option"

definition opt_msg_id :: "bytes option \<Rightarrow> message_id option res" where
  "opt_msg_id b =
     (case b of
        None \<Rightarrow> Inr None
      | Some bs \<Rightarrow>
          if length bs = 16 then Inr (Some (MessageId bs))
          else Inl (StorageErr ''peer_state msg id: expected 16 bytes''))"

definition peer_state_decode :: "ext \<Rightarrow> peer_state_row \<Rightarrow> peer_state res" where
  "peer_state_decode E r =
     bindR (parse E (pr_peer r)) (\<lambda>peer.
     bindR (opt_msg_id (pr_highest_seen r)) (\<lambda>hs_in.
     bindR (opt_msg_id (pr_highest_sent r)) (\<lambda>hs_out.
       Inr \<lparr>ps_peer = peer, ps_last_addrs_json = pr_addrs_json r,
            ps_last_seen_at = pr_last_seen_at r, ps_highest_seen = hs_in,
            ps_highest_sent = hs_out\<rparr>)))"

definition peer_state_get :: "ext \<Rightarrow> y7id \<Rightarrow> (db, peer_state option) action" where
  "peer_state_get E peer =
     andThen (query ''peer_state.get'' (\<lambda>t. find_row pr_peer (to_uri E peer) (t_peer_state t)))
       (\<lambda>row. case row of
          None \<Rightarrow> ret None
        | Some r \<Rightarrow> andThen (lift_res (peer_state_decode E r)) (\<lambda>p. ret (Some p)))"

definition peer_state_list_all :: "ext \<Rightarrow> (db, peer_state list) action" where
  "peer_state_list_all E =
     andThen (query ''peer_state.list_all'' t_peer_state)
       (\<lambda>rows. lift_res (traverseR (peer_state_decode E) rows))"

definition empty_peer_row :: "string \<Rightarrow> peer_state_row" where
  "empty_peer_row uri =
     \<lparr>pr_peer = uri, pr_addrs_json = None, pr_last_seen_at = None, pr_highest_seen = None,
      pr_highest_sent = None\<rparr>"

definition seen_merge :: "peer_state_row \<Rightarrow> peer_state_row \<Rightarrow> peer_state_row" where
  "seen_merge new old =
     old\<lparr>pr_addrs_json := pr_addrs_json new, pr_last_seen_at := pr_last_seen_at new\<rparr>"

definition inbound_merge :: "peer_state_row \<Rightarrow> peer_state_row \<Rightarrow> peer_state_row" where
  "inbound_merge new old = old\<lparr>pr_highest_seen := pr_highest_seen new\<rparr>"

definition outbound_merge :: "peer_state_row \<Rightarrow> peer_state_row \<Rightarrow> peer_state_row" where
  "outbound_merge new old = old\<lparr>pr_highest_sent := pr_highest_sent new\<rparr>"

definition peer_state_upsert_seen :: "ext \<Rightarrow> y7id \<Rightarrow> string option \<Rightarrow> (db, unit) action" where
  "peer_state_upsert_seen E peer addrs_json =
     andThen now_ms (\<lambda>now.
       execute ''peer_state.upsert_seen'' (\<lambda>t.
         t\<lparr>t_peer_state := upsert pr_peer seen_merge
             ((empty_peer_row (to_uri E peer))\<lparr>pr_addrs_json := addrs_json, pr_last_seen_at := Some now\<rparr>)
             (t_peer_state t)\<rparr>))"

definition peer_state_set_high_water_inbound :: "ext \<Rightarrow> y7id \<Rightarrow> message_id \<Rightarrow> (db, unit) action" where
  "peer_state_set_high_water_inbound E peer i =
     execute ''peer_state.set_high_water_inbound'' (\<lambda>t.
       t\<lparr>t_peer_state := upsert pr_peer inbound_merge
           ((empty_peer_row (to_uri E peer))\<lparr>pr_highest_seen := Some (mid_bytes i)\<rparr>)
           (t_peer_state t)\<rparr>)"

definition peer_state_set_high_water_outbound :: "ext \<Rightarrow> y7id \<Rightarrow> message_id \<Rightarrow> (db, unit) action" where
  "peer_state_set_high_water_outbound E peer i =
     execute ''peer_state.set_high_water_outbound'' (\<lambda>t.
       t\<lparr>t_peer_state := upsert pr_peer outbound_merge
           ((empty_peer_row (to_uri E peer))\<lparr>pr_highest_sent := Some (mid_bytes i)\<rparr>)
           (t_peer_state t)\<rparr>)"

interpretation seen_rows: row_store pr_peer seen_merge
  by unfold_locales (simp add: seen_merge_def)

interpretation inbound_rows: row_store pr_peer inbound_merge
  by unfold_locales (simp add: inbound_merge_def)

interpretation outbound_rows: row_store pr_peer outbound_merge
  by unfold_locales (simp add: outbound_merge_def)

lemma peer_state_get_state [simp]: "snd (peer_state_get E y d) = d"
  by (simp add: peer_state_get_def query_def stmt_def action_simps split: option.splits sum.splits)

lemma peer_state_list_state [simp]: "snd (peer_state_list_all E d) = d"
  by (simp add: peer_state_list_all_def query_def stmt_def action_simps split: option.splits)

section \<open>Settings\<close>

definition settings_get :: "ext \<Rightarrow> (db, settings) action" where
  "settings_get E =
     andThen (query ''settings.get'' t_settings) (\<lambda>row.
       case row of
         None \<Rightarrow> ret settings_default
       | Some json \<Rightarrow>
           (case unjson_settings E json of
              Inl e \<Rightarrow> throw (StorageErr (''settings.get decode: '' @ e))
            | Inr s \<Rightarrow> ret s))"

definition settings_update :: "ext \<Rightarrow> settings \<Rightarrow> (db, unit) action" where
  "settings_update E s =
     (case json_settings E s of
        Inl e \<Rightarrow> throw (StorageErr (''settings.update encode: '' @ e))
      | Inr json \<Rightarrow> execute ''settings.update'' (\<lambda>t. t\<lparr>t_settings := Some json\<rparr>))"

lemma settings_get_state [simp]: "snd (settings_get E d) = d"
  by (simp add: settings_get_def query_def stmt_def action_simps split: option.splits sum.splits)

lemma settings_update_get:
  assumes "json_law E" "settings_update E s d = (Inr u, d')" "db_fault d ''settings.get'' = None"
  shows "settings_get E d' = (Inr s, d')"
proof -
  obtain j where "json_settings E s = Inr j" "unjson_settings E j = Inr s"
    using assms(1) unfolding json_law_def by blast
  with assms show ?thesis
    by (auto simp: settings_update_def execute_def stmt_def settings_get_def query_def action_simps
        split: option.splits)
qed

section \<open>The local user\<close>

record user =
  user_id :: y7id
  user_pub :: bytes
  user_priv :: bytes
  user_created_at :: int

record new_user =
  nu_id :: y7id
  nu_pub :: bytes
  nu_priv :: bytes

definition users_get :: "ext \<Rightarrow> (db, user option) action" where
  "users_get E =
     andThen (query ''users.get'' (\<lambda>t. case t_users t of [] \<Rightarrow> None | r # _ \<Rightarrow> Some r)) (\<lambda>row.
       case row of
         None \<Rightarrow> ret None
       | Some r \<Rightarrow>
           andThen (asks db_dek) (\<lambda>dek. lift_res (
             bindR (parse E (ur_y7_id r)) (\<lambda>y.
             bindR (if length (ur_pub r) = 32 then Inr (ur_pub r)
                    else Inl (StorageErr ''users.ed25519_pub: expected 32 bytes'')) (\<lambda>pub.
             bindR (field_open E dek (ur_priv_nonce r) (ur_priv_enc r) pub) (\<lambda>plaintext.
             bindR (if length plaintext = 32 then Inr plaintext
                    else Inl (StorageErr ''users.ed25519_priv: expected 32 bytes plaintext'')) (\<lambda>priv.
               Inr (Some \<lparr>user_id = y, user_pub = pub, user_priv = priv,
                         user_created_at = ur_created_at r\<rparr>))))))))"

text \<open>The row has the fixed primary key 1, so a second insert violates it.\<close>

definition users_insert :: "ext \<Rightarrow> new_user \<Rightarrow> (db, user) action" where
  "users_insert E new =
     andThen (asks db_dek) (\<lambda>dek.
     andThen (on_os_seal E dek (nu_priv new) (nu_pub new)) (\<lambda>(priv_enc, priv_nonce).
     andThen now_ms (\<lambda>created_at.
       seqA
         (stmt_checked ''users.insert'' (\<lambda>t.
            if t_users t \<noteq> [] then Inl ''UNIQUE constraint failed: users.id''
            else Inr (t\<lparr>t_users :=
              [\<lparr>ur_y7_id = to_uri E (nu_id new), ur_pub = nu_pub new, ur_priv_enc = priv_enc,
                ur_priv_nonce = priv_nonce, ur_created_at = created_at\<rparr>]\<rparr>)))
         (ret \<lparr>user_id = nu_id new, user_pub = nu_pub new, user_priv = nu_priv new,
               user_created_at = created_at\<rparr>))))"

lemma users_get_state [simp]: "snd (users_get E d) = d"
  by (simp add: users_get_def query_def stmt_def action_simps split: option.splits)

text \<open>\<open>identity::ensure\<close>: load the keypair, or make one and store it.\<close>

record local_identity =
  li_signing_key :: signing_key
  li_y7_id :: y7id

definition identity_ensure :: "ext \<Rightarrow> (db, local_identity) action" where
  "identity_ensure E =
     andThen (users_get E) (\<lambda>present.
       case present of
         Some u \<Rightarrow> ret \<lparr>li_signing_key = signing_key_from_bytes (user_priv u), li_y7_id = user_id u\<rparr>
       | None \<Rightarrow>
           andThen (on_os (signing_key_generate E)) (\<lambda>signing_key.
             let pub_bytes = vk_bytes (verifying_key E signing_key);
                 priv_bytes = secret_bytes signing_key;
                 y = from_pubkey pub_bytes
             in seqA (andThen (users_insert E
                        \<lparr>nu_id = y, nu_pub = pub_bytes, nu_priv = priv_bytes\<rparr>) (\<lambda>_. ret ()))
                  (ret \<lparr>li_signing_key = signing_key, li_y7_id = y\<rparr>)))"

text \<open>
  C32. The identity is generated once: after \<open>ensure\<close> has returned an identity, calling it
  again returns the same secret key and the same user id and stores nothing, although the key
  is only kept encrypted under the data-encryption key.
\<close>

theorem identity_ensure_idempotent:
  assumes "ext_laws E" "identity_ensure E d = (Inr who, d')"
    and "t_users (db_tables d) = []" "db_fault d ''users.get'' = None"
  shows "identity_ensure E d' = (Inr who, d') \<and>
         li_y7_id who = Y7Id (public_of E (li_signing_key who))"
proof -
  let ?sk = "SigningKey (rng_bytes E (os_draws (db_os d)) 32)"
  let ?pub = "public_of E ?sk"
  let ?w = "(db_os d)\<lparr>os_draws := os_draws (db_os d) + 1\<rparr>"
  have ok: "signing_key_ok ?sk"
    using ext_lawsD(7) [OF assms(1)] by (simp add: signing_key_ok_def rng_law_def)
  have len: "length ?pub = 32"
    using length_public_of [OF ext_lawsD(3) [OF assms(1)] ok] .
  have none: "users_get E d = (Inr None, d)"
    using assms(3,4) by (simp add: users_get_def query_def stmt_def action_simps)
  with assms(2) obtain ct nonce w' where seal: "field_seal E (db_dek d) (secret_bytes ?sk) ?pub ?w =
      (Inr (ct, nonce), w')"
    by (auto simp: identity_ensure_def users_insert_def on_os_seal_def on_os_def zoom_def
        action_simps signing_key_generate_def draw_def Let_def public_of_def
        split: prod.splits sum.splits)
  have opened: "field_open E (db_dek d) nonce ct ?pub = Inr (secret_bytes ?sk)"
    using field_open_sealed seal assms(1) ext_lawsD by blast
  have who: "who = \<lparr>li_signing_key = ?sk, li_y7_id = Y7Id ?pub\<rparr>"
    and d': "db_fault d' = db_fault d" "db_dek d' = db_dek d"
      "t_users (db_tables d') = [\<lparr>ur_y7_id = to_uri E (Y7Id ?pub), ur_pub = ?pub, ur_priv_enc = ct,
         ur_priv_nonce = nonce, ur_created_at = os_now w'\<rparr>]"
    using assms(2,3) none seal
    by (auto simp: identity_ensure_def users_insert_def on_os_seal_def on_os_def zoom_def
        action_simps signing_key_generate_def draw_def Let_def public_of_def stmt_checked_def
        from_pubkey_def split: option.splits)
  have p: "parse E (to_uri E (Y7Id ?pub)) = Inr (Y7Id ?pub)"
    using len by (simp add: parse_to_uri ext_lawsD(1) [OF assms(1)] y7id_ok_def)
  have "users_get E d' = (Inr (Some \<lparr>user_id = Y7Id ?pub, user_pub = ?pub,
      user_priv = secret_bytes ?sk, user_created_at = os_now w'\<rparr>), d')"
    using assms(4) d' opened len ok p
    by (simp add: users_get_def query_def stmt_def action_simps signing_key_ok_def)
  then show ?thesis
    by (simp add: identity_ensure_def andThen_Inr who signing_key_from_bytes_def)
qed

theorem identity_ensure_idempotent_witness:
  "\<exists>who d'. identity_ensure sample_ext sample_db = (Inr who, d') \<and>
     identity_ensure sample_ext d' = (Inr who, d')"
proof -
  obtain who d' where i: "identity_ensure sample_ext sample_db = (Inr who, d')"
    by (simp add: identity_ensure_def users_get_def query_def stmt_def action_simps sample_db_def
        empty_tables_def users_insert_def on_os_seal_def on_os_def zoom_def field_seal_def
        key_seal_def generate_nonce_def signing_key_generate_def draw_def Let_def stmt_checked_def
        sample_ext_def toy_encrypt_def)
  show ?thesis
    using identity_ensure_idempotent [OF sample_ext_laws i] i
    by (auto simp: sample_db_def empty_tables_def)
qed

section \<open>Wiping a peer\<close>

definition wipe_peer :: "ext \<Rightarrow> y7id \<Rightarrow> conversation_id \<Rightarrow> (db, unit) action" where
  "wipe_peer E peer conv =
     (let peer_uri = to_uri E peer in
      seqA (execute ''wipe messages'' (\<lambda>t.
              t\<lparr>t_messages := delete_where (\<lambda>r. mr_conv r = conv_bytes conv) (t_messages t)\<rparr>))
      (seqA (execute ''wipe sessions'' (\<lambda>t.
              t\<lparr>t_sessions := delete_where (\<lambda>r. sr_peer r = peer_uri) (t_sessions t)\<rparr>))
      (seqA (execute ''wipe sync_queue'' (\<lambda>t.
              t\<lparr>t_queue := delete_where (\<lambda>r. qr_target r = peer_uri) (t_queue t)\<rparr>))
      (seqA (execute ''wipe requests'' (\<lambda>t.
              t\<lparr>t_requests := delete_where (\<lambda>r. rr_peer r = peer_uri) (t_requests t)\<rparr>))
      (seqA (execute ''wipe contacts'' (\<lambda>t.
              t\<lparr>t_contacts := delete_where (\<lambda>r. cr_y7_id r = peer_uri) (t_contacts t)\<rparr>))
            (execute ''wipe peer_state'' (\<lambda>t.
              t\<lparr>t_peer_state := delete_where (\<lambda>r. pr_peer r = peer_uri) (t_peer_state t)\<rparr>)))))))"

text \<open>What a complete wipe leaves of the tables.\<close>

definition wiped :: "ext \<Rightarrow> y7id \<Rightarrow> conversation_id \<Rightarrow> tables \<Rightarrow> tables" where
  "wiped E peer conv t =
     (let uri = to_uri E peer in
      t\<lparr>t_messages := filter (\<lambda>r. mr_conv r \<noteq> conv_bytes conv) (t_messages t),
        t_sessions := filter (\<lambda>r. sr_peer r \<noteq> uri) (t_sessions t),
        t_queue := filter (\<lambda>r. qr_target r \<noteq> uri) (t_queue t),
        t_requests := filter (\<lambda>r. rr_peer r \<noteq> uri) (t_requests t),
        t_contacts := filter (\<lambda>r. cr_y7_id r \<noteq> uri) (t_contacts t),
        t_peer_state := filter (\<lambda>r. pr_peer r \<noteq> uri) (t_peer_state t)\<rparr>)"

lemma wipe_peer_ok:
  assumes "\<And>l. db_fault d l = None"
  shows "wipe_peer E peer conv d = (Inr (), d\<lparr>db_tables := wiped E peer conv (db_tables d)\<rparr>)"
  using assms
  by (simp add: wipe_peer_def execute_def stmt_def action_simps Let_def wiped_def delete_where_def)

text \<open>Whatever fails on the way, a wipe never touches the outbox of deletions or another peer.\<close>

lemma wipe_peer_deletes: "t_deletes (db_tables (snd (wipe_peer E peer conv d))) = t_deletes (db_tables d)"
  unfolding wipe_peer_def Let_def
  by (rule keeps_same [where f = "\<lambda>e. t_deletes (db_tables e)"], intro keeps_intros) simp_all

end
