(* ===== verification/Multiaddr.thy ===== *)
theory Multiaddr
  imports Identifiers Settings_Core "HOL-Library.Multiset"
begin

unbundle bit_operations_syntax

text \<open>
  The pure classifiers of multiaddresses: dial order (\<open>dial_priority.rs\<close>), LAN, relay and IP
  family tests and the peer-id mapping (\<open>swarm.rs\<close>), the extractors of the connectivity view
  (\<open>app.rs\<close>) and the address filters (\<open>app/contacts.rs\<close>, \<open>app/settings.rs\<close>). The predicates and
  the text of IP addresses are the standard library's.
\<close>

section \<open>IP addresses of the standard library\<close>

definition ip4_is_lan :: "byte \<Rightarrow> byte \<Rightarrow> byte \<Rightarrow> byte \<Rightarrow> bool" where
  "ip4_is_lan a b c d \<longleftrightarrow>
     a = 127 \<or>
     (a = 10 \<or> a = 172 \<and> 16 \<le> b \<and> b \<le> 31 \<or> a = 192 \<and> b = 168) \<or>
     (a = 169 \<and> b = 254) \<or>
     (a = 0 \<and> b = 0 \<and> c = 0 \<and> d = 0)"

definition ip6_loopback :: "16 word list \<Rightarrow> bool" where
  "ip6_loopback segs \<longleftrightarrow> segs = [0, 0, 0, 0, 0, 0, 0, 1]"

definition ip6_unspecified :: "16 word list \<Rightarrow> bool" where
  "ip6_unspecified segs \<longleftrightarrow> segs = [0, 0, 0, 0, 0, 0, 0, 0]"

definition show_ip4 :: "byte \<Rightarrow> byte \<Rightarrow> byte \<Rightarrow> byte \<Rightarrow> string" where
  "show_ip4 a b c d =
     show_nat (unat a) @ ''.'' @ show_nat (unat b) @ ''.'' @ show_nat (unat c) @ ''.'' @
     show_nat (unat d)"

fun show_hex :: "nat \<Rightarrow> string" where
  "show_hex n = (if n < 16 then [hex_digits ! n] else show_hex (n div 16) @ [hex_digits ! (n mod 16)])"

declare show_hex.simps [simp del]

definition show_segs :: "16 word list \<Rightarrow> string" where
  "show_segs segs = join_with CHR '':'' (map (\<lambda>w. show_hex (unat w)) segs)"

text \<open>The first of the longest runs of zero segments: where it starts and how long it is.\<close>

definition zero_run :: "16 word list \<Rightarrow> nat \<times> nat" where
  "zero_run segs =
     foldl (\<lambda>(s, n) i.
        let m = length (takeWhile (\<lambda>w. w = 0) (drop i segs)) in if n < m then (i, m) else (s, n))
       (0, 0) [0..<length segs]"

definition show_ip6 :: "16 word list \<Rightarrow> string" where
  "show_ip6 segs =
     (case segs of
        [a, b, c, d, e, f, g, h] \<Rightarrow>
          if a = 0 \<and> b = 0 \<and> c = 0 \<and> d = 0 \<and> e = 0 \<and> f = 0xffff
          then ''::ffff:'' @
            show_ip4 (ucast (drop_bit 8 g)) (ucast g) (ucast (drop_bit 8 h)) (ucast h)
          else
            (let (s, n) = zero_run segs in
             if n > 1 then show_segs (take s segs) @ ''::'' @ show_segs (drop (s + n) segs)
             else show_segs segs)
      | _ \<Rightarrow> show_segs segs)"

section \<open>Dial order\<close>

definition is_quic_proto :: "proto \<Rightarrow> bool" where
  "is_quic_proto p \<longleftrightarrow> p = QuicV1 \<or> p = Quic"

definition has_circuit :: "maddr \<Rightarrow> bool" where
  "has_circuit addr \<longleftrightarrow> P2pCircuit \<in> set addr"

definition tier_for :: "maddr \<Rightarrow> nat" where
  "tier_for addr =
     (let (is_circuit, is_quic) =
        foldl (\<lambda>(c, q) p.
            if p = P2pCircuit then (True, q) else if is_quic_proto p then (c, True) else (c, q))
          (False, False) addr
      in if is_circuit then 3 else if is_quic then 1 else 2)"

definition sort_addrs_for_dial :: "maddr list \<Rightarrow> maddr list" where
  "sort_addrs_for_dial addrs = sort_key tier_for addrs"

lemma tier_scan:
  "foldl (\<lambda>(c, q) p.
      if p = P2pCircuit then (True, q) else if is_quic_proto p then (c, True) else (c, q)) (c, q) addr =
   (c \<or> has_circuit addr, q \<or> (\<exists>p \<in> set addr. is_quic_proto p))"
  by (induction addr arbitrary: c q) (auto simp: has_circuit_def is_quic_proto_def)

lemma tier_for_eq:
  "tier_for addr =
     (if has_circuit addr then 3 else if \<exists>p \<in> set addr. is_quic_proto p then 1 else 2)"
  by (simp add: tier_for_def tier_scan)

lemma tier_for_circuit: "tier_for addr = 3 \<longleftrightarrow> has_circuit addr"
  by (simp add: tier_for_eq)

text \<open>Sorting by a key with three values is three filters, one after the other.\<close>

lemma sort_key_tiers:
  fixes f :: "'a \<Rightarrow> nat"
  assumes "\<And>x. f x = 1 \<or> f x = 2 \<or> f x = 3"
  shows "sort_key f xs =
           filter (\<lambda>x. f x = 1) xs @ filter (\<lambda>x. f x = 2) xs @ filter (\<lambda>x. f x = 3) xs"
    (is "_ = ?r")
proof (rule properties_for_sort_key)
  show "mset ?r = mset xs"
  proof (induction xs)
    case (Cons x xs)
    then show ?case
      using assms [of x] by auto
  qed simp
  have "sorted (map f (filter (\<lambda>x. f x = n) xs))" for n
    by (induction xs) auto
  then show "sorted (map f ?r)"
    by (auto simp: sorted_append)
  show "filter (\<lambda>y. f x = f y) ?r = filter (\<lambda>y. f x = f y) xs" if "x \<in> set ?r" for x
  proof -
    have "filter (\<lambda>y. k = f y) (filter (\<lambda>y. f y = n) xs) = (if k = n then filter (\<lambda>y. k = f y) xs else [])"
      for k n by (auto simp: filter_empty_conv intro!: filter_cong)
    then show ?thesis
      using assms [of x] by auto
  qed
qed

text \<open>
  The dial order is a stable permutation of the candidates that puts every direct address
  before every relayed one: no address is lost or invented, addresses of one tier keep their
  order, and a circuit address is tried only after all direct ones.
\<close>

theorem sort_addrs_for_dial_order:
  "mset (sort_addrs_for_dial addrs) = mset addrs \<and>
   sorted (map tier_for (sort_addrs_for_dial addrs)) \<and>
   (\<forall>k. filter (\<lambda>a. tier_for a = k) (sort_addrs_for_dial addrs) = filter (\<lambda>a. tier_for a = k) addrs) \<and>
   sort_addrs_for_dial addrs =
     filter (\<lambda>a. \<not> has_circuit a \<and> (\<exists>p \<in> set a. is_quic_proto p)) addrs @
     filter (\<lambda>a. \<not> has_circuit a \<and> \<not> (\<exists>p \<in> set a. is_quic_proto p)) addrs @
     filter has_circuit addrs"
proof -
  have tiers: "sort_addrs_for_dial addrs = filter (\<lambda>x. tier_for x = 1) addrs @
      filter (\<lambda>x. tier_for x = 2) addrs @ filter (\<lambda>x. tier_for x = 3) addrs"
    unfolding sort_addrs_for_dial_def by (rule sort_key_tiers) (simp add: tier_for_eq)
  have "sort_addrs_for_dial addrs =
     filter (\<lambda>a. \<not> has_circuit a \<and> (\<exists>p \<in> set a. is_quic_proto p)) addrs @
     filter (\<lambda>a. \<not> has_circuit a \<and> \<not> (\<exists>p \<in> set a. is_quic_proto p)) addrs @
     filter has_circuit addrs"
  proof -
    have "(\<lambda>x. tier_for x = 1) = (\<lambda>a. \<not> has_circuit a \<and> (\<exists>p \<in> set a. is_quic_proto p))"
      "(\<lambda>x. tier_for x = 2) = (\<lambda>a. \<not> has_circuit a \<and> \<not> (\<exists>p \<in> set a. is_quic_proto p))"
      "(\<lambda>x. tier_for x = 3) = has_circuit"
      by (auto simp: fun_eq_iff tier_for_eq)
    with tiers show ?thesis
      by simp
  qed
  moreover have "mset (sort_addrs_for_dial addrs) = mset addrs"
      "sorted (map tier_for (sort_addrs_for_dial addrs))"
      "filter (\<lambda>a. tier_for a = k) (sort_addrs_for_dial addrs) = filter (\<lambda>a. tier_for a = k) addrs" for k
    by (simp_all add: sort_addrs_for_dial_def sort_key_stable)
  ultimately show ?thesis
    by blast
qed

section \<open>Classification\<close>

fun multiaddr_is_lan :: "maddr \<Rightarrow> bool" where
  "multiaddr_is_lan [] = False"
| "multiaddr_is_lan (Ip4 a b c d # ps) = ip4_is_lan a b c d"
| "multiaddr_is_lan (Ip6 segs # ps) =
     (if ip6_loopback segs \<or> ip6_unspecified segs then True
      else let seg = hd segs in seg AND 0xfe00 = 0xfc00 \<or> seg AND 0xffc0 = 0xfe80)"
| "multiaddr_is_lan (p # ps) = multiaddr_is_lan ps"

text \<open>What the program reads of libp2p's \<open>ConnectedPoint\<close>.\<close>

record connected_point =
  cp_remote :: maddr
  cp_is_relayed :: bool

definition connection_kind_for :: "connected_point \<Rightarrow> connection_kind" where
  "connection_kind_for endpoint =
     (if cp_is_relayed endpoint then Relayed
      else if multiaddr_is_lan (cp_remote endpoint) then Lan
      else Internet)"

definition addr_class :: "maddr \<Rightarrow> string" where
  "addr_class addr =
     (if has_circuit addr then ''relay'' else if multiaddr_is_lan addr then ''lan'' else ''internet'')"

fun ip_version_scan :: "bool \<Rightarrow> maddr \<Rightarrow> string" where
  "ip_version_scan seen [] = (if seen then ''relay'' else ''unknown'')"
| "ip_version_scan seen (p # ps) =
     (case p of
        P2pCircuit \<Rightarrow> ip_version_scan True ps
      | Ip4 _ _ _ _ \<Rightarrow> if seen then ip_version_scan seen ps else ''v4''
      | Ip6 _ \<Rightarrow> if seen then ip_version_scan seen ps else ''v6''
      | Dns _ \<Rightarrow> if seen then ip_version_scan seen ps else ''dns''
      | Dns4 _ \<Rightarrow> if seen then ip_version_scan seen ps else ''dns''
      | Dns6 _ \<Rightarrow> if seen then ip_version_scan seen ps else ''dns''
      | _ \<Rightarrow> ip_version_scan seen ps)"

definition ip_version_str :: "maddr \<Rightarrow> string" where
  "ip_version_str addr = ip_version_scan False addr"

section \<open>Peers\<close>

definition peer_id_from_y7 :: "ext \<Rightarrow> y7id \<Rightarrow> peer res" where
  "peer_id_from_y7 E y =
     (case pk_from_bytes E (pubkey y) of
        Inl e \<Rightarrow> Inl (NetworkErr (''invalid Ed25519 pubkey in Y7Id: '' @ e))
      | Inr pk \<Rightarrow> Inr (peer_of_pk E pk))"

fun peer_id_from_multiaddr :: "maddr \<Rightarrow> peer option" where
  "peer_id_from_multiaddr [] = None"
| "peer_id_from_multiaddr (P2p p # ps) = Some p"
| "peer_id_from_multiaddr (_ # ps) = peer_id_from_multiaddr ps"

definition y7_id_from_peer_id :: "ext \<Rightarrow> peer \<Rightarrow> y7id option" where
  "y7_id_from_peer_id E p =
     (case multihash_of E p of
        None \<Rightarrow> None
      | Some (code, digest) \<Rightarrow>
          if code \<noteq> 0 then None
          else
            (case pk_decode E digest of
               None \<Rightarrow> None
             | Some (kind, raw) \<Rightarrow> if kind = ''ed25519'' then Some (from_pubkey raw) else None))"

lemma y7_of_peer_of_y7:
  assumes "peer_law E" "peer_id_from_y7 E y = Inr p"
  shows "y7_id_from_peer_id E p = Some y"
proof -
  from assms(2) obtain pk where "pk_from_bytes E (pubkey y) = Inr pk" and p: "p = peer_of_pk E pk"
    by (auto simp: peer_id_from_y7_def split: sum.splits)
  with assms(1) obtain d where "pk = pubkey y" "multihash_of E p = Some (0, d)"
    "pk_decode E d = Some (''ed25519'', pk)"
    unfolding peer_law_def by blast
  then show ?thesis
    by (simp add: y7_id_from_peer_id_def from_pubkey_def)
qed

lemma peer_id_from_y7_total:
  "peer_law E \<Longrightarrow> ed_point_ok E (pubkey y) \<Longrightarrow> peer_id_from_y7 E y = Inr (peer_of_pk E (pubkey y))"
  by (simp add: peer_id_from_y7_def peer_law_def)

section \<open>Extractors of the connectivity view (\<open>app.rs\<close>)\<close>

fun relay_host_scan :: "string option \<Rightarrow> maddr \<Rightarrow> string option" where
  "relay_host_scan host [] = None"
| "relay_host_scan host (p # ps) =
     (case p of
        Dns4 n \<Rightarrow> relay_host_scan (Some n) ps
      | Dns6 n \<Rightarrow> relay_host_scan (Some n) ps
      | Dns n \<Rightarrow> relay_host_scan (Some n) ps
      | Ip4 a b c d \<Rightarrow> relay_host_scan (Some (show_ip4 a b c d)) ps
      | Ip6 segs \<Rightarrow> relay_host_scan (Some (show_ip6 segs)) ps
      | P2pCircuit \<Rightarrow> host
      | _ \<Rightarrow> relay_host_scan host ps)"

definition extract_relay_via_host :: "maddr \<Rightarrow> string option" where
  "extract_relay_via_host addr = relay_host_scan None addr"

fun extract_transport :: "maddr \<Rightarrow> transport option" where
  "extract_transport [] = None"
| "extract_transport (p # ps) =
     (case p of
        QuicV1 \<Rightarrow> Some TransportQuic
      | Quic \<Rightarrow> Some TransportQuic
      | Tcp _ \<Rightarrow> Some TransportTcp
      | _ \<Rightarrow> extract_transport ps)"

fun first_ip :: "maddr \<Rightarrow> ip_version option" where
  "first_ip [] = None"
| "first_ip (p # ps) =
     (case p of Ip4 _ _ _ _ \<Rightarrow> Some V4 | Ip6 _ \<Rightarrow> Some V6 | _ \<Rightarrow> first_ip ps)"

definition extract_ip_version :: "maddr \<Rightarrow> ip_version option" where
  "extract_ip_version addr = (if has_circuit addr then None else first_ip addr)"

definition classify_origin :: "connection_kind \<Rightarrow> maddr \<Rightarrow> connection_origin" where
  "classify_origin kind addr =
     (case kind of
        Relayed \<Rightarrow> RelayOnly
      | Internet \<Rightarrow>
          (case extract_ip_version addr of
             Some V6 \<Rightarrow> PublicIpv6
           | Some V4 \<Rightarrow> PublicIpv4
           | None \<Rightarrow> DirectDial)
      | Lan \<Rightarrow> DirectDial
      | Direct \<Rightarrow> DirectDial
      | Connecting \<Rightarrow> OriginUnknown
      | Offline \<Rightarrow> OriginUnknown)"

section \<open>Filters\<close>

definition filter_addrs_for_mode :: "maddr list \<Rightarrow> dial_mode \<Rightarrow> maddr list" where
  "filter_addrs_for_mode addrs mode =
     (case mode of LanOnly \<Rightarrow> filter multiaddr_is_lan addrs | InternetMode \<Rightarrow> addrs)"

definition stale_circuit_age_ms :: int where
  "stale_circuit_age_ms = 24 * 60 * 60 * 1000"

definition circuit_cache_is_stale :: "int option \<Rightarrow> int \<Rightarrow> bool" where
  "circuit_cache_is_stale last_seen_at now =
     (case last_seen_at of
        Some ts \<Rightarrow> stale_circuit_age_ms < sat_sub64 now ts
      | None \<Rightarrow> True)"

definition contains_text :: "string \<Rightarrow> string \<Rightarrow> bool" where
  "contains_text sub s \<longleftrightarrow> (\<exists>i \<in> set [0..<length s + 1]. take (length sub) (drop i s) = sub)"

fun host_port_scan :: "string option \<Rightarrow> 16 word option \<Rightarrow> maddr \<Rightarrow> string option \<times> 16 word option" where
  "host_port_scan h p [] = (h, p)"
| "host_port_scan h p (q # qs) =
     (case q of
        Ip4 a b c d \<Rightarrow> host_port_scan (Some (show_ip4 a b c d)) p qs
      | Ip6 segs \<Rightarrow> host_port_scan (Some (''['' @ show_ip6 segs @ '']'')) p qs
      | Dns n \<Rightarrow> host_port_scan (Some n) p qs
      | Dns4 n \<Rightarrow> host_port_scan (Some n) p qs
      | Dns6 n \<Rightarrow> host_port_scan (Some n) p qs
      | Tcp n \<Rightarrow> host_port_scan h (Some n) qs
      | _ \<Rightarrow> host_port_scan h p qs)"

definition host_port_from_multiaddr :: "maddr \<Rightarrow> (string \<times> 16 word) option" where
  "host_port_from_multiaddr addr =
     (case host_port_scan None None addr of
        (Some h, Some p) \<Rightarrow> Some (h, p)
      | _ \<Rightarrow> None)"

text \<open>A relayed address of a relay on the local network counts as a LAN address.\<close>

lemma lan_relay_circuit_is_lan:
  "multiaddr_is_lan (Ip4 192 168 b c # Tcp n # P2p r # P2pCircuit # P2p t # [])"
  by (simp add: ip4_is_lan_def)

end
