(* ===== verification/Config.thy ===== *)
theory Config
  imports Dao_State Multiaddr
begin

text \<open>
  Bootstrap resolution (\<open>y7ke-app/src/config.rs\<close>): the user's list if it yields an address, else
  the compiled-in one, always with the built-in relay in front.
\<close>

text \<open>The compile-time default of \<open>y7ke-net\<close> is the same single descriptor.\<close>

definition default_bootstraps :: "string list" where
  "default_bootstraps = [default_relay_bootstrap]"

definition push_new :: "'a list \<Rightarrow> 'a \<Rightarrow> 'a list" where
  "push_new out m = (if m \<in> set out then out else out @ [m])"

definition parse_multiaddrs :: "ext \<Rightarrow> string list \<Rightarrow> maddr list" where
  "parse_multiaddrs E entries =
     foldl (\<lambda>out entry.
        foldl (\<lambda>out expanded.
           case maddr_parse E expanded of
             Inr m \<Rightarrow> push_new out m
           | Inl _ \<Rightarrow> out)
          out (expand_bootstrap entry))
       [] (filter (\<lambda>s. s \<noteq> []) (map trim entries))"

definition load_user_sources :: "ext \<Rightarrow> (db, maddr list) action" where
  "load_user_sources E =
     andThen (attempt (settings_get E)) (\<lambda>r.
       let fallback = parse_multiaddrs E default_bootstraps in
       case r of
         Inr s \<Rightarrow>
           if extra_bootstraps s \<noteq> [] then
             (let parsed = parse_multiaddrs E (extra_bootstraps s)
              in if parsed \<noteq> [] then ret parsed else ret fallback)
           else ret fallback
       | Inl _ \<Rightarrow> ret fallback)"

definition insert_front :: "'a \<Rightarrow> 'a list \<Rightarrow> 'a list" where
  "insert_front m result = (if m \<in> set result then result else m # result)"

definition load_bootstraps :: "ext \<Rightarrow> (db, maddr list) action" where
  "load_bootstraps E =
     andThen (load_user_sources E) (\<lambda>result.
       let defaults = parse_multiaddrs E [default_relay_bootstrap]
       in ret (foldr insert_front defaults result))"

section \<open>Facts\<close>

lemma distinct_push_new: "distinct out \<Longrightarrow> distinct (push_new out m)"
  by (simp add: push_new_def)

lemma set_push_new: "set (push_new out m) = insert m (set out)"
  by (auto simp: push_new_def)

text \<open>The loop over the expansions of one entry: a fold that keeps the list distinct.\<close>

definition push_parsed :: "ext \<Rightarrow> maddr list \<Rightarrow> string \<Rightarrow> maddr list" where
  "push_parsed E out s = (case maddr_parse E s of Inr m \<Rightarrow> push_new out m | Inl _ \<Rightarrow> out)"

lemma parse_multiaddrs_fold:
  "parse_multiaddrs E entries =
     foldl (push_parsed E) [] (concat (map expand_bootstrap (filter (\<lambda>s. s \<noteq> []) (map trim entries))))"
proof -
  have "foldl (\<lambda>out entry. foldl (push_parsed E) out (expand_bootstrap entry)) acc xs =
      foldl (push_parsed E) acc (concat (map expand_bootstrap xs))" for acc xs
    by (induction xs arbitrary: acc) simp_all
  moreover have "(\<lambda>out expanded. case maddr_parse E expanded of Inr m \<Rightarrow> push_new out m | Inl _ \<Rightarrow> out) =
      push_parsed E"
    by (simp add: fun_eq_iff push_parsed_def)
  ultimately show ?thesis
    by (simp add: parse_multiaddrs_def)
qed

lemma push_parsed_fold:
  "distinct out \<Longrightarrow> distinct (foldl (push_parsed E) out ss) \<and>
   set (foldl (push_parsed E) out ss) = set out \<union> {m. \<exists>s \<in> set ss. maddr_parse E s = Inr m}"
proof (induction ss arbitrary: out)
  case (Cons s ss)
  have "distinct (push_parsed E out s)"
    using Cons.prems by (auto simp: push_parsed_def distinct_push_new split: sum.splits)
  from Cons.IH [OF this] show ?case
    by (auto simp: push_parsed_def set_push_new split: sum.splits)
qed simp

lemma set_parse_multiaddrs:
  "distinct (parse_multiaddrs E entries)"
  "set (parse_multiaddrs E entries) =
     {m. \<exists>e \<in> set entries. trim e \<noteq> [] \<and> (\<exists>s \<in> set (expand_bootstrap (trim e)). maddr_parse E s = Inr m)}"
  using push_parsed_fold [of "[]" E] by (auto simp: parse_multiaddrs_fold)

lemma insert_front_all:
  "distinct result \<Longrightarrow> distinct (foldr insert_front ds result) \<and>
   set (foldr insert_front ds result) = set ds \<union> set result"
  by (induction ds) (auto simp: insert_front_def)

lemma load_user_sources_state [simp]: "snd (load_user_sources E d) = d"
  unfolding load_user_sources_def Let_def
  by (rule andThen_same) (auto simp: attempt_def split: prod.splits sum.splits dest: snd_same [OF settings_get_state])

lemma load_bootstraps_state [simp]: "snd (load_bootstraps E d) = d"
  by (simp add: load_bootstraps_def Let_def andThen_same)

text \<open>
  Loading the bootstraps never fails, never yields an address twice, and always contains
  every address of the built-in relay; beyond those it contains exactly the addresses that the
  user's descriptors expand to, unless the settings cannot be read or none of them parses.
\<close>

theorem load_bootstraps_contents:
  "\<exists>bs. load_bootstraps E d = (Inr bs, d) \<and> distinct bs \<and>
     set (parse_multiaddrs E [default_relay_bootstrap]) \<subseteq> set bs \<and>
     (case fst (settings_get E d) of
        Inr s \<Rightarrow> set bs = set (parse_multiaddrs E [default_relay_bootstrap]) \<union>
                        set (parse_multiaddrs E (extra_bootstraps s))
      | Inl _ \<Rightarrow> set bs = set (parse_multiaddrs E [default_relay_bootstrap]))"
proof -
  let ?def = "parse_multiaddrs E [default_relay_bootstrap]"
  obtain r where r: "settings_get E d = (r, d)"
    by (metis prod.collapse settings_get_state)
  let ?user = "case r of
      Inr s \<Rightarrow> if parse_multiaddrs E (extra_bootstraps s) \<noteq> [] then parse_multiaddrs E (extra_bootstraps s) else ?def
    | Inl _ \<Rightarrow> ?def"
  have empty: "parse_multiaddrs E [] = []"
    by (simp add: parse_multiaddrs_def)
  have "load_user_sources E d = (Inr ?user, d)"
    using r empty
    by (auto simp: load_user_sources_def attempt_def andThen_def Let_def default_bootstraps_def
        split: sum.splits)
  then have l: "load_bootstraps E d = (Inr (foldr insert_front ?def ?user), d)"
    by (simp add: load_bootstraps_def andThen_def Let_def)
  have "distinct ?user"
    by (simp add: set_parse_multiaddrs(1) split: sum.splits)
  note front = insert_front_all [OF this, of ?def]
  have "set ?def \<union> set ?user = (case r of
        Inr s \<Rightarrow> set ?def \<union> set (parse_multiaddrs E (extra_bootstraps s))
      | Inl _ \<Rightarrow> set ?def)"
    by (auto split: sum.splits)
  with l front r show ?thesis
    by (auto split: sum.splits)
qed

end
