(* ===== verification/Rate_Limit.thy ===== *)
theory Rate_Limit
  imports Externals
begin

text \<open>
  The per-peer rate limiter of inbound requests (\<open>y7ke-app/src/rate_limit.rs\<close>): three sliding
  windows per peer. Instants and durations are integers in milliseconds.
\<close>

record bucket_limit =
  max_events :: int
  window :: int

record bucket =
  bucket_events :: "int list"

lemma bucket_eta [simp]: "\<lparr>bucket_events = bucket_events b\<rparr> = b"
  by (cases b) simp

definition bucket_default :: bucket where
  "bucket_default = \<lparr>bucket_events = []\<rparr>"

definition try_consume :: "bucket_limit \<Rightarrow> int \<Rightarrow> bucket \<Rightarrow> bool \<times> bucket" where
  "try_consume limit now b =
     (let cutoff = now - window limit;
          kept = filter (\<lambda>t. cutoff \<le> t) (bucket_events b)
      in if max_events limit \<le> int (length kept) then (False, \<lparr>bucket_events = kept\<rparr>)
         else (True, \<lparr>bucket_events = kept @ [now]\<rparr>))"

record peer_buckets =
  pb_handshake :: bucket
  pb_msg :: bucket
  pb_sync :: bucket

definition peer_buckets_default :: peer_buckets where
  "peer_buckets_default =
     \<lparr>pb_handshake = bucket_default, pb_msg = bucket_default, pb_sync = bucket_default\<rparr>"

record rate_limiter =
  rl_inner :: "peer \<rightharpoonup> peer_buckets"
  handshake_limit :: bucket_limit
  msg_limit :: bucket_limit
  sync_limit :: bucket_limit

definition default_limits :: rate_limiter where
  "default_limits =
     \<lparr>rl_inner = Map.empty,
      handshake_limit = \<lparr>max_events = 60, window = 60000\<rparr>,
      msg_limit = \<lparr>max_events = 1200, window = 60000\<rparr>,
      sync_limit = \<lparr>max_events = 256, window = 60000\<rparr>\<rparr>"

text \<open>\<open>g.entry(peer).or_default()\<close>.\<close>

definition rl_entry :: "rate_limiter \<Rightarrow> peer \<Rightarrow> peer_buckets" where
  "rl_entry rl p = (case rl_inner rl p of None \<Rightarrow> peer_buckets_default | Some b \<Rightarrow> b)"

definition allow_handshake :: "peer \<Rightarrow> int \<Rightarrow> rate_limiter \<Rightarrow> bool \<times> rate_limiter" where
  "allow_handshake p now rl =
     (let e = rl_entry rl p; (ok, b) = try_consume (handshake_limit rl) now (pb_handshake e)
      in (ok, rl\<lparr>rl_inner := (rl_inner rl)(p \<mapsto> e\<lparr>pb_handshake := b\<rparr>)\<rparr>))"

definition allow_msg :: "peer \<Rightarrow> int \<Rightarrow> rate_limiter \<Rightarrow> bool \<times> rate_limiter" where
  "allow_msg p now rl =
     (let e = rl_entry rl p; (ok, b) = try_consume (msg_limit rl) now (pb_msg e)
      in (ok, rl\<lparr>rl_inner := (rl_inner rl)(p \<mapsto> e\<lparr>pb_msg := b\<rparr>)\<rparr>))"

definition allow_sync :: "peer \<Rightarrow> int \<Rightarrow> rate_limiter \<Rightarrow> bool \<times> rate_limiter" where
  "allow_sync p now rl =
     (let e = rl_entry rl p; (ok, b) = try_consume (sync_limit rl) now (pb_sync e)
      in (ok, rl\<lparr>rl_inner := (rl_inner rl)(p \<mapsto> e\<lparr>pb_sync := b\<rparr>)\<rparr>))"

definition rl_forget :: "peer \<Rightarrow> rate_limiter \<Rightarrow> rate_limiter" where
  "rl_forget p rl = rl\<lparr>rl_inner := (rl_inner rl)(p := None)\<rparr>"

section \<open>Histories\<close>

datatype rl_op = AllowHandshake peer | AllowMsg peer | AllowSync peer | Forget peer

datatype rpc = RpcHandshake | RpcMsg | RpcSync

fun rl_step :: "int \<Rightarrow> rl_op \<Rightarrow> rate_limiter \<Rightarrow> bool \<times> rate_limiter" where
  "rl_step now (AllowHandshake p) rl = allow_handshake p now rl"
| "rl_step now (AllowMsg p) rl = allow_msg p now rl"
| "rl_step now (AllowSync p) rl = allow_sync p now rl"
| "rl_step now (Forget p) rl = (False, rl_forget p rl)"

fun op_of :: "rpc \<Rightarrow> peer \<Rightarrow> rl_op" where
  "op_of RpcHandshake p = AllowHandshake p"
| "op_of RpcMsg p = AllowMsg p"
| "op_of RpcSync p = AllowSync p"

fun limit_of :: "rpc \<Rightarrow> rate_limiter \<Rightarrow> bucket_limit" where
  "limit_of RpcHandshake rl = handshake_limit rl"
| "limit_of RpcMsg rl = msg_limit rl"
| "limit_of RpcSync rl = sync_limit rl"

fun bucket_of :: "rpc \<Rightarrow> peer_buckets \<Rightarrow> bucket" where
  "bucket_of RpcHandshake e = pb_handshake e"
| "bucket_of RpcMsg e = pb_msg e"
| "bucket_of RpcSync e = pb_sync e"

text \<open>The times at which the limiter let a request of kind \<open>k\<close> from peer \<open>p\<close> through.\<close>

fun accepted :: "rpc \<Rightarrow> peer \<Rightarrow> rate_limiter \<Rightarrow> (int \<times> rl_op) list \<Rightarrow> int list" where
  "accepted k p rl [] = []"
| "accepted k p rl ((now, op) # ops) =
     (case rl_step now op rl of
        (ok, rl') \<Rightarrow> (if ok \<and> op = op_of k p then [now] else []) @ accepted k p rl' ops)"

definition events_of :: "rpc \<Rightarrow> peer \<Rightarrow> rate_limiter \<Rightarrow> int list" where
  "events_of k p rl = bucket_events (bucket_of k (rl_entry rl p))"

lemma rl_step_limit: "limit_of k (snd (rl_step now op rl)) = limit_of k rl"
  by (cases op; cases k)
    (simp_all add: allow_handshake_def allow_msg_def allow_sync_def rl_forget_def Let_def split_def)

lemma rl_step_other:
  "op \<noteq> op_of k p \<Longrightarrow> op \<noteq> Forget p \<Longrightarrow> events_of k p (snd (rl_step now op rl)) = events_of k p rl"
  by (cases op; cases k)
    (auto simp: events_of_def rl_entry_def allow_handshake_def allow_msg_def allow_sync_def
      rl_forget_def Let_def split_def)

lemma rl_step_same:
  "rl_step now (op_of k p) rl = (ok, rl') \<Longrightarrow>
   try_consume (limit_of k rl) now \<lparr>bucket_events = events_of k p rl\<rparr> = (ok, \<lparr>bucket_events = events_of k p rl'\<rparr>)"
  by (cases k)
    (auto simp: events_of_def rl_entry_def allow_handshake_def allow_msg_def allow_sync_def
      Let_def split_def prod_eq_iff)

text \<open>
  The history so far and the bucket: the bucket holds, in order, every accepted time of the
  trailing window, and no window of the history holds more than the limit.
\<close>

definition window_ok :: "bucket_limit \<Rightarrow> int list \<Rightarrow> bool" where
  "window_ok l ts \<longleftrightarrow> (\<forall>a. int (length (filter (\<lambda>t. a \<le> t \<and> t \<le> a + window l) ts)) \<le> max_events l)"

definition bucket_tracks :: "bucket_limit \<Rightarrow> int \<Rightarrow> int list \<Rightarrow> int list \<Rightarrow> bool" where
  "bucket_tracks l now hist evs \<longleftrightarrow>
     (\<forall>t \<in> set hist. t \<le> now) \<and>
     (\<forall>c. now - window l \<le> c \<longrightarrow> filter (\<lambda>t. c \<le> t) evs = filter (\<lambda>t. c \<le> t) hist)"

lemma bucket_tracks_mono:
  "bucket_tracks l now hist evs \<Longrightarrow> now \<le> now' \<Longrightarrow> bucket_tracks l now' hist evs"
  by (fastforce simp: bucket_tracks_def)

lemma try_consume_tracks:
  assumes "bucket_tracks l now hist evs" "window_ok l hist" "0 \<le> window l"
    and "try_consume l now \<lparr>bucket_events = evs\<rparr> = (ok, \<lparr>bucket_events = evs'\<rparr>)"
  shows "bucket_tracks l now (hist @ (if ok then [now] else [])) evs' \<and>
         window_ok l (hist @ (if ok then [now] else []))"
proof -
  let ?kept = "filter (\<lambda>t. now - window l \<le> t) evs"
  have same: "filter (\<lambda>t. c \<le> t) (filter (\<lambda>t. now - window l \<le> t) ts) = filter (\<lambda>t. c \<le> t) ts"
    if "now - window l \<le> c" for c ts
    using that by (auto intro: filter_cong)
  have kept: "?kept = filter (\<lambda>t. now - window l \<le> t) hist"
    using assms(1) by (simp add: bucket_tracks_def)
  show ?thesis
  proof (cases ok)
    case False
    with assms(4) have "evs' = ?kept"
      by (auto simp: try_consume_def Let_def split: if_splits)
    with False assms(1,2) same show ?thesis
      by (simp add: bucket_tracks_def)
  next
    case True
    with assms(4) have e: "evs' = ?kept @ [now]" and room: "int (length ?kept) < max_events l"
      by (auto simp: try_consume_def Let_def split: if_splits)
    have "window_ok l (hist @ [now])"
      unfolding window_ok_def
    proof
      fix a
      show "int (length (filter (\<lambda>t. a \<le> t \<and> t \<le> a + window l) (hist @ [now]))) \<le> max_events l"
      proof (cases "a \<le> now \<and> now \<le> a + window l")
        case False
        with assms(2) show ?thesis
          by (auto simp: window_ok_def)
      next
        case True
        have "length (filter (\<lambda>t. a \<le> t \<and> t \<le> a + window l) hist) \<le>
            length (filter (\<lambda>t. now - window l \<le> t) hist)"
        proof -
          have "filter (\<lambda>t. a \<le> t \<and> t \<le> a + window l) hist =
              filter (\<lambda>t. a \<le> t \<and> t \<le> a + window l) (filter (\<lambda>t. now - window l \<le> t) hist)"
            using True by (auto intro: filter_cong)
          then show ?thesis
            by (metis length_filter_le)
        qed
        with room kept True show ?thesis
          by simp
      qed
    qed
    with True e same assms(1,3) show ?thesis
      by (simp add: bucket_tracks_def)
  qed
qed

text \<open>How often a peer was forgotten in a stretch of time.\<close>

definition forgets :: "peer \<Rightarrow> int \<Rightarrow> int \<Rightarrow> (int \<times> rl_op) list \<Rightarrow> int" where
  "forgets p a b ops = int (length (filter (\<lambda>(t, op). op = Forget p \<and> a \<le> t \<and> t \<le> b) ops))"

definition in_window :: "int \<Rightarrow> int \<Rightarrow> int list \<Rightarrow> int" where
  "in_window a b ts = int (length (filter (\<lambda>t. a \<le> t \<and> t \<le> b) ts))"

lemma in_window_append [simp]: "in_window a b (ts @ us) = in_window a b ts + in_window a b us"
  by (simp add: in_window_def)

lemma in_window_outside:
  "(\<And>t. t \<in> set ts \<Longrightarrow> t < a \<or> b < t) \<Longrightarrow> in_window a b ts = 0"
  by (force simp: in_window_def filter_empty_conv)

lemma forgets_Cons:
  "forgets p a b ((t, op) # ops) = (if op = Forget p \<and> a \<le> t \<and> t \<le> b then 1 else 0) + forgets p a b ops"
  by (simp add: forgets_def)

lemma forgets_nonneg [simp]: "0 \<le> forgets p a b ops"
  by (simp add: forgets_def)

lemma accepted_times: "set (accepted k p rl ops) \<subseteq> fst ` set ops"
  by (induction k p rl ops rule: accepted.induct) (auto split: prod.splits)

text \<open>
  Forgetting a peer, which the event loop does when its last connection closes, empties its
  windows: reconnecting gives the peer its full allowance again within the same 60 seconds.
\<close>

lemma forget_resets: "events_of k p (rl_forget p rl) = []"
  by (cases k) (simp_all add: events_of_def rl_entry_def rl_forget_def peer_buckets_default_def
      bucket_default_def)

text \<open>
  The bound by induction over the history: a request is counted in the stretch since the last
  time that the peer was forgotten (\<open>hist\<close>), and being forgotten starts a new stretch.
\<close>

lemma accepted_bounded:
  assumes "sorted (map fst ops)" "\<forall>t \<in> fst ` set ops. now \<le> t"
    and "bucket_tracks (limit_of k rl) now hist (events_of k p rl)"
    and "window_ok (limit_of k rl) hist" "0 \<le> window (limit_of k rl)" "b = a + window (limit_of k rl)"
  shows "in_window a b (hist @ accepted k p rl ops) \<le> max_events (limit_of k rl) * (1 + forgets p a b ops)"
  using assms
proof (induction ops arbitrary: rl now hist)
  case Nil
  then show ?case
    by (simp add: window_ok_def in_window_def forgets_def)
next
  case (Cons o1 ops)
  obtain t op where o1: "o1 = (t, op)"
    by (cases o1)
  obtain ok rl' where step: "rl_step t op rl = (ok, rl')"
    by (cases "rl_step t op rl")
  let ?l = "limit_of k rl"
  have lim: "limit_of k rl' = ?l"
    using rl_step_limit [of k t op rl] step by simp
  have tr: "bucket_tracks ?l t hist (events_of k p rl)"
    using bucket_tracks_mono [OF Cons.prems(3)] Cons.prems(2) o1 by simp
  have sorted: "sorted (map fst ops)" "\<forall>t' \<in> fst ` set ops. t \<le> t'"
    using Cons.prems(1) o1 by auto
  have hist: "in_window a b hist \<le> max_events ?l" "0 \<le> max_events ?l"
    using Cons.prems(4,6) order_trans [OF of_nat_0_le_iff] by (auto simp: window_ok_def in_window_def)
  show ?case
  proof (cases "op = Forget p")
    case True
    have rest: "in_window a b ([] @ accepted k p rl' ops) \<le> max_events (limit_of k rl') * (1 + forgets p a b ops)"
      using sorted Cons.prems(5,6) lim True step forget_resets [of k p rl] hist(2)
      by (intro Cons.IH [where now = t]) (auto simp: bucket_tracks_def window_ok_def)
    have run: "accepted k p rl (o1 # ops) = accepted k p rl' ops"
      using o1 step True by (cases k) auto
    consider "a \<le> t \<and> t \<le> b" | "t < a" | "b < t"
      by linarith
    then have "in_window a b (hist @ accepted k p rl' ops) \<le> max_events ?l * (1 + forgets p a b (o1 # ops))"
    proof cases
      case 1
      with rest hist lim True show ?thesis
        unfolding o1 forgets_Cons by (simp add: distrib_left)
    next
      case 2
      then have "in_window a b hist = 0"
        using tr by (intro in_window_outside) (auto simp: bucket_tracks_def)
      with rest lim 2 show ?thesis
        unfolding o1 forgets_Cons by simp
    next
      case 3
      then have "in_window a b (accepted k p rl' ops) = 0"
        using accepted_times [of k p rl' ops] sorted(2) by (intro in_window_outside) force
      moreover have "max_events ?l \<le> max_events ?l * (1 + forgets p a b ops)"
        using hist(2) by (simp add: distrib_left)
      ultimately show ?thesis
        using hist(1) 3 unfolding o1 forgets_Cons by simp
    qed
    then show ?thesis
      unfolding run .
  next
    case False
    let ?new = "if ok \<and> op = op_of k p then [t] else []"
    have "bucket_tracks ?l t (hist @ ?new) (events_of k p rl') \<and> window_ok ?l (hist @ ?new)"
    proof (cases "op = op_of k p")
      case True
      then show ?thesis
        using try_consume_tracks [OF tr Cons.prems(4,5) rl_step_same [of t k p rl ok rl']] step
        by simp
    next
      case other: False
      then show ?thesis
        using rl_step_other [OF other False, of t rl] step tr Cons.prems(4) by simp
    qed
    then have "in_window a b ((hist @ ?new) @ accepted k p rl' ops) \<le> max_events ?l * (1 + forgets p a b ops)"
      using sorted Cons.prems(5,6) lim Cons.IH [of t rl' "hist @ ?new"] by simp
    then show ?thesis
      using False step unfolding o1 forgets_Cons by simp
  qed
qed

text \<open>
  C33. The rate limit: over any history of requests of every kind from any peers at
  non-decreasing times, a window of 60 seconds contains at most the limit of accepted requests
  of one kind from a peer (60 handshakes, 1200 messages, 256 sync requests), and that number
  once more for each time within the window that the peer was forgotten, which happens when its last
  connection closes.
\<close>

theorem rate_limit_window:
  assumes "sorted (map fst ops)"
  shows "in_window a (a + 60000) (accepted k p default_limits ops) \<le>
    (case k of RpcHandshake \<Rightarrow> 60 | RpcMsg \<Rightarrow> 1200 | RpcSync \<Rightarrow> 256) * (1 + forgets p a (a + 60000) ops)"
proof -
  let ?l = "limit_of k default_limits"
  have l: "window ?l = 60000" "max_events ?l = (case k of RpcHandshake \<Rightarrow> 60 | RpcMsg \<Rightarrow> 1200 | RpcSync \<Rightarrow> 256)"
    by (cases k; simp add: default_limits_def)+
  have "events_of k p default_limits = []"
    by (cases k) (simp_all add: events_of_def rl_entry_def default_limits_def
        peer_buckets_default_def bucket_default_def)
  moreover have "\<forall>t \<in> fst ` set ops. (case ops of [] \<Rightarrow> 0 | op # _ \<Rightarrow> fst op) \<le> t"
    using assms by (cases ops) auto
  ultimately have "in_window a (a + 60000) ([] @ accepted k p default_limits ops) \<le> max_events ?l * (1 + forgets p a (a + 60000) ops)"
    using assms l by (intro accepted_bounded) (simp_all add: bucket_tracks_def window_ok_def split: rpc.split)
  then show ?thesis
    by (simp add: l)
qed

theorem rate_limit_window_witness:
  "in_window 0 60000 (accepted RpcMsg [1] default_limits
     [(5, AllowMsg [1]), (6, AllowSync [2]), (7, Forget [1]), (7, AllowMsg [1])]) \<le> 2400 \<and>
   accepted RpcMsg [1] default_limits
     [(5, AllowMsg [1]), (6, AllowSync [2]), (7, Forget [1]), (7, AllowMsg [1])] = [5, 7]"
proof
  show "in_window 0 60000 (accepted RpcMsg [1] default_limits
     [(5, AllowMsg [1]), (6, AllowSync [2]), (7, Forget [1]), (7, AllowMsg [1])]) \<le> 2400"
    using rate_limit_window [of "[(5, AllowMsg [1]), (6, AllowSync [2]), (7, Forget [1]), (7, AllowMsg [1])]" 0 RpcMsg "[1]"]
    by (simp add: forgets_def)
  show "accepted RpcMsg [1] default_limits
      [(5, AllowMsg [1]), (6, AllowSync [2]), (7, Forget [1]), (7, AllowMsg [1])] = [5, 7]"
    by code_simp
qed

end
