(* ===== verification/Reconnect.thy ===== *)
theory Reconnect
  imports Prelude
begin

unbundle bit_operations_syntax

text \<open>
  Backoff schedules: reconnecting to an offline peer (\<open>reconnect.rs\<close>), retrying a queued
  message (\<open>event_loop.rs::next_retry_at\<close>) and upgrading a relayed connection
  (\<open>app.rs::should_attempt_upgrade\<close>). Durations are in milliseconds.
\<close>

definition base_ms :: int where
  "base_ms = 30 * 1000"

definition max_step :: nat where
  "max_step = 6"

definition ceiling_ms :: int where
  "ceiling_ms = 600 * 1000"

text \<open>\<open>Duration::checked_mul\<close>: \<open>None\<close> when the seconds leave 64 bits.\<close>

definition duration_checked_mul :: "int \<Rightarrow> 32 word \<Rightarrow> int option" where
  "duration_checked_mul d k =
     (if d * uint k < 2 ^ 64 * 1000 then Some (d * uint k) else None)"

definition cooldown_for :: "nat \<Rightarrow> int" where
  "cooldown_for step =
     (let factor = push_bit (min step max_step) (1 :: 32 word)
      in min (case duration_checked_mul base_ms factor of None \<Rightarrow> ceiling_ms | Some d \<Rightarrow> d) ceiling_ms)"

record backoff =
  bo_attempts :: nat
  bo_next_at :: int

definition backoff_ready :: "int \<Rightarrow> backoff" where
  "backoff_ready now = \<lparr>bo_attempts = 0, bo_next_at = now\<rparr>"

definition backoff_due :: "backoff \<Rightarrow> int \<Rightarrow> bool" where
  "backoff_due b now \<longleftrightarrow> bo_next_at b \<le> now"

text \<open>The attempt counter is a \<open>u32\<close> that saturates.\<close>

definition backoff_record :: "backoff \<Rightarrow> int \<Rightarrow> int \<Rightarrow> backoff" where
  "backoff_record b now jitter =
     (let wait = cooldown_for (bo_attempts b) + jitter
      in \<lparr>bo_attempts = sat_inc32 (bo_attempts b), bo_next_at = now + wait\<rparr>)"

definition should_attempt_upgrade :: "nat \<Rightarrow> bool" where
  "should_attempt_upgrade attempts \<longleftrightarrow>
     attempts \<in> {0, 5, 10} \<or> 10 < attempts \<and> attempts mod 20 = 0"

text \<open>
  The delay of the message queue; the shift is by the low six bits of its amount, and the
  products wrap.
\<close>

definition next_retry_at :: "int \<Rightarrow> int \<Rightarrow> int" where
  "next_retry_at now attempts =
     (let secs = wrap64 (sint (push_bit (nat (min attempts 7 mod 64)) (1 :: 64 word)) * 30);
          capped = min secs 3600
      in wrap64 (now + capped * 1000))"

section \<open>Facts\<close>

lemma cooldown_eq: "cooldown_for step = min (30000 * 2 ^ min step 6) 600000"
proof -
  have "min step 6 \<in> {0, 1, 2, 3, 4, 5, 6}"
    by auto
  then show ?thesis
    by (auto simp: cooldown_for_def max_step_def duration_checked_mul_def base_ms_def ceiling_ms_def
        Let_def)
qed

lemma cooldown_bounds: "30000 \<le> cooldown_for step" "cooldown_for step \<le> 600000"
proof -
  have "(1 :: int) \<le> 2 ^ min step 6"
    by simp
  then show "30000 \<le> cooldown_for step" "cooldown_for step \<le> 600000"
    by (simp_all add: cooldown_eq)
qed

text \<open>
  The retry delay is the documented one: for every number of attempts the code's shift of
  at most 7 and cap give exactly \<open>min (2^attempts * 30 s) 1 h\<close> after the current time, without
  overflow.
\<close>

theorem next_retry_at_formula:
  assumes "0 \<le> attempts" "is_i64 now" "now \<le> i64_max - 3600000"
  shows "next_retry_at now attempts = now + 1000 * min (2 ^ nat attempts * 30) 3600"
proof -
  have small: "attempts \<in> {0, 1, 2, 3, 4, 5, 6}" if "attempts < 7"
    using assms(1) that by auto
  have w: "wrap64 (now + d) = now + d" if "0 \<le> d" "d \<le> 3600000" for d
    using assms(2,3) that by (intro wrap64_id) (simp add: is_i64_def i64_max_def)
  have "(3840 :: int) = wrap64 (sint (push_bit 7 (1 :: 64 word)) * 30)"
    by (simp add: is_i64_def)
  show ?thesis
  proof (cases "attempts < 7")
    case True
    then show ?thesis
      using small w by (auto simp: next_retry_at_def Let_def is_i64_def)
  next
    case False
    then have "(2 :: int) ^ 7 \<le> 2 ^ nat attempts"
      by (intro power_increasing) auto
    with False show ?thesis
      using w by (simp add: next_retry_at_def Let_def is_i64_def)
  qed
qed

theorem next_retry_at_formula_witness:
  "next_retry_at 1700000000000 3 = 1700000000000 + 1000 * 240 \<and>
   next_retry_at 1700000000000 40 = 1700000000000 + 1000 * 3600"
  using next_retry_at_formula [of 3 1700000000000] next_retry_at_formula [of 40 1700000000000]
  by (simp add: is_i64_def i64_max_def)

text \<open>A history of attempts on one offline peer, each made when the backoff was due.\<close>

fun attempts_from :: "backoff \<Rightarrow> (int \<times> int) list \<Rightarrow> bool" where
  "attempts_from b [] = True"
| "attempts_from b ((now, jitter) # rest) =
     (backoff_due b now \<and> 0 \<le> jitter \<and> attempts_from (backoff_record b now jitter) rest)"

fun spaced :: "nat \<Rightarrow> (int \<times> int) list \<Rightarrow> bool" where
  "spaced n ((t, j) # (t', j') # rest) =
     (t + min (30000 * 2 ^ min n 6) 600000 + j \<le> t' \<and> spaced (sat_inc32 n) ((t', j') # rest))"
| "spaced n _ = True"

lemma attempts_spaced: "attempts_from b hist \<Longrightarrow> spaced (bo_attempts b) hist"
proof (induction hist arbitrary: b)
  case (Cons h hist)
  obtain t j where h: "h = (t, j)"
    by (cases h)
  show ?case
  proof (cases hist)
    case Nil
    then show ?thesis
      by (simp add: h)
  next
    case (Cons g rest)
    obtain t' j' where g: "g = (t', j')"
      by (cases g)
    have "spaced (bo_attempts (backoff_record b t j)) hist"
      using Cons.IH Cons.prems h by simp
    with Cons.prems show ?thesis
      by (simp add: h g Cons backoff_record_def backoff_due_def Let_def cooldown_eq)
  qed
qed simp

text \<open>
  C34. Reconnecting to an offline peer decays to once per ten minutes and never stops: the
  \<open>n\<close>-th consecutive attempt is followed by the next no sooner than \<open>min (30 s * 2^min n 6) 600 s\<close>
  plus its jitter, so from the sixth on by ten minutes; and a peer is always due again once that
  time has passed.
\<close>

theorem reconnect_schedule:
  assumes "attempts_from (backoff_ready t0) hist"
  shows "spaced 0 hist \<and>
    (\<forall>b now jitter. backoff_due (backoff_record b now jitter) (now + 600000 + jitter)) \<and>
    (\<forall>b now jitter t. 0 \<le> jitter \<longrightarrow> backoff_due (backoff_record b now jitter) t \<longrightarrow> now + 30000 \<le> t)"
proof (intro conjI allI impI)
  show "spaced 0 hist"
    using attempts_spaced [OF assms] by (simp add: backoff_ready_def)
next
  fix b now jitter
  show "backoff_due (backoff_record b now jitter) (now + 600000 + jitter)"
    using cooldown_bounds(2) [of "bo_attempts b"]
    by (simp add: backoff_due_def backoff_record_def Let_def)
next
  fix b now jitter t
  assume "0 \<le> jitter" "backoff_due (backoff_record b now jitter) t"
  then show "now + 30000 \<le> t"
    using cooldown_bounds(1) [of "bo_attempts b"]
    by (simp add: backoff_due_def backoff_record_def Let_def)
qed

theorem reconnect_schedule_witness:
  "attempts_from (backoff_ready 0) [(0, 100), (30100, 0), (90100, 7)] \<and>
   spaced 0 [(0, 100), (30100, 0), (90100, 7)]"
proof -
  have a: "attempts_from (backoff_ready 0) [(0, 100), (30100, 0), (90100, 7)]"
    by (simp add: backoff_ready_def backoff_due_def backoff_record_def cooldown_eq sat_inc32_def Let_def)
  then show ?thesis
    using reconnect_schedule [OF a] by simp
qed

end
