(* ===== verification/Handshake.thy ===== *)
theory Handshake
  imports Messaging
begin

text \<open>
  Session establishment (\<open>y7ke-app/src/handshake.rs\<close>): each side signs its ephemeral key
  together with the other's identity, and both derive the session key from the ephemeral
  exchange under a salt that does not depend on who initiated.
\<close>

definition session_kdf_info :: bytes where
  "session_kdf_info = as_bytes ''y7ke-session-v1''"

definition session_salt :: "ext \<Rightarrow> bytes \<Rightarrow> bytes \<Rightarrow> bytes" where
  "session_salt E a b =
     (let (lo, hi) = (if a \<le> b then (a, b) else (b, a)) in blake3 E (lo @ hi))"

definition open_initiator ::
  "ext \<Rightarrow> signing_key \<Rightarrow> bytes \<Rightarrow> bytes \<Rightarrow> string option \<Rightarrow>
   (os, handshake_req \<times> ephemeral_secret) action" where
  "open_initiator E me my_pubkey peer_pubkey greeting =
     andThen (ephemeral_generate E) (\<lambda>eph.
       let eph_pub = eph_public_key E eph;
           signed = eph_pub @ peer_pubkey;
           sig = sign E me signed
       in ret (\<lparr>initiator_ed25519_pub = my_pubkey,
                initiator_eph_x25519_pub = eph_pub,
                hs_sig = sig,
                hs_greeting = greeting\<rparr>, eph))"

definition session_key_of :: "ext \<Rightarrow> bytes \<Rightarrow> bytes \<Rightarrow> symmetric_key res" where
  "session_key_of E salt shared =
     (case hkdf_sha256 E salt shared session_kdf_info 32 of
        Inl e \<Rightarrow> Inl e
      | Inr key \<Rightarrow>
          if length key = 32 then Inr (SymmetricKey key)
          else Inl (CryptoErr ''hkdf produced wrong length''))"

definition finalize_initiator ::
  "ext \<Rightarrow> ephemeral_secret \<Rightarrow> bytes \<Rightarrow> bytes \<Rightarrow> handshake_resp \<Rightarrow> symmetric_key res" where
  "finalize_initiator E my_eph my_pubkey peer_pubkey resp =
     (if \<not> hr_accept resp then Inl (NetworkErr ''peer rejected handshake'')
      else case verifying_key_from_bytes E peer_pubkey of
        Inl e \<Rightarrow> Inl e
      | Inr peer_verifying \<Rightarrow>
          (let signed = responder_eph_x25519_pub resp @ my_pubkey in
           case verify E peer_verifying signed (hr_sig resp) of
             Inl e \<Rightarrow> Inl e
           | Inr _ \<Rightarrow>
               (let shared = eph_diffie_hellman E my_eph (responder_eph_x25519_pub resp)
                in session_key_of E (session_salt E my_pubkey peer_pubkey) shared)))"

definition reject_response :: "ext \<Rightarrow> signing_key \<Rightarrow> bytes \<Rightarrow> handshake_req \<Rightarrow> handshake_resp" where
  "reject_response E me my_pubkey req =
     \<lparr>responder_eph_x25519_pub = replicate 32 0,
      hr_sig = sign E me (replicate 32 0 @ initiator_ed25519_pub req),
      hr_accept = False\<rparr>"

definition respond ::
  "ext \<Rightarrow> signing_key \<Rightarrow> bytes \<Rightarrow> handshake_req \<Rightarrow>
   (os, handshake_resp \<times> symmetric_key \<times> y7id) action" where
  "respond E me my_pubkey req =
     (let initiator_id = from_pubkey (initiator_ed25519_pub req) in
      case verifying_key_from_bytes E (initiator_ed25519_pub req) of
        Inl e \<Rightarrow> throw e
      | Inr initiator_verifying \<Rightarrow>
          (let signed = initiator_eph_x25519_pub req @ my_pubkey in
           case verify E initiator_verifying signed (hs_sig req) of
             Inl e \<Rightarrow> throw e
           | Inr _ \<Rightarrow>
               andThen (ephemeral_generate E) (\<lambda>my_eph.
                 let my_eph_pub = eph_public_key E my_eph;
                     resp_sig = sign E me (my_eph_pub @ initiator_ed25519_pub req);
                     shared = eph_diffie_hellman E my_eph (initiator_eph_x25519_pub req);
                     salt = session_salt E (initiator_ed25519_pub req) my_pubkey
                 in case session_key_of E salt shared of
                      Inl e \<Rightarrow> throw e
                    | Inr key \<Rightarrow>
                        ret (\<lparr>responder_eph_x25519_pub = my_eph_pub, hr_sig = resp_sig,
                              hr_accept = True\<rparr>, key, initiator_id))))"

lemma session_salt_sym: "session_salt E a b = session_salt E b a"
  by (auto simp: session_salt_def Let_def)

lemma session_key_of_ok:
  assumes "hkdf_law E"
  obtains k where "session_key_of E salt shared = Inr (SymmetricKey k)" "length k = 32"
proof -
  obtain k where "hkdf_sha256 E salt shared session_kdf_info 32 = Inr k" "length k = 32"
    by (rule hkdf_sha256_ok [OF assms, of 32]) simp_all
  then show ?thesis
    using that [of k] by (simp add: session_key_of_def)
qed

text \<open>The responder answers only a request that the initiator signed for this responder.\<close>

lemma respond_InrD:
  assumes "respond E me pk req s = (Inr (resp, key, who), s')"
  shows "who = Y7Id (initiator_ed25519_pub req)"
    "ed_point_ok E (initiator_ed25519_pub req)"
    "ed_check E (initiator_ed25519_pub req) (initiator_eph_x25519_pub req @ pk) (hs_sig req)"
    "hr_accept resp" "s' = s\<lparr>os_draws := os_draws s + 1\<rparr>"
    "responder_eph_x25519_pub resp = x_public E (rng_bytes E (os_draws s) 32)"
    "hr_sig resp = sign E me (responder_eph_x25519_pub resp @ initiator_ed25519_pub req)"
    "session_key_of E (session_salt E (initiator_ed25519_pub req) pk)
       (x_dh E (rng_bytes E (os_draws s) 32) (initiator_eph_x25519_pub req)) = Inr key"
  using assms
  by (auto simp: respond_def verifying_key_from_bytes_def verify_def ephemeral_generate_def
      draw_def action_simps Let_def from_pubkey_def eph_public_key_def eph_diffie_hellman_def
      split: if_splits sum.splits)

lemma finalize_rejected:
  "\<not> hr_accept resp \<Longrightarrow>
   finalize_initiator E eph a b resp = Inl (NetworkErr ''peer rejected handshake'')"
  by (simp add: finalize_initiator_def)

text \<open>
  Key agreement of the handshake: when the request that one party opens for another is
  answered by that other party, the initiator accepts the answer, and both hold the same
  session key; and the responder learns the initiator's identity.
\<close>

theorem handshake_agrees:
  assumes laws: "ext_laws E" and a: "signing_key_ok a" and b: "signing_key_ok b"
    and o: "open_initiator E a (public_of E a) (public_of E b) g s = (Inr (req, eph), s1)"
    and r: "respond E b (public_of E b) req t = (Inr (resp, key, who), t1)"
  shows "finalize_initiator E eph (public_of E a) (public_of E b) resp = Inr key \<and>
         who = Y7Id (public_of E a)"
proof (rule conjI)
  from o have eph: "eph = EphemeralSecret (rng_bytes E (os_draws s) 32)"
    and req: "initiator_ed25519_pub req = public_of E a"
      "initiator_eph_x25519_pub req = x_public E (eph_bytes eph)"
    by (auto simp: open_initiator_def ephemeral_generate_def draw_def action_simps Let_def
        eph_public_key_def)
  note f = respond_InrD [OF r]
  have "length (rng_bytes E i 32) = 32" for i
    using ext_lawsD(7) [OF laws] by (simp add: rng_law_def)
  then have dh: "x_dh E (eph_bytes eph) (responder_eph_x25519_pub resp) =
      x_dh E (rng_bytes E (os_draws t) 32) (initiator_eph_x25519_pub req)"
    using ext_lawsD(4) [OF laws] by (simp add: f req eph x_dh_commute)
  show "finalize_initiator E eph (public_of E a) (public_of E b) resp = Inr key"
    using laws a b f dh req
    by (simp add: finalize_initiator_def verifying_key_of_public verify_signed ext_lawsD Let_def
        eph_diffie_hellman_def)
  show "who = Y7Id (public_of E a)"
    using f(1) req by simp
qed

text \<open>The responder does answer an honest request.\<close>

lemma respond_honest:
  assumes laws: "ext_laws E" and a: "signing_key_ok a"
    and o: "open_initiator E a (public_of E a) pk g s = (Inr (req, eph), s1)"
  obtains resp key who t1 where "respond E b pk req t = (Inr (resp, key, who), t1)"
proof -
  from o have req: "initiator_ed25519_pub req = public_of E a"
      "hs_sig req = sign E a (initiator_eph_x25519_pub req @ pk)"
    by (auto simp: open_initiator_def ephemeral_generate_def draw_def action_simps Let_def)
  obtain k where "session_key_of E (session_salt E (public_of E a) pk)
      (eph_diffie_hellman E (EphemeralSecret (rng_bytes E (os_draws t) 32))
        (initiator_eph_x25519_pub req)) = Inr (SymmetricKey k)"
    by (rule session_key_of_ok [OF ext_lawsD(5) [OF laws]]) 
  then show ?thesis
    using that laws a req
    by (simp add: respond_def verifying_key_of_public verify_signed ext_lawsD Let_def
        ephemeral_generate_def draw_def action_simps)
qed

theorem handshake_agrees_witness:
  "\<exists>req eph s1 resp key who t1.
     open_initiator sample_ext alice (public_of sample_ext alice) (public_of sample_ext bob)
       (Some ''hello'') sample_os = (Inr (req, eph), s1) \<and>
     respond sample_ext bob (public_of sample_ext bob) req s1 = (Inr (resp, key, who), t1) \<and>
     finalize_initiator sample_ext eph (public_of sample_ext alice) (public_of sample_ext bob) resp = Inr key"
proof -
  obtain req eph s1 where o: "open_initiator sample_ext alice (public_of sample_ext alice)
      (public_of sample_ext bob) (Some ''hello'') sample_os = (Inr (req, eph), s1)"
    by (simp add: open_initiator_def ephemeral_generate_def draw_def action_simps Let_def)
  obtain resp key who t1 where r: "respond sample_ext bob (public_of sample_ext bob) req s1 =
      (Inr (resp, key, who), t1)"
    by (rule respond_honest [OF sample_ext_laws alice_bob_ok(1) o])
  show ?thesis
    using handshake_agrees [OF sample_ext_laws alice_bob_ok o r] o r by blast
qed

end
