(* ===== verification/Net_Handle.thy ===== *)
theory Net_Handle
  imports Wire
begin

text \<open>
  The surface of the network task (\<open>y7ke-net/src/handle.rs\<close>): the commands that it takes, the
  events that it publishes, and the cell that lets exactly one subscriber of an event answer
  its request. A \<open>oneshot::Sender\<close>, a \<open>ResponseChannel\<close> and a \<open>ConnectionId\<close> are numbers.
\<close>

type_synonym connection_id = nat
type_synonym channel = nat
type_synonym slot = nat

section \<open>A value that is taken once\<close>

text \<open>
  The cell is shared by all clones of an event. Its lock cannot be poisoned, because nothing
  panics while it is held.
\<close>

type_synonym 'a take_once = "'a option"

definition take_once_new :: "'a \<Rightarrow> 'a take_once" where
  "take_once_new x = Some x"

definition take_once_take :: "'a take_once \<Rightarrow> 'a option \<times> 'a take_once" where
  "take_once_take c = (c, None)"

definition take_once_is_some :: "'a take_once \<Rightarrow> bool" where
  "take_once_is_some c \<longleftrightarrow> c \<noteq> None"

section \<open>Commands and events\<close>

datatype net_command =
    Dial y7id slot
  | DialAddress maddr
  | FindPeer y7id slot
  | SendHandshake peer handshake_req slot
  | SendMsg peer message_envelope slot
  | SendSync peer sync_req slot
  | RespondHandshake channel handshake_resp
  | RespondMsg channel bool
  | RespondSync channel sync_resp
  | UpdateBootstraps "maddr list"
  | CheckLive y7id slot
  | DisconnectPeer y7id
  | ApplyDialMode dial_mode
  | Shutdown

datatype net_event =
    Listening maddr
  | PeerDiscovered peer "maddr list" "y7id option"
  | ConnectionEstablished peer connection_id connection_kind maddr
  | ConnectionClosed peer connection_id
  | ConnectionUpgraded peer connection_id connection_kind
  | ConnectionUpgradeFailed peer string
  | NatStatus maddr peer bool
  | HandshakeReceived peer handshake_req channel
  | MsgReceived peer message_envelope channel
  | SyncReceived peer sync_req channel
  | NetError string

text \<open>
  Answering through the cell of an event: the channel is claimed, and the response goes to the
  task as a command; a subscriber that comes later is refused.
\<close>

definition respond_take ::
  "string \<Rightarrow> (channel \<Rightarrow> net_command) \<Rightarrow> channel take_once \<Rightarrow> net_command res \<times> channel take_once" where
  "respond_take what respond c =
     (case take_once_take c of
        (None, c') \<Rightarrow> (Inl (NetworkErr (what @ '' response channel already taken or expired'')), c')
      | (Some ch, c') \<Rightarrow> (Inr (respond ch), c'))"

definition respond_handshake_take ::
  "channel take_once \<Rightarrow> handshake_resp \<Rightarrow> net_command res \<times> channel take_once" where
  "respond_handshake_take c r = respond_take ''handshake'' (\<lambda>ch. RespondHandshake ch r) c"

definition respond_msg_take :: "channel take_once \<Rightarrow> bool \<Rightarrow> net_command res \<times> channel take_once" where
  "respond_msg_take c r = respond_take ''msg'' (\<lambda>ch. RespondMsg ch r) c"

definition respond_sync_take ::
  "channel take_once \<Rightarrow> sync_resp \<Rightarrow> net_command res \<times> channel take_once" where
  "respond_sync_take c r = respond_take ''sync'' (\<lambda>ch. RespondSync ch r) c"

text \<open>Of any subscribers that answer the same request, the first one does and no other.\<close>

fun respond_all ::
  "(channel take_once \<Rightarrow> 'r \<Rightarrow> net_command res \<times> channel take_once) \<Rightarrow>
   channel take_once \<Rightarrow> 'r list \<Rightarrow> net_command res list" where
  "respond_all f c [] = []"
| "respond_all f c (r # rs) = (case f c r of (a, c') \<Rightarrow> a # respond_all f c' rs)"

lemma respond_all_take:
  "respond_all (\<lambda>c r. respond_take what (\<lambda>ch. f ch r) c) None rs =
     replicate (length rs) (Inl (NetworkErr (what @ '' response channel already taken or expired'')))"
  by (induction rs) (simp_all add: respond_take_def take_once_take_def)

lemma first_responder_wins:
  "respond_all respond_msg_take (take_once_new ch) (r # rs) =
     Inr (RespondMsg ch r) #
     replicate (length rs) (Inl (NetworkErr ''msg response channel already taken or expired''))"
  using respond_all_take [of "''msg''" RespondMsg rs]
  by (simp add: respond_msg_take_def [abs_def] take_once_new_def)
    (simp add: respond_take_def take_once_take_def)

end
