(* ===== verification/App_State.thy ===== *)
theory App_State
  imports Config Rate_Limit Reconnect Handshake Net_Handle "HOL-Library.AList"
begin

text \<open>
  The application's state (\<open>y7ke-app/src/app.rs\<close>) and what its handlers act on: the database,
  the network handle, the caches and counters of \<open>AppInner\<close>, and the broadcast channel of
  \<open>AppEvent\<close>s.

  A hash map that the code iterates over is an association list, whose order stands for the
  unspecified order of the iteration; one that is only looked up is a map. Locks and atomics
  are plain fields: a handler is one sequential action. What is sent on the wire, and every
  command given to the swarm, is appended to \<open>app_wire\<close>; what comes back is the environment's
  choice (\<open>net_env\<close>), which may depend on everything that went out before; \<open>ne_tcp\<close> is the
  round-trip time of a TCP connection that opens within its time bound. A task that the code
  spawns is appended to \<open>app_tasks\<close>.
\<close>

section \<open>Connections\<close>

record connection_meta =
  cm_via_host :: "string option"
  cm_transport :: "transport option"
  cm_ip_version :: "ip_version option"
  cm_origin :: connection_origin

definition meta_default :: connection_meta where
  "meta_default = \<lparr>cm_via_host = None, cm_transport = None, cm_ip_version = None,
     cm_origin = OriginUnknown\<rparr>"

record conn_entry =
  ce_kind :: connection_kind
  ce_meta :: connection_meta
  ce_opened_at :: int

type_synonym conns = "(connection_id \<times> conn_entry) list"

record nat_status_state =
  nat_verdict :: nat_reachability
  nat_failures :: nat

definition nat_status_default :: nat_status_state where
  "nat_status_default = \<lparr>nat_verdict = NatUnknown, nat_failures = 0\<rparr>"

record ping_state =
  ping_last_ms :: "nat option"
  ping_last_failed :: bool

definition ping_default :: ping_state where
  "ping_default = \<lparr>ping_last_ms = None, ping_last_failed = False\<rparr>"

section \<open>The network\<close>

datatype wire =
    WSendHandshake peer handshake_req
  | WSendMsg peer message_envelope
  | WSendSync peer sync_req
  | WRespondHandshake channel handshake_resp
  | WRespondMsg channel bool
  | WRespondSync channel sync_resp
  | WDial y7id
  | WDialAddress maddr
  | WFindPeer y7id
  | WCheckLive y7id
  | WDisconnect y7id
  | WUpdateBootstraps "maddr list"
  | WApplyDialMode dial_mode
  | WShutdown

record net_env =
  ne_handshake :: "wire list \<Rightarrow> peer \<Rightarrow> handshake_req \<Rightarrow> handshake_resp res"
  ne_msg :: "wire list \<Rightarrow> peer \<Rightarrow> message_envelope \<Rightarrow> bool res"
  ne_sync :: "wire list \<Rightarrow> peer \<Rightarrow> sync_req \<Rightarrow> sync_resp res"
  ne_command :: "wire list \<Rightarrow> wire \<Rightarrow> app_error option"
  ne_dial :: "wire list \<Rightarrow> y7id \<Rightarrow> bool res"
  ne_find :: "wire list \<Rightarrow> y7id \<Rightarrow> maddr list res"
  ne_live :: "wire list \<Rightarrow> y7id \<Rightarrow> bool res"
  ne_timeout :: "wire list \<Rightarrow> bool"
  ne_tcp :: "wire list \<Rightarrow> string \<Rightarrow> nat option"

datatype task =
    PushOne message_id y7id peer message_envelope
  | KickSync y7id peer
  | FlushAndDisconnect y7id peer

section \<open>The state\<close>

record app =
  app_db :: db
  app_net :: net_env
  app_me :: signing_key
  my_pubkey :: bytes
  my_y7_id :: y7id
  presence :: "(y7id \<times> connection_kind) list"
  connections :: "y7id \<rightharpoonup> conns"
  app_limiter :: rate_limiter
  bootstrap_pings :: "string \<rightharpoonup> ping_state"
  nat_status :: nat_status_state
  dcutr_attempts :: nat
  dcutr_successes :: nat
  dcutr_failures :: nat
  dcutr_recent_failures :: "string list"
  rl_drops_handshake :: nat
  rl_drops_msg :: nat
  rl_drops_sync :: nat
  nat_probe_detail :: "(string \<times> string) option"
  wake_pending :: bool
  upgrade_backoff :: "y7id \<rightharpoonup> nat"
  reconnect_backoff :: "y7id \<rightharpoonup> backoff"
  syncing :: "y7id set"
  connection_meta_of :: "y7id \<rightharpoonup> connection_meta"
  transition_ring :: "transport_transition list"
  app_events :: "app_event list"
  app_wire :: "wire list"
  app_tasks :: "task list"

definition on_db :: "(db, 'a) action \<Rightarrow> (app, 'a) action" where
  "on_db = zoom app_db (\<lambda>d s. s\<lparr>app_db := d\<rparr>)"

interpretation db_in_app: substate app_db "\<lambda>d s. s\<lparr>app_db := d\<rparr>"
  by unfold_locales simp_all

definition app_os :: "(os, 'a) action \<Rightarrow> (app, 'a) action" where
  "app_os m = on_db (on_os m)"

definition emit :: "app_event \<Rightarrow> (app, unit) action" where
  "emit e = modify (\<lambda>s. s\<lparr>app_events := app_events s @ [e]\<rparr>)"

definition spawn :: "task \<Rightarrow> (app, unit) action" where
  "spawn t = modify (\<lambda>s. s\<lparr>app_tasks := app_tasks s @ [t]\<rparr>)"

definition app_now_ms :: "(app, int) action" where
  "app_now_ms = on_db now_ms"

definition instant_now :: "(app, int) action" where
  "instant_now = asks (\<lambda>s. os_instant (db_os (app_db s)))"

text \<open>Send, and return what the environment answers to this very request.\<close>

definition net_call :: "wire \<Rightarrow> (net_env \<Rightarrow> wire list \<Rightarrow> 'a res) \<Rightarrow> (app, 'a) action" where
  "net_call w answer s = (answer (app_net s) (app_wire s), s\<lparr>app_wire := app_wire s @ [w]\<rparr>)"

definition send_handshake :: "peer \<Rightarrow> handshake_req \<Rightarrow> (app, handshake_resp) action" where
  "send_handshake p r = net_call (WSendHandshake p r) (\<lambda>n h. ne_handshake n h p r)"

definition send_msg :: "peer \<Rightarrow> message_envelope \<Rightarrow> (app, bool) action" where
  "send_msg p e = net_call (WSendMsg p e) (\<lambda>n h. ne_msg n h p e)"

definition send_sync :: "peer \<Rightarrow> sync_req \<Rightarrow> (app, sync_resp) action" where
  "send_sync p r = net_call (WSendSync p r) (\<lambda>n h. ne_sync n h p r)"

definition net_dial :: "y7id \<Rightarrow> (app, bool) action" where
  "net_dial y = net_call (WDial y) (\<lambda>n h. ne_dial n h y)"

definition find_peer :: "y7id \<Rightarrow> (app, maddr list) action" where
  "find_peer y = net_call (WFindPeer y) (\<lambda>n h. ne_find n h y)"

definition check_live :: "y7id \<Rightarrow> (app, bool) action" where
  "check_live y = net_call (WCheckLive y) (\<lambda>n h. ne_live n h y)"

definition net_command :: "wire \<Rightarrow> (app, unit) action" where
  "net_command w = net_call w (\<lambda>n h. case ne_command n h w of None \<Rightarrow> Inr () | Some e \<Rightarrow> Inl e)"

text \<open>
  \<open>tokio::time::timeout\<close> around a send: \<open>None\<close> when the outer timeout fires first. The request
  has gone out in either case.
\<close>

definition with_timeout :: "(app, 'a) action \<Rightarrow> (app, app_error + 'a option) action" where
  "with_timeout m s =
     (case m s of (r, s') \<Rightarrow>
        if ne_timeout (app_net s) (app_wire s) then (Inr (Inr None), s')
        else (Inr (case r of Inl e \<Rightarrow> Inl e | Inr x \<Rightarrow> Inr (Some x)), s'))"

section \<open>Presence\<close>

definition best_conn :: "conns \<Rightarrow> connection_kind \<times> connection_meta" where
  "best_conn conns =
     (case max_by_key (\<lambda>e. connection_kind_precedence (ce_kind e)) (map snd conns) of
        Some e \<Rightarrow> (ce_kind e, ce_meta e)
      | None \<Rightarrow> (Offline, meta_default))"

definition best_of :: "y7id \<Rightarrow> app \<Rightarrow> connection_kind \<times> connection_meta" where
  "best_of y s = (case connections s y of Some cs \<Rightarrow> best_conn cs | None \<Rightarrow> (Offline, meta_default))"

definition refresh_presence ::
  "y7id \<Rightarrow> (app, connection_kind \<times> transport option \<times> ip_version option \<times> connection_origin) action" where
  "refresh_presence y =
     andThen (asks (best_of y)) (\<lambda>(best, meta).
       seqA
         (if best = Offline
          then modify (\<lambda>s. s\<lparr>presence := AList.delete y (presence s),
                            connection_meta_of := (connection_meta_of s)(y := None)\<rparr>)
          else modify (\<lambda>s. s\<lparr>presence := AList.update y best (presence s),
                            connection_meta_of := (connection_meta_of s)(y \<mapsto> meta)\<rparr>))
         (ret (best, cm_transport meta, cm_ip_version meta, cm_origin meta)))"

definition transition_ring_cap :: nat where
  "transition_ring_cap = 48"

definition record_transition ::
  "ext \<Rightarrow> y7id \<Rightarrow> connection_kind \<Rightarrow> transport option \<Rightarrow> ip_version option \<Rightarrow> connection_origin \<Rightarrow>
   (app, unit) action" where
  "record_transition E y to tr ip origin =
     andThen app_now_ms (\<lambda>now. modify (\<lambda>s.
       let uri = to_uri E y;
           last_one = List.find (\<lambda>t. tt_y7_id t = uri) (rev (transition_ring s));
           same = (case last_one of
                     Some prev \<Rightarrow> tt_to prev = to \<and> tt_transport prev = tr \<and> tt_origin prev = origin
                   | None \<Rightarrow> False)
       in if same then s
          else s\<lparr>transition_ring := ring_push transition_ring_cap (transition_ring s)
                  \<lparr>tt_y7_id = uri, tt_from = map_option tt_to last_one, tt_to = to,
                   tt_transport = tr, tt_ip_version = ip, tt_origin = origin, tt_at_ms = now\<rparr>\<rparr>))"

text \<open>The \<open>PresenceChanged\<close> event that every presence update sends.\<close>

definition emit_presence ::
  "ext \<Rightarrow> y7id \<Rightarrow> connection_kind \<times> transport option \<times> ip_version option \<times> connection_origin \<Rightarrow>
   (app, unit) action" where
  "emit_presence E y p =
     (case p of (best, tr, ip, origin) \<Rightarrow> emit (PresenceChanged (to_uri E y) best tr ip origin))"

section \<open>Facts\<close>

text \<open>How the primitives run.\<close>

lemma run_emit [simp]: "emit e s = (Inr (), s\<lparr>app_events := app_events s @ [e]\<rparr>)"
  by (simp add: emit_def)

lemma run_spawn [simp]: "spawn t s = (Inr (), s\<lparr>app_tasks := app_tasks s @ [t]\<rparr>)"
  by (simp add: spawn_def)

lemma run_app_now_ms [simp]: "app_now_ms s = (Inr (os_now (db_os (app_db s))), s)"
  by (simp add: app_now_ms_def on_db_def zoom_def)

lemma run_instant_now [simp]: "instant_now s = (Inr (os_instant (db_os (app_db s))), s)"
  by (simp add: instant_now_def)

lemma run_on_db: "on_db m s = (fst (m (app_db s)), s\<lparr>app_db := snd (m (app_db s))\<rparr>)"
  by (simp add: on_db_def zoom_def split: prod.splits)

lemma on_db_read: "snd (m (app_db s)) = app_db s \<Longrightarrow> on_db m s = (fst (m (app_db s)), s)"
  by (simp add: run_on_db)

lemma net_call_state: "snd (net_call w f s) = s\<lparr>app_wire := app_wire s @ [w]\<rparr>"
  by (simp add: net_call_def)

text \<open>
  Which predicates the primitives keep. A predicate over the caches is kept by everything that
  works on the database, the wire, the events and the tasks.
\<close>

lemma keeps_on_db [keeps_cache]:
  "(\<And>s d. P s \<Longrightarrow> P (s\<lparr>app_db := d\<rparr>)) \<Longrightarrow> keeps P (on_db m)"
  by (simp add: keeps_def run_on_db)

lemma keeps_emit [keeps_intros]:
  "(\<And>s es. P s \<Longrightarrow> P (s\<lparr>app_events := es\<rparr>)) \<Longrightarrow> keeps P (emit e)"
  by (simp add: keeps_def)

lemma keeps_spawn [keeps_intros]:
  "(\<And>s ts. P s \<Longrightarrow> P (s\<lparr>app_tasks := ts\<rparr>)) \<Longrightarrow> keeps P (spawn t)"
  by (simp add: keeps_def)

lemma keeps_net_call [keeps_intros]:
  "(\<And>s ws. P s \<Longrightarrow> P (s\<lparr>app_wire := ws\<rparr>)) \<Longrightarrow> keeps P (net_call w f)"
  by (simp add: keeps_def net_call_state)

lemma keeps_app_now_ms [keeps_intros]: "keeps P app_now_ms"
  by (simp add: keeps_def)

lemma keeps_instant_now [keeps_intros]: "keeps P instant_now"
  by (simp add: keeps_def)

lemma keeps_with_timeout [keeps_intros]: "keeps P m \<Longrightarrow> keeps P (with_timeout m)"
  by (fastforce simp: keeps_def with_timeout_def split: prod.splits)

lemma keeps_on_db_same:
  "keeps Q m \<Longrightarrow> (\<And>s d. P s \<Longrightarrow> Q (app_db s) \<and> (Q d \<longrightarrow> P (s\<lparr>app_db := d\<rparr>))) \<Longrightarrow> keeps P (on_db m)"
  by (fastforce simp: keeps_def run_on_db)

subsection \<open>The best connection\<close>

lemma best_conn_Nil [simp]: "best_conn [] = (Offline, meta_default)"
  by (simp add: best_conn_def)

lemma best_conn_some:
  assumes "cs \<noteq> []"
  obtains i e where "(i, e) \<in> set cs" "best_conn cs = (ce_kind e, ce_meta e)"
    "\<And>j f. (j, f) \<in> set cs \<Longrightarrow> ce_kind f \<le> ce_kind e"
proof -
  let ?k = "\<lambda>e. connection_kind_precedence (ce_kind e)"
  obtain e where m: "max_by_key ?k (map snd cs) = Some e"
    using assms by (cases "max_by_key ?k (map snd cs)") auto
  then have "e \<in> set (map snd cs)"
    by (rule max_by_key_in)
  then obtain i where "(i, e) \<in> set cs"
    by auto
  moreover have "ce_kind f \<le> ce_kind e" if "(j, f) \<in> set cs" for j f
    using max_by_key_ge [OF m, of f] that by (force simp: less_eq_connection_kind_def)
  ultimately show ?thesis
    using that m by (simp add: best_conn_def)
qed

text \<open>
  The presence caches are exactly what the connections say: a peer is listed with the best kind
  among its live connections and that connection's metadata, and is absent when it has none.
\<close>

definition presence_at :: "y7id \<Rightarrow> app \<Rightarrow> bool" where
  "presence_at y s \<longleftrightarrow>
     map_of (presence s) y = (if fst (best_of y s) = Offline then None else Some (fst (best_of y s))) \<and>
     connection_meta_of s y = (if fst (best_of y s) = Offline then None else Some (snd (best_of y s)))"

definition conns_ok :: "app \<Rightarrow> bool" where
  "conns_ok s \<longleftrightarrow> (\<forall>y cs. connections s y = Some cs \<longrightarrow> cs \<noteq> [] \<and> distinct (map fst cs))"

definition presence_ok :: "app \<Rightarrow> bool" where
  "presence_ok s \<longleftrightarrow> (\<forall>y. presence_at y s) \<and> distinct (map fst (presence s)) \<and> conns_ok s"

lemma refresh_presence_run:
  "refresh_presence y s =
     (case best_of y s of (best, meta) \<Rightarrow>
        (Inr (best, cm_transport meta, cm_ip_version meta, cm_origin meta),
         if best = Offline
         then s\<lparr>presence := AList.delete y (presence s), connection_meta_of := (connection_meta_of s)(y := None)\<rparr>
         else s\<lparr>presence := AList.update y best (presence s),
                connection_meta_of := (connection_meta_of s)(y \<mapsto> meta)\<rparr>))"
  by (simp add: refresh_presence_def action_simps split: prod.splits)

lemma refresh_presence_ok:
  assumes "\<And>z. z \<noteq> y \<Longrightarrow> presence_at z s" "distinct (map fst (presence s))" "conns_ok s"
  shows "presence_ok (snd (refresh_presence y s))"
proof -
  let ?t = "snd (refresh_presence y s)"
  obtain best meta where b: "best_of y s = (best, meta)"
    by (cases "best_of y s")
  have conns: "connections ?t = connections s"
    by (simp add: refresh_presence_run b)
  then have same: "best_of z ?t = best_of z s" for z
    by (simp add: best_of_def)
  have maps: "map_of (presence ?t) = (map_of (presence s))(y := (if best = Offline then None else Some best))"
    "connection_meta_of ?t = (connection_meta_of s)(y := (if best = Offline then None else Some meta))"
    by (auto simp: refresh_presence_run b update_conv' delete_conv')
  have "presence_at z ?t" for z
    using assms(1) [of z] b by (cases "z = y") (auto simp: presence_at_def same maps)
  moreover have "distinct (map fst (presence ?t))"
    using assms(2) by (simp add: refresh_presence_run b distinct_update distinct_delete)
  ultimately show ?thesis
    using assms(3) conns by (simp add: presence_ok_def conns_ok_def)
qed

subsection \<open>The lineage ring\<close>

text \<open>
  The transitions of one peer form a chain: each starts where the peer's previous one ended.
\<close>

fun chained :: "transport_transition list \<Rightarrow> bool" where
  "chained (t # u # ts) \<longleftrightarrow> tt_from u = Some (tt_to t) \<and> chained (u # ts)"
| "chained _ \<longleftrightarrow> True"

definition ring_ok :: "app \<Rightarrow> bool" where
  "ring_ok s \<longleftrightarrow>
     length (transition_ring s) \<le> transition_ring_cap \<and>
     (\<forall>uri. chained (filter (\<lambda>t. tt_y7_id t = uri) (transition_ring s)))"

lemma chained_tl: "chained ts \<Longrightarrow> chained (tl ts)"
  by (cases ts rule: chained.cases) auto

lemma chained_snoc:
  "chained (ts @ [t]) \<longleftrightarrow> chained ts \<and> (ts \<noteq> [] \<longrightarrow> tt_from t = Some (tt_to (last ts)))"
proof (induction ts)
  case (Cons a ts)
  then show ?case
    by (cases ts) auto
qed simp

lemma chained_filter_drop: "chained (filter p ts) \<Longrightarrow> chained (filter p (drop n ts))"
proof (induction n arbitrary: ts)
  case (Suc n)
  show ?case
  proof (cases ts)
    case (Cons a rest)
    have "chained (filter p rest)"
      using Suc.prems chained_tl [of "filter p ts"] by (auto simp: Cons split: if_splits)
    then show ?thesis
      using Suc.IH by (simp add: Cons)
  qed simp
qed simp

lemma find_rev_filter:
  "List.find p (rev xs) = (if filter p xs = [] then None else Some (last (filter p xs)))"
proof (induction xs rule: rev_induct)
  case (snoc x xs)
  then show ?case
    by auto
qed simp

lemma record_transition_ok: "keeps ring_ok (record_transition E y to tr ip origin)"
proof (rule keepsI)
  fix s
  assume ok: "ring_ok s"
  let ?uri = "to_uri E y"
  let ?own = "filter (\<lambda>t. tt_y7_id t = ?uri) (transition_ring s)"
  let ?last = "List.find (\<lambda>t. tt_y7_id t = ?uri) (rev (transition_ring s))"
  let ?new = "\<lparr>tt_y7_id = ?uri, tt_from = map_option tt_to ?last, tt_to = to, tt_transport = tr,
      tt_ip_version = ip, tt_origin = origin, tt_at_ms = os_now (db_os (app_db s))\<rparr>"
  let ?s = "s\<lparr>transition_ring := ring_push transition_ring_cap (transition_ring s) ?new\<rparr>"
  have "chained (filter (\<lambda>t. tt_y7_id t = uri) (transition_ring s @ [?new]))" for uri
    using ok by (auto simp: ring_ok_def chained_snoc find_rev_filter)
  then have "ring_ok ?s"
    unfolding ring_ok_def
    by (auto simp: length_ring_push ring_push_def Let_def chained_filter_drop simp del: filter_append
        drop_append)
  moreover have "snd (record_transition E y to tr ip origin s) \<in> {s, ?s}"
    by (auto simp: record_transition_def action_simps Let_def)
  ultimately show "ring_ok (snd (record_transition E y to tr ip origin s))"
    using ok by auto
qed

lemma record_transition_presence:
  "keeps presence_ok (record_transition E y to tr ip origin)"
  unfolding record_transition_def
  by (intro keeps_intros)
    (auto simp: presence_ok_def presence_at_def best_of_def conns_ok_def Let_def)

section \<open>A concrete state\<close>

text \<open>
  A network that acknowledges every message, accepts every command and has nothing to
  synchronise; and the application of the first sample party over a given database.
\<close>

definition sample_net :: net_env where
  "sample_net =
     \<lparr>ne_handshake = (\<lambda>_ _ _. Inl (NetworkErr ''no route'')), ne_msg = (\<lambda>_ _ _. Inr True),
      ne_sync = (\<lambda>_ _ _. Inr SyncAckResp), ne_command = (\<lambda>_ _. None),
      ne_dial = (\<lambda>_ _. Inr True), ne_find = (\<lambda>_ _. Inr []), ne_live = (\<lambda>_ _. Inr True),
      ne_timeout = (\<lambda>_. False), ne_tcp = (\<lambda>_ _. None)\<rparr>"

definition alice_app :: "db \<Rightarrow> app" where
  "alice_app d =
     \<lparr>app_db = d, app_net = sample_net, app_me = alice, my_pubkey = public_of sample_ext alice,
      my_y7_id = Y7Id (public_of sample_ext alice), presence = [], connections = Map.empty,
      app_limiter = default_limits, bootstrap_pings = Map.empty, nat_status = nat_status_default,
      dcutr_attempts = 0, dcutr_successes = 0, dcutr_failures = 0, dcutr_recent_failures = [],
      rl_drops_handshake = 0, rl_drops_msg = 0, rl_drops_sync = 0, nat_probe_detail = None,
      wake_pending = False, upgrade_backoff = Map.empty, reconnect_backoff = Map.empty,
      syncing = {}, connection_meta_of = Map.empty, transition_ring = [], app_events = [],
      app_wire = [], app_tasks = []\<rparr>"

definition bob_y7 :: y7id where
  "bob_y7 = Y7Id (public_of sample_ext bob)"

definition bob_peer :: peer where
  "bob_peer = peer_of_pk sample_ext (public_of sample_ext bob)"

end
