(* ===== verification/Outbox.thy ===== *)
theory Outbox
  imports App_State
begin

text \<open>
  Delivery of what is queued (\<open>event_loop.rs\<close>): draining the outbox of messages to a peer that
  is reachable, and flushing a pending chat deletion.
\<close>

definition message_envelope_of :: "message \<Rightarrow> message_envelope" where
  "message_envelope_of m =
     \<lparr>env_message_id = mid_bytes (msg_id m), env_sender_pub = msg_sender m,
      env_timestamp_ms = msg_timestamp m, env_nonce = msg_nonce m,
      env_ciphertext = msg_payload m, env_sig = msg_sig m\<rparr>"

definition drain_entry :: "ext \<Rightarrow> y7id \<Rightarrow> peer \<Rightarrow> queue_entry \<Rightarrow> (app, unit) action" where
  "drain_entry E peer_y7 peer_id entry =
     (if qe_target entry \<noteq> peer_y7 then ret ()
      else
        andThen (on_db (messages_get (qe_message entry))) (\<lambda>found.
          case found of
            None \<Rightarrow> ignore (on_db (queue_remove E (qe_message entry) peer_y7))
          | Some m \<Rightarrow>
              andThen (attempt (send_msg peer_id (message_envelope_of m))) (\<lambda>outcome.
                if outcome = Inr True then
                  seqA (on_db (messages_update_status (msg_id m) Delivered))
                    (seqA (on_db (queue_remove E (msg_id m) peer_y7))
                       (emit (MessageStatusChanged (message_id_show E (msg_id m)) Delivered)))
                else
                  andThen app_now_ms (\<lambda>now.
                    on_db (queue_bump E (msg_id m) peer_y7 (qe_attempts entry + 1)
                      (next_retry_at now (qe_attempts entry)))))))"

definition drain_queue_for_peer :: "ext \<Rightarrow> y7id \<Rightarrow> peer \<Rightarrow> bool \<Rightarrow> (app, unit) action" where
  "drain_queue_for_peer E peer_y7 peer_id respect_schedule =
     andThen (if respect_schedule then app_now_ms else ret i64_max) (\<lambda>before.
     andThen (on_db (queue_due E before 256)) (\<lambda>due.
       forA due (drain_entry E peer_y7 peer_id)))"

definition flush_pending_delete :: "ext \<Rightarrow> y7id \<Rightarrow> peer \<Rightarrow> (app, unit) action" where
  "flush_pending_delete E peer_y7 peer_id =
     andThen (on_db (deletes_get E peer_y7)) (\<lambda>row.
       case row of
         None \<Rightarrow> ret ()
       | Some pending \<Rightarrow>
           (case unjson_envelope E (pd_envelope pending) of
              Inl _ \<Rightarrow> ignore (on_db (deletes_remove E peer_y7))
            | Inr envelope \<Rightarrow>
                andThen (attempt (send_msg peer_id envelope)) (\<lambda>outcome.
                  if outcome = Inr True then on_db (deletes_remove E peer_y7)
                  else
                    andThen app_now_ms (\<lambda>now.
                      ignore (on_db (deletes_bump E peer_y7 (pd_attempts pending + 1)
                        (next_retry_at now (pd_attempts pending))))))))"

section \<open>What an outbox run may do\<close>

text \<open>
  The tables and the answers that a run has seen, from the state \<open>s\<close> it started in: the
  network is the same, the log of the wire has only grown.
\<close>

definition follows :: "app \<Rightarrow> app \<Rightarrow> bool" where
  "follows s t \<longleftrightarrow> app_net t = app_net s \<and> (\<exists>w. app_wire t = app_wire s @ w)"

lemma follows_refl [simp]: "follows s s"
  by (simp add: follows_def)

text \<open>The environment acknowledged the message since \<open>s\<close>.\<close>

definition acked_since :: "app \<Rightarrow> app \<Rightarrow> peer \<Rightarrow> bytes \<Rightarrow> bool" where
  "acked_since s t p i \<longleftrightarrow>
     (\<exists>w e v. app_wire t = app_wire s @ w @ WSendMsg p e # v \<and> env_message_id e = i \<and>
              ne_msg (app_net s) (app_wire s @ w) p e = Inr True)"

lemma acked_since_extend:
  "acked_since s t p i \<Longrightarrow> app_wire u = app_wire t @ w \<Longrightarrow> acked_since s u p i"
  unfolding acked_since_def by force

lemma send_msg_run:
  "attempt (send_msg p e) s = (Inr (ne_msg (app_net s) (app_wire s) p e), s\<lparr>app_wire := app_wire s @ [WSendMsg p e]\<rparr>)"
  by (simp add: send_msg_def net_call_def attempt_def)

lemma andThen_send_msg:
  "andThen (attempt (send_msg p e)) f s =
     f (ne_msg (app_net s) (app_wire s) p e) (s\<lparr>app_wire := app_wire s @ [WSendMsg p e]\<rparr>)"
  by (simp add: andThen_def send_msg_run)

definition queue_of :: "app \<Rightarrow> queue_row list" where
  "queue_of s = t_queue (db_tables (app_db s))"

definition messages_of :: "app \<Rightarrow> message_row list" where
  "messages_of s = t_messages (db_tables (app_db s))"

text \<open>
  What the drain keeps from its start \<open>s\<close>: the ids of the stored messages, and every queue row
  unless its message is gone or the peer acknowledged it.
\<close>

definition drain_inv :: "app \<Rightarrow> peer \<Rightarrow> app \<Rightarrow> bool" where
  "drain_inv s p t \<longleftrightarrow>
     follows s t \<and> map mr_id (messages_of t) = map mr_id (messages_of s) \<and>
     (\<forall>k. has_key queue_key k (queue_of s) \<longrightarrow>
        has_key queue_key k (queue_of t) \<or> \<not> has_key mr_id (fst k) (messages_of s) \<or>
        acked_since s t p (fst k))"

lemma has_key_update_where:
  assumes "\<And>r. p r \<Longrightarrow> key (f r) = key r"
  shows "has_key key k (update_where p f rows) = has_key key k rows"
  using find_row_update_where [of p key f k rows, OF assms] find_row_None_iff [of key k]
  by (metis option.map_disc_iff)

lemma has_key_delete_key:
  "has_key key k (delete_where (\<lambda>r. key r = k') rows) \<longleftrightarrow> k \<noteq> k' \<and> has_key key k rows"
  by (auto simp: has_key_def)

lemma queue_remove_state:
  "snd (queue_remove E i y d) =
     (if db_fault d ''sync_queue.remove'' = None
      then d\<lparr>db_tables := (db_tables d)\<lparr>t_queue :=
             delete_where (\<lambda>r. queue_key r = (mid_bytes i, to_uri E y)) (t_queue (db_tables d))\<rparr>\<rparr>
      else d)"
  by (auto simp: queue_remove_run split: option.splits)

lemma execute_state:
  "snd (execute l f d) = (if db_fault d l = None then d\<lparr>db_tables := f (db_tables d)\<rparr> else d)"
  by (auto simp: execute_def stmt_def split: option.splits)

lemma map_mr_id_update: "map mr_id (update_where p (\<lambda>r. r\<lparr>mr_status := v\<rparr>) rows) = map mr_id rows"
  by (simp add: update_where_def)

text \<open>Removing a row that may go, and the other writes of the drain, keep the invariant.\<close>

lemma drain_inv_remove:
  assumes "drain_inv s p t" "\<not> has_key mr_id (mid_bytes i) (messages_of s) \<or> acked_since s t p (mid_bytes i)"
  shows "drain_inv s p (t\<lparr>app_db := snd (queue_remove E i y (app_db t))\<rparr>)"
proof -
  let ?u = "t\<lparr>app_db := snd (queue_remove E i y (app_db t))\<rparr>"
  have "has_key queue_key k (queue_of ?u) \<or> k = (mid_bytes i, to_uri E y)"
    if "has_key queue_key k (queue_of t)" for k
    using that by (auto simp: queue_of_def queue_remove_state has_key_delete_key)
  moreover have "messages_of ?u = messages_of t"
    by (simp add: messages_of_def queue_remove_state)
  moreover have "acked_since s ?u p x \<longleftrightarrow> acked_since s t p x" for x
    by (simp add: acked_since_def)
  ultimately show ?thesis
    using assms unfolding drain_inv_def follows_def by fastforce
qed

lemma drain_inv_db:
  assumes "drain_inv s p t"
    "map mr_id (t_messages (db_tables d)) = map mr_id (messages_of t)"
    "\<And>k. has_key queue_key k (t_queue (db_tables d)) = has_key queue_key k (queue_of t)"
  shows "drain_inv s p (t\<lparr>app_db := d\<rparr>)"
  using assms by (simp add: drain_inv_def follows_def messages_of_def queue_of_def acked_since_def)

lemma drain_inv_wire:
  assumes "drain_inv s p t" "app_net u = app_net t" "app_db u = app_db t" "app_wire u = app_wire t @ w"
  shows "drain_inv s p u"
proof -
  have "acked_since s t p x \<Longrightarrow> acked_since s u p x" for x
    using acked_since_extend assms(4) by blast
  then show ?thesis
    using assms unfolding drain_inv_def follows_def messages_of_def queue_of_def by auto
qed

lemma has_key_map: "has_key key k rows \<longleftrightarrow> k \<in> set (map key rows)"
  by (simp add: has_key_def)

lemma keeps_drain_status:
  "keeps (\<lambda>t. drain_inv s p t \<and> acked_since s t p x) (on_db (messages_update_status i st))"
proof (rule keepsI)
  fix t assume t: "drain_inv s p t \<and> acked_since s t p x"
  let ?d = "snd (messages_update_status i st (app_db t))"
  have "drain_inv s p (t\<lparr>app_db := ?d\<rparr>)"
    using t by (intro drain_inv_db)
      (auto simp: messages_update_status_def execute_state messages_of_def queue_of_def map_mr_id_update)
  with t show "drain_inv s p (snd (on_db (messages_update_status i st) t)) \<and>
      acked_since s (snd (on_db (messages_update_status i st) t)) p x"
    by (simp add: run_on_db acked_since_def)
qed

lemma keeps_drain_remove:
  "keeps (\<lambda>t. drain_inv s p t \<and> acked_since s t p (mid_bytes i)) (on_db (queue_remove E i y))"
  using drain_inv_remove by (auto simp: keeps_def run_on_db acked_since_def)

lemma keeps_drain_emit:
  "keeps (\<lambda>t. drain_inv s p t \<and> acked_since s t p x) (emit e)"
  by (rule keepsI)
    (auto simp: drain_inv_def follows_def messages_of_def queue_of_def acked_since_def)

lemma keeps_drain_bump: "keeps (drain_inv s p) (on_db (queue_bump E i y n at))"
proof (rule keepsI)
  fix t assume t: "drain_inv s p t"
  let ?f = "\<lambda>r. r\<lparr>qr_attempts := n, qr_next_retry_at := at\<rparr>"
  let ?p = "\<lambda>r. queue_key r = (mid_bytes i, to_uri E y)"
  have "has_key queue_key k (update_where ?p ?f (queue_of t)) = has_key queue_key k (queue_of t)" for k
    by (rule has_key_update_where) (simp add: queue_key_def)
  then have "drain_inv s p (t\<lparr>app_db := snd (queue_bump E i y n at (app_db t))\<rparr>)"
    using t by (intro drain_inv_db)
      (auto simp: queue_bump_def execute_state messages_of_def queue_of_def)
  then show "drain_inv s p (snd (on_db (queue_bump E i y n at) t))"
    by (simp add: run_on_db)
qed

lemma messages_get_Some_id:
  "messages_get i d = (Inr (Some m), d') \<Longrightarrow> mid_bytes (msg_id m) = mid_bytes i"
  by (auto simp: messages_get_def query_def stmt_def action_simps transposeR_def bindR_Inr_iff
      message_decode_Inr_iff dest!: find_row_SomeD split: option.splits)

lemma messages_get_None_key:
  "messages_get i d = (Inr None, d') \<Longrightarrow> \<not> has_key mr_id (mid_bytes i) (t_messages (db_tables d))"
  by (auto simp: messages_get_def query_def stmt_def action_simps transposeR_def bindR_Inr_iff
      find_row_None_iff split: option.splits)

text \<open>An entry whose message is not stored, and one whose message is.\<close>

lemma drain_missing_inv:
  assumes t: "drain_inv s p t" and "on_db (messages_get (qe_message entry)) t = (Inr None, t)"
    and "qe_target entry = y"
  shows "drain_inv s p (snd (drain_entry E y p entry t))"
proof -
  have "fst (messages_get (qe_message entry) (app_db t)) = Inr None"
    using assms(2) by (simp add: run_on_db)
  then have "\<not> has_key mr_id (mid_bytes (qe_message entry)) (messages_of t)"
    using messages_get_None_key [of "qe_message entry" "app_db t"] by (simp add: messages_of_def prod_eq_iff)
  moreover have "map mr_id (messages_of t) = map mr_id (messages_of s)"
    using t by (simp only: drain_inv_def)
  ultimately have "\<not> has_key mr_id (mid_bytes (qe_message entry)) (messages_of s)"
    by (metis has_key_map)
  with assms drain_inv_remove [OF t, of "qe_message entry" E y] show ?thesis
    by (simp add: drain_entry_def andThen_def ignore_def run_on_db)
qed

lemma drain_stored_inv:
  assumes t: "drain_inv s p t" and get: "on_db (messages_get (qe_message entry)) t = (Inr (Some m), t)"
    and target: "qe_target entry = y"
  shows "drain_inv s p (snd (drain_entry E y p entry t))"
proof -
  let ?u = "t\<lparr>app_wire := app_wire t @ [WSendMsg p (message_envelope_of m)]\<rparr>"
  let ?ans = "ne_msg (app_net t) (app_wire t) p (message_envelope_of m)"
  have u: "drain_inv s p ?u"
    by (rule drain_inv_wire [OF t]) simp_all
  have acked: "acked_since s ?u p (mid_bytes (msg_id m))" if "?ans = Inr True"
    using t that unfolding drain_inv_def follows_def acked_since_def message_envelope_of_def
    by force
  have "keeps (\<lambda>u. drain_inv s p u \<and> acked_since s u p (mid_bytes (msg_id m)))
      (seqA (on_db (messages_update_status (msg_id m) Delivered))
         (seqA (on_db (queue_remove E (msg_id m) y))
            (emit (MessageStatusChanged (message_id_show E (msg_id m)) Delivered))))"
    by (intro keeps_seqA keeps_drain_status keeps_drain_remove keeps_drain_emit)
  moreover have "keeps (drain_inv s p) (andThen app_now_ms (\<lambda>now.
      on_db (queue_bump E (msg_id m) y (qe_attempts entry + 1)
        (next_retry_at now (qe_attempts entry)))))"
    by (intro keeps_andThen keeps_app_now_ms keeps_drain_bump)
  moreover have "andThen (on_db (messages_get (qe_message entry))) f t = f (Some m) t"
    for f :: "_ \<Rightarrow> (app, unit) action"
    using get by (simp add: andThen_def)
  ultimately show ?thesis
    using u acked target by (auto simp: drain_entry_def andThen_send_msg keeps_def)
qed

lemma drain_entry_inv: "keeps (drain_inv s p) (drain_entry E y p entry)"
proof (cases "qe_target entry = y")
  case False
  then show ?thesis
    by (simp add: drain_entry_def keeps_ret)
next
  case True
  show ?thesis
  proof (rule keepsI)
    fix t assume t: "drain_inv s p t"
    have "on_db (messages_get (qe_message entry)) t = (fst (messages_get (qe_message entry) (app_db t)), t)"
      by (simp add: run_on_db)
    then consider e where "on_db (messages_get (qe_message entry)) t = (Inl e, t)"
      | "on_db (messages_get (qe_message entry)) t = (Inr None, t)"
      | m where "on_db (messages_get (qe_message entry)) t = (Inr (Some m), t)"
      by (cases "fst (messages_get (qe_message entry) (app_db t))") (auto simp: not_None_eq)
    then show "drain_inv s p (snd (drain_entry E y p entry t))"
    proof cases
      case 1
      with t True show ?thesis
        by (simp add: drain_entry_def andThen_def)
    qed (intro drain_missing_inv drain_stored_inv t True; assumption)+
  qed
qed

lemma drain_queue_inv: "keeps (drain_inv s p) (drain_queue_for_peer E y p respect)"
  unfolding drain_queue_for_peer_def
proof (intro keeps_andThen keeps_if keeps_app_now_ms keeps_ret keeps_forA drain_entry_inv)
  show "keeps (drain_inv s p) (on_db (queue_due E before 256))" for before
    by (simp add: keeps_def run_on_db)
qed

text \<open>
  C7. Nothing queued is lost by a drain, whatever the network answers and whichever statements
  fail: a row that is no longer in the outbox afterwards was for a message that is not stored,
  or the peer acknowledged an envelope with that message id during this very drain.
\<close>

theorem drain_never_drops:
  assumes "has_key queue_key (i, uri) (queue_of s)"
    and "drain_queue_for_peer E y p respect s = (r, s')"
  shows "has_key queue_key (i, uri) (queue_of s') \<or>
         \<not> has_key mr_id i (messages_of s) \<or> acked_since s s' p i"
proof -
  have "drain_inv s p s"
    by (simp add: drain_inv_def)
  then have "drain_inv s p s'"
    using keepsD [OF drain_queue_inv] assms(2) by (metis snd_conv)
  with assms(1) show ?thesis
    unfolding drain_inv_def by fastforce
qed

definition queued_app :: app where
  "queued_app = alice_app (sample_db\<lparr>db_tables := empty_tables
     \<lparr>t_messages := [\<lparr>mr_id = replicate 16 1, mr_conv = replicate 16 9,
         mr_sender = public_of sample_ext alice, mr_recipient = public_of sample_ext bob,
         mr_timestamp = 5, mr_status = 0, mr_payload = [4, 2], mr_nonce = replicate 12 0,
         mr_sig = replicate 64 0, mr_inserted_at = 5\<rparr>],
      t_queue := [\<lparr>qr_message = replicate 16 1, qr_target = to_uri sample_ext bob_y7,
         qr_attempts = 0, qr_next_retry_at = 0\<rparr>]\<rparr>\<rparr>)"

theorem drain_never_drops_witness:
  "\<exists>r s'. drain_queue_for_peer sample_ext bob_y7 bob_peer False queued_app = (r, s') \<and>
     \<not> has_key queue_key (replicate 16 1, to_uri sample_ext bob_y7) (queue_of s') \<and>
     acked_since queued_app s' bob_peer (replicate 16 1)"
proof -
  let ?k = "(replicate 16 1, to_uri sample_ext bob_y7)"
  obtain r s' where d: "drain_queue_for_peer sample_ext bob_y7 bob_peer False queued_app = (r, s')"
    by fastforce
  have "\<not> has_key queue_key ?k
      (queue_of (snd (drain_queue_for_peer sample_ext bob_y7 bob_peer False queued_app)))"
    by code_simp
  moreover have "has_key queue_key ?k (queue_of queued_app)"
    by code_simp
  moreover have "has_key mr_id (replicate 16 1) (messages_of queued_app)"
    by code_simp
  ultimately show ?thesis
    using drain_never_drops [OF _ d] d by force
qed

section \<open>The page limit of the drain\<close>

lemma take_sorted_below:
  assumes "sorted (map f xs)" "n \<le> length (filter (\<lambda>x. f x < v) xs)" "x \<in> set (take n xs)"
  shows "f x < v"
proof -
  have "filter (\<lambda>x. f x < v) xs = takeWhile (\<lambda>x. f x < v) xs"
    using assms(1) by (induction xs) (auto simp: takeWhile_eq_Nil_iff neq_Nil_conv dest: le_less_trans)
  then have "take n xs = take n (takeWhile (\<lambda>x. f x < v) xs)"
    using assms(2) by (metis append_Nil2 diff_is_0_eq take_append take0 takeWhile_dropWhile_id)
  then show ?thesis
    using assms(3) by (metis in_set_takeD set_takeWhileD)
qed

text \<open>
  The page of due rows is cut before the rows of other peers are skipped: while that many rows
  of other peers are due earlier, a drain for this peer sends nothing.
\<close>

lemma drain_starved:
  assumes "\<And>r. r \<in> set (queue_of s) \<Longrightarrow> qr_next_retry_at r \<le> i64_max"
    and "256 \<le> length (filter (\<lambda>r. qr_next_retry_at r < v) (queue_of s))"
    and "\<And>r e. r \<in> set (queue_of s) \<Longrightarrow> qr_next_retry_at r < v \<Longrightarrow> queue_decode E r = Inr e \<Longrightarrow>
           qe_target e \<noteq> y"
  shows "snd (drain_queue_for_peer E y p False s) = s"
proof -
  let ?page = "due_rows qr_next_retry_at i64_max 256 (queue_of s)"
  have "qr_next_retry_at r < v" "r \<in> set (queue_of s)" if "r \<in> set ?page" for r
  proof -
    have f: "filter (\<lambda>r. qr_next_retry_at r \<le> i64_max) (queue_of s) = queue_of s"
      using assms(1) by (simp add: filter_id_conv)
    have m: "mset (order_by qr_next_retry_at (queue_of s)) = mset (queue_of s)"
      by (simp add: order_by_def)
    have "length (filter (\<lambda>r. qr_next_retry_at r < v) (order_by qr_next_retry_at (queue_of s))) =
        length (filter (\<lambda>r. qr_next_retry_at r < v) (queue_of s))"
      using m by (metis mset_filter size_mset)
    then show "qr_next_retry_at r < v"
      using that assms(2) by (intro take_sorted_below [OF sorted_order_by, where n = 256])
        (simp_all add: due_rows_def limit_rows_def f)
    show "r \<in> set (queue_of s)"
      using that set_limit_rows by (fastforce simp: due_rows_def f)
  qed
  then have skip: "qe_target e \<noteq> y"
    if "traverseR (queue_decode E) ?page = Inr es" "e \<in> set es" for es e
    using assms(3) traverseR_in [OF that] by blast
  have "forA es (drain_entry E y p) s = (Inr (), s)" if "\<And>e. e \<in> set es \<Longrightarrow> qe_target e \<noteq> y" for es
    using that by (induction es) (auto simp: drain_entry_def seqA_def)
  then show ?thesis
    using skip by (auto simp: drain_queue_for_peer_def andThen_def queue_due_def query_def stmt_def
        run_on_db queue_of_def split: option.splits sum.splits)
qed

section \<open>Flushing a deletion\<close>

text \<open>
  The flush of a chat deletion sends at most the stored envelope, to the peer it is for, and only
  an acknowledgement, or a row that does not decode, removes the row.
\<close>

definition delete_queued :: "ext \<Rightarrow> y7id \<Rightarrow> app \<Rightarrow> bool" where
  "delete_queued E y s \<longleftrightarrow> has_key dr_peer (to_uri E y) (t_deletes (db_tables (app_db s)))"

lemma flush_keeps_unacked:
  assumes "delete_queued E y s" "unjson_envelope E (dr_envelope row) = Inr env"
    and "find_row dr_peer (to_uri E y) (t_deletes (db_tables (app_db s))) = Some row"
    and "ne_msg (app_net s) (app_wire s) p env \<noteq> Inr True"
  shows "delete_queued E y (snd (flush_pending_delete E y p s))"
  using assms
  by (auto simp: flush_pending_delete_def delete_queued_def deletes_get_def query_def stmt_def
      andThen_def run_on_db send_msg_run ignore_def deletes_bump_def execute_state
      has_key_update_where split: option.splits)

end
