(* ===== verification/Frames.thy ===== *)
theory Frames
  imports App_State Dao_State
begin

text \<open>
  Which predicates the operations of the storage layer keep: a predicate that does not depend on
  the table an operation writes is kept by it, and every read keeps every predicate. With the
  rules of \<open>keeps_db\<close> and the structural ones, a frame condition of a whole handler is proved by
  \<open>intro\<close>.
\<close>

named_theorems keeps_db \<open>introduction rules for predicates over the database\<close>

lemma keeps_on_db_via [keeps_db]: "(\<And>s. keeps (\<lambda>d. P (s\<lparr>app_db := d\<rparr>)) m) \<Longrightarrow> keeps P (on_db m)"
proof (rule keepsI)
  fix s assume m: "\<And>s. keeps (\<lambda>d. P (s\<lparr>app_db := d\<rparr>)) m" and "P s"
  then show "P (snd (on_db m s))"
    using keepsD [OF m [of s], of "app_db s"] by (simp add: run_on_db)
qed

lemma keeps_app_os [keeps_db]: "(\<And>s os. P s \<Longrightarrow> P (s\<lparr>app_db := (app_db s)\<lparr>db_os := os\<rparr>\<rparr>)) \<Longrightarrow> keeps P (app_os m)"
  by (simp add: app_os_def keeps_def run_on_db on_os_def os_in_db.zoom_state)

lemma keeps_stmt:
  "(\<And>d. P d \<Longrightarrow> P (d\<lparr>db_tables := snd (f (db_tables d))\<rparr>)) \<Longrightarrow> keeps P (stmt l f)"
  by (auto simp: keeps_def stmt_def split: option.splits prod.splits) (metis snd_conv)

section \<open>Reads\<close>

lemma keeps_reads [keeps_db]:
  "keeps P (contacts_get E y)" "keeps P (contacts_list E)" "keeps P (messages_get i)"
  "keeps P (messages_list_for_conversation c n)" "keeps P (messages_pull_outbound_after c k sin n)"
  "keeps P (messages_highest_inbound c k)" "keeps P (messages_highest_outbound c k)"
  "keeps P (requests_list_pending E dir)" "keeps P (sessions_get E y)" "keeps P (queue_due E now n)"
  "keeps P (deletes_get E y)" "keeps P (peer_state_get E y)" "keeps P (peer_state_list_all E)"
  "keeps P (settings_get E)" "keeps P (users_get E)"
  by (simp_all add: keeps_def deletes_get_def query_def stmt_def andThen_def split: option.splits)

section \<open>Writes\<close>

lemma keeps_contacts_insert [keeps_db]:
  "(\<And>d rows. P d \<Longrightarrow> P (d\<lparr>db_tables := (db_tables d)\<lparr>t_contacts := rows\<rparr>\<rparr>)) \<Longrightarrow>
   keeps P (contacts_insert E c)"
  unfolding contacts_insert_def by (intro keeps_intros) simp

lemma keeps_contacts_update [keeps_db]:
  "(\<And>d rows. P d \<Longrightarrow> P (d\<lparr>db_tables := (db_tables d)\<lparr>t_contacts := rows\<rparr>\<rparr>)) \<Longrightarrow>
   keeps P (contacts_update_status E y st)"
  unfolding contacts_update_status_def by (intro keeps_intros keeps_stmt) simp_all

lemma keeps_messages_insert [keeps_db]:
  "(\<And>d rows. P d \<Longrightarrow> P (d\<lparr>db_tables := (db_tables d)\<lparr>t_messages := rows\<rparr>\<rparr>)) \<Longrightarrow>
   keeps P (messages_insert m)"
  unfolding messages_insert_def by (intro keeps_intros keeps_stmt) simp

lemma keeps_messages_update [keeps_db]:
  "(\<And>d rows. P d \<Longrightarrow> P (d\<lparr>db_tables := (db_tables d)\<lparr>t_messages := rows\<rparr>\<rparr>)) \<Longrightarrow>
   keeps P (messages_update_status i st)"
  unfolding messages_update_status_def by (intro keeps_intros) simp

lemma keeps_messages_promote [keeps_db]:
  "(\<And>d rows. P d \<Longrightarrow> P (d\<lparr>db_tables := (db_tables d)\<lparr>t_messages := rows\<rparr>\<rparr>)) \<Longrightarrow>
   keeps P (messages_promote_outbound_synced c k hi)"
  unfolding messages_promote_outbound_synced_def by (intro keeps_intros keeps_stmt) simp_all

lemma keeps_requests_insert [keeps_db]:
  "(\<And>d rows n. P d \<Longrightarrow> P (d\<lparr>db_tables := (db_tables d)\<lparr>t_requests := rows, t_requests_seq := n\<rparr>\<rparr>)) \<Longrightarrow>
   (\<And>d os. P d \<Longrightarrow> P (d\<lparr>db_os := os\<rparr>)) \<Longrightarrow> keeps P (requests_insert E new)"
  unfolding requests_insert_def on_os_seal_def by (intro keeps_intros keeps_stmt) simp_all

lemma keeps_requests_resolve [keeps_db]:
  "(\<And>d rows. P d \<Longrightarrow> P (d\<lparr>db_tables := (db_tables d)\<lparr>t_requests := rows\<rparr>\<rparr>)) \<Longrightarrow>
   keeps P (requests_resolve i rs)"
  unfolding requests_resolve_def Let_def by (intro keeps_intros keeps_stmt) simp_all

lemma keeps_sessions_upsert [keeps_db]:
  "(\<And>d rows. P d \<Longrightarrow> P (d\<lparr>db_tables := (db_tables d)\<lparr>t_sessions := rows\<rparr>\<rparr>)) \<Longrightarrow>
   keeps P (sessions_upsert E y)"
  unfolding sessions_upsert_def by (intro keeps_intros) simp

lemma keeps_queue_writes [keeps_db]:
  assumes "\<And>d rows. P d \<Longrightarrow> P (d\<lparr>db_tables := (db_tables d)\<lparr>t_queue := rows\<rparr>\<rparr>)"
  shows "keeps P (queue_enqueue E i y at)" "keeps P (queue_bump E i y n at)" "keeps P (queue_remove E i y)"
  using assms
  unfolding queue_enqueue_def queue_bump_def queue_remove_def by (simp_all add: keeps_execute)

lemma keeps_deletes_writes [keeps_db]:
  assumes "\<And>d rows. P d \<Longrightarrow> P (d\<lparr>db_tables := (db_tables d)\<lparr>t_deletes := rows\<rparr>\<rparr>)"
  shows "keeps P (deletes_enqueue E y bs at)" "keeps P (deletes_bump E y n at)" "keeps P (deletes_remove E y)"
  using assms
  unfolding deletes_enqueue_def deletes_bump_def deletes_remove_def by (simp_all add: keeps_execute)

lemma keeps_peer_state_seen [keeps_db]:
  "(\<And>d rows. P d \<Longrightarrow> P (d\<lparr>db_tables := (db_tables d)\<lparr>t_peer_state := rows\<rparr>\<rparr>)) \<Longrightarrow>
   keeps P (peer_state_upsert_seen E y js)"
  unfolding peer_state_upsert_seen_def by (intro keeps_intros) simp

lemma keeps_settings_update [keeps_db]:
  "(\<And>d js. P d \<Longrightarrow> P (d\<lparr>db_tables := (db_tables d)\<lparr>t_settings := js\<rparr>\<rparr>)) \<Longrightarrow>
   keeps P (settings_update E st)"
  unfolding settings_update_def by (intro keeps_intros) simp

lemma keeps_wipe_peer [keeps_db]:
  assumes "\<And>d ms ss qs rs cs ps. P d \<Longrightarrow> P (d\<lparr>db_tables := (db_tables d)\<lparr>t_messages := ms\<rparr>\<rparr>) \<and>
      P (d\<lparr>db_tables := (db_tables d)\<lparr>t_sessions := ss\<rparr>\<rparr>) \<and>
      P (d\<lparr>db_tables := (db_tables d)\<lparr>t_queue := qs\<rparr>\<rparr>) \<and>
      P (d\<lparr>db_tables := (db_tables d)\<lparr>t_requests := rs\<rparr>\<rparr>) \<and>
      P (d\<lparr>db_tables := (db_tables d)\<lparr>t_contacts := cs\<rparr>\<rparr>) \<and>
      P (d\<lparr>db_tables := (db_tables d)\<lparr>t_peer_state := ps\<rparr>\<rparr>)"
  shows "keeps P (wipe_peer E y c)"
  unfolding wipe_peer_def Let_def by (intro keeps_intros) (simp_all add: assms)

section \<open>Steps that read, and commands to the network\<close>

lemma run_net_command:
  "net_command w s =
     ((case ne_command (app_net s) (app_wire s) w of None \<Rightarrow> Inr () | Some e \<Rightarrow> Inl e),
      s\<lparr>app_wire := app_wire s @ [w]\<rparr>)"
  by (simp add: net_command_def net_call_def)

lemma andThen_read:
  "snd (m s) = s \<Longrightarrow> andThen m f s = (case fst (m s) of Inl e \<Rightarrow> (Inl e, s) | Inr x \<Rightarrow> f x s)"
  by (cases "m s") (auto simp: andThen_def split: sum.splits)

lemma snd_on_db_read: "snd (m (app_db s)) = app_db s \<Longrightarrow> snd (on_db m s) = s"
  by (simp add: run_on_db)

lemma fst_on_db [simp]: "fst (on_db m s) = fst (m (app_db s))"
  by (simp add: run_on_db)

lemma on_db_reads [simp]:
  "snd (on_db (contacts_get E y) s) = s" "snd (on_db (sessions_get E y) s) = s"
  "snd (on_db (messages_get i) s) = s" "snd (on_db (requests_list_pending E dir) s) = s"
  "snd (on_db (peer_state_get E y) s) = s" "snd (on_db (peer_state_list_all E) s) = s"
  "snd (on_db (settings_get E) s) = s"
  by (simp_all add: snd_on_db_read)

lemma keeps_net_command [keeps_intros]:
  "(\<And>s ws. P s \<Longrightarrow> P (s\<lparr>app_wire := ws\<rparr>)) \<Longrightarrow> keeps P (net_command w)"
  by (simp add: net_command_def keeps_net_call)

lemma attempt_read: "snd (m s) = s \<Longrightarrow> attempt m s = (Inr (fst (m s)), s)"
  by (cases "m s") (simp add: attempt_def)

section \<open>Effects on the status of a contact\<close>

text \<open>The status of one peer depends on its URI only; an update changes that one, if it is there.\<close>

lemma status_of_uri: "to_uri E y = to_uri E z \<Longrightarrow> status_of E y t = status_of E z t"
  by (simp add: status_of_def)

lemma contacts_update_effect:
  "status_of E y (db_tables (snd (contacts_update_status E z st d))) = status_of E y (db_tables d) \<or>
   (to_uri E y = to_uri E z \<and>
    status_of E y (db_tables (snd (contacts_update_status E z st d))) = Some st)"
proof (cases "db_fault d ''contacts.update_status''")
  case None
  let ?rows = "t_contacts (db_tables d)"
  have t: "t_contacts (db_tables (snd (contacts_update_status E z st d))) =
      update_where (\<lambda>r. cr_y7_id r = to_uri E z) (\<lambda>r. r\<lparr>cr_status := contact_status_as_str st\<rparr>) ?rows"
    using None by (simp add: contacts_update_status_def stmt_def action_simps)
  show ?thesis
    using find_row_SomeD [of cr_y7_id "to_uri E y" ?rows]
    by (auto simp: status_of_def t find_row_update_where res_opt_def split: option.splits)
qed (simp add: contacts_update_status_def stmt_def action_simps)

lemma contacts_insert_effect:
  "status_of E y (db_tables (snd (contacts_insert E c d))) = status_of E y (db_tables d) \<or>
   (to_uri E y = to_uri E (nc_id c) \<and>
    status_of E y (db_tables (snd (contacts_insert E c d))) = Some (nc_status c))"
proof (cases "db_fault d ''contacts.insert''")
  case None
  have "t_contacts (db_tables (snd (contacts_insert E c d))) =
      upsert cr_y7_id contact_merge (contact_new_row E (os_now (db_os d)) c) (t_contacts (db_tables d))"
    using None by (simp add: contacts_insert_def execute_def stmt_def action_simps)
  then show ?thesis
    by (auto simp: status_of_def contact_rows.find_upsert contact_new_row_def contact_merge_def
        res_opt_def split: option.splits)
qed (simp add: contacts_insert_def execute_def stmt_def action_simps)

end
