(* ===== verification/Schema.thy ===== *)
theory Schema
  imports Frames
begin

text \<open>
  What the schema promises of the stored rows (the migrations and the types that the storage
  crate maps its columns to): primary keys are unique, the columns with a fixed vocabulary hold
  a word of it, and the columns that are set together are set together. Every operation of the
  storage layer keeps it.
\<close>

section \<open>Well-typed rows\<close>

definition contact_row_typed :: "contact_row \<Rightarrow> bool" where
  "contact_row_typed r \<longleftrightarrow> (\<exists>st. contact_status_from_str (cr_status r) = Inr st)"

definition message_row_typed :: "message_row \<Rightarrow> bool" where
  "message_row_typed r \<longleftrightarrow> message_status_from_i64 (mr_status r) \<noteq> None"

definition request_row_typed :: "int \<Rightarrow> request_row \<Rightarrow> bool" where
  "request_row_typed seq r \<longleftrightarrow>
     rr_id r \<le> seq \<and> (\<exists>dir. direction_parse (rr_direction r) = Inr dir) \<and>
     (rr_text_enc r = None \<longleftrightarrow> rr_text_nonce r = None) \<and>
     (rr_resolved_at r = None \<longleftrightarrow> rr_resolution r = None) \<and>
     (\<exists>res. transposeR resolution_parse (rr_resolution r) = Inr res)"

definition primary_keys_ok :: "tables \<Rightarrow> bool" where
  "primary_keys_ok t \<longleftrightarrow>
     length (t_users t) \<le> 1 \<and> keys_distinct cr_y7_id (t_contacts t) \<and>
     keys_distinct rr_id (t_requests t) \<and> keys_distinct mr_id (t_messages t) \<and>
     keys_distinct sr_peer (t_sessions t) \<and> keys_distinct queue_key (t_queue t) \<and>
     keys_distinct pr_peer (t_peer_state t) \<and> keys_distinct dr_peer (t_deletes t)"

definition rows_ok :: "tables \<Rightarrow> bool" where
  "rows_ok t \<longleftrightarrow>
     (\<forall>r \<in> set (t_contacts t). contact_row_typed r) \<and> (\<forall>r \<in> set (t_messages t). message_row_typed r) \<and>
     (\<forall>r \<in> set (t_requests t). request_row_typed (t_requests_seq t) r)"

definition store_typed :: "db \<Rightarrow> bool" where
  "store_typed d \<longleftrightarrow> primary_keys_ok (db_tables d) \<and> rows_ok (db_tables d)"

lemmas schema_defs = store_typed_def primary_keys_ok_def rows_ok_def

lemma store_typed_tables: "store_typed d \<Longrightarrow> db_tables d' = db_tables d \<Longrightarrow> store_typed d'"
  by (simp add: store_typed_def)

section \<open>Rows under the statements\<close>

lemma rows_update_where:
  "\<forall>r \<in> set rows. Q r \<Longrightarrow> (\<And>r. Q r \<Longrightarrow> p r \<Longrightarrow> Q (f r)) \<Longrightarrow> \<forall>r \<in> set (update_where p f rows). Q r"
  by (auto simp: update_where_def)

lemma rows_upsert:
  "\<forall>r \<in> set rows. Q r \<Longrightarrow> Q new \<Longrightarrow> (\<And>r. Q r \<Longrightarrow> Q (merge new r)) \<Longrightarrow>
   \<forall>r \<in> set (upsert key merge new rows). Q r"
  by (auto simp: upsert_def update_where_def)

lemma rows_insert_or_ignore:
  "\<forall>r \<in> set rows. Q r \<Longrightarrow> Q new \<Longrightarrow> \<forall>r \<in> set (insert_or_ignore key new rows). Q r"
  by (auto simp: insert_or_ignore_def)

lemma resolution_parse_as [simp]: "resolution_parse (resolution_as_str x) = Inr x"
  by (cases x) (simp_all add: resolution_parse_def)

lemma keys_update_same:
  "keys_distinct key rows \<Longrightarrow> (\<And>r. key (f r) = key r) \<Longrightarrow> keys_distinct key (update_where p f rows)"
  by (simp add: keys_distinct_update_where)

lemmas keys_upsert = contact_rows.keys_distinct_upsert session_rows.keys_distinct_upsert
  queue_rows.keys_distinct_upsert delete_rows.keys_distinct_upsert seen_rows.keys_distinct_upsert
  inbound_rows.keys_distinct_upsert outbound_rows.keys_distinct_upsert

text \<open>A statement that replaces the rows of one table.\<close>

lemma store_typed_contacts:
  "store_typed d \<Longrightarrow> keys_distinct cr_y7_id rows \<Longrightarrow> \<forall>r \<in> set rows. contact_row_typed r \<Longrightarrow>
   store_typed (d\<lparr>db_tables := (db_tables d)\<lparr>t_contacts := rows\<rparr>\<rparr>)"
  by (simp add: schema_defs)

lemma store_typed_messages:
  "store_typed d \<Longrightarrow> keys_distinct mr_id rows \<Longrightarrow> \<forall>r \<in> set rows. message_row_typed r \<Longrightarrow>
   store_typed (d\<lparr>db_tables := (db_tables d)\<lparr>t_messages := rows\<rparr>\<rparr>)"
  by (simp add: schema_defs)

lemma store_typed_requests:
  "store_typed d \<Longrightarrow> keys_distinct rr_id rows \<Longrightarrow>
   \<forall>r \<in> set rows. request_row_typed (t_requests_seq (db_tables d)) r \<Longrightarrow>
   store_typed (d\<lparr>db_tables := (db_tables d)\<lparr>t_requests := rows\<rparr>\<rparr>)"
  by (simp add: schema_defs)

lemma store_typed_keyed:
  assumes "store_typed d"
  shows "keys_distinct sr_peer ss \<Longrightarrow> store_typed (d\<lparr>db_tables := (db_tables d)\<lparr>t_sessions := ss\<rparr>\<rparr>)"
    "keys_distinct queue_key qs \<Longrightarrow> store_typed (d\<lparr>db_tables := (db_tables d)\<lparr>t_queue := qs\<rparr>\<rparr>)"
    "keys_distinct pr_peer ps \<Longrightarrow> store_typed (d\<lparr>db_tables := (db_tables d)\<lparr>t_peer_state := ps\<rparr>\<rparr>)"
    "keys_distinct dr_peer ds \<Longrightarrow> store_typed (d\<lparr>db_tables := (db_tables d)\<lparr>t_deletes := ds\<rparr>\<rparr>)"
    "store_typed (d\<lparr>db_tables := (db_tables d)\<lparr>t_settings := js\<rparr>\<rparr>)"
    "store_typed (d\<lparr>db_os := w\<rparr>)"
  using assms by (simp_all add: schema_defs)

lemma store_typedD:
  assumes "store_typed d"
  shows "keys_distinct cr_y7_id (t_contacts (db_tables d))" "keys_distinct rr_id (t_requests (db_tables d))"
    "keys_distinct mr_id (t_messages (db_tables d))" "keys_distinct sr_peer (t_sessions (db_tables d))"
    "keys_distinct queue_key (t_queue (db_tables d))" "keys_distinct pr_peer (t_peer_state (db_tables d))"
    "keys_distinct dr_peer (t_deletes (db_tables d))"
    "\<forall>r \<in> set (t_contacts (db_tables d)). contact_row_typed r"
    "\<forall>r \<in> set (t_messages (db_tables d)). message_row_typed r"
    "\<forall>r \<in> set (t_requests (db_tables d)). request_row_typed (t_requests_seq (db_tables d)) r"
  using assms by (simp_all add: schema_defs)

lemmas store_typed_table = store_typed_contacts store_typed_messages store_typed_requests store_typed_keyed

section \<open>Every operation keeps the store well typed\<close>

named_theorems typed_db \<open>the operations of the storage layer keep the store well typed\<close>

lemmas store_typed_intros = store_typed_table keys_upsert keys_update_same keys_distinct_delete
  keys_distinct_insert_or_ignore rows_upsert rows_update_where rows_insert_or_ignore

lemma typed_contacts_insert [typed_db]: "keeps store_typed (contacts_insert E c)"
  unfolding contacts_insert_def
  by (intro keeps_intros, intro store_typed_intros store_typedD)
    (simp_all add: contact_row_typed_def contact_new_row_def contact_merge_def)

lemma typed_contacts_update [typed_db]: "keeps store_typed (contacts_update_status E y st)"
  unfolding contacts_update_status_def
  by (intro keeps_intros keeps_stmt, simp only: snd_conv, intro store_typed_intros store_typedD)
    (simp_all add: contact_row_typed_def)

lemma typed_messages_insert [typed_db]: "keeps store_typed (messages_insert m)"
  unfolding messages_insert_def
  by (intro keeps_intros keeps_stmt, simp only: snd_conv, intro store_typed_intros store_typedD)
    (simp_all add: message_row_typed_def message_new_row_def)

lemma typed_messages_update [typed_db]: "keeps store_typed (messages_update_status i st)"
  unfolding messages_update_status_def
  by (intro keeps_intros, intro store_typed_intros store_typedD) (simp_all add: message_row_typed_def)

lemma typed_messages_promote [typed_db]: "keeps store_typed (messages_promote_outbound_synced c k hi)"
  unfolding messages_promote_outbound_synced_def
  by (intro keeps_intros keeps_stmt, simp only: snd_conv, intro store_typed_intros store_typedD)
    (simp_all add: message_row_typed_def del: message_status_as_i64.simps)

text \<open>A request gets the next number of the sequence, which no row has yet.\<close>

lemma typed_requests_insert [typed_db]: "keeps store_typed (requests_insert E new)"
proof -
  have enc: "keeps store_typed (on_os_seal E dek p a)" for dek p a
    unfolding on_os_seal_def by (intro keeps_intros) (simp add: store_typed_keyed)
  have row: "keeps store_typed (stmt l (\<lambda>t. (t_requests_seq t + 1, t\<lparr>t_requests := t_requests t @
      [\<lparr>rr_id = t_requests_seq t + 1, rr_direction = direction_as_str dir, rr_peer = uri, rr_text_enc = enc,
        rr_text_nonce = nonce, rr_created_at = now, rr_resolved_at = None, rr_resolution = None\<rparr>],
      t_requests_seq := t_requests_seq t + 1\<rparr>)))" if "enc = None \<longleftrightarrow> nonce = None" for l dir uri enc nonce now
    using that
    by (intro keeps_stmt)
      (fastforce simp: schema_defs request_row_typed_def keys_distinct_def transposeR_def)
  show ?thesis
    unfolding requests_insert_def
    by (cases "nr_text new")
      (simp_all only: option.case andThen_assoc andThen_ret case_prod_unfold fst_conv snd_conv,
       (intro keeps_andThen keeps_asks keeps_now_ms keeps_ret row enc; simp)+)
qed

lemma typed_requests_resolve [typed_db]: "keeps store_typed (requests_resolve i res)"
  unfolding requests_resolve_def Let_def
  by (intro keeps_intros keeps_stmt, simp only: snd_conv, intro store_typed_intros store_typedD)
    (simp_all add: request_row_typed_def transposeR_def bindR_def)

lemma typed_sessions [typed_db]: "keeps store_typed (sessions_upsert E y)" "keeps store_typed (sessions_touch E y)"
  unfolding sessions_upsert_def sessions_touch_def
  by (rule keeps_andThen [OF keeps_now_ms], rule keeps_execute, intro store_typed_intros store_typedD, simp_all)+

lemma typed_queue [typed_db]:
  "keeps store_typed (queue_enqueue E i y at)" "keeps store_typed (queue_bump E i y n at)"
  "keeps store_typed (queue_remove E i y)"
  unfolding queue_enqueue_def queue_bump_def queue_remove_def
  by (rule keeps_execute, intro store_typed_intros store_typedD, simp_all add: queue_key_def)+

lemma typed_deletes [typed_db]:
  "keeps store_typed (deletes_enqueue E y bs at)" "keeps store_typed (deletes_bump E y n at)"
  "keeps store_typed (deletes_remove E y)"
  unfolding deletes_enqueue_def deletes_bump_def deletes_remove_def
  by (rule keeps_execute, intro store_typed_intros store_typedD, simp_all)+

lemma typed_peer_state [typed_db]:
  "keeps store_typed (peer_state_upsert_seen E y js)"
  "keeps store_typed (peer_state_set_high_water_inbound E y i)"
  "keeps store_typed (peer_state_set_high_water_outbound E y i)"
  unfolding peer_state_upsert_seen_def peer_state_set_high_water_inbound_def
    peer_state_set_high_water_outbound_def
  by (rule keeps_execute keeps_andThen [OF keeps_now_ms keeps_execute], intro store_typed_intros store_typedD, simp_all)+

lemma typed_settings [typed_db]: "keeps store_typed (settings_update E st)"
  unfolding settings_update_def by (intro keeps_intros store_typed_intros)

lemma typed_wipe [typed_db]: "keeps store_typed (wipe_peer E y c)"
  unfolding wipe_peer_def Let_def by (intro keeps_intros, (intro store_typed_intros, simp_all add: store_typedD)+)

lemma typed_identity [typed_db]: "keeps store_typed (identity_ensure E)"
proof -
  have "keeps store_typed (users_insert E new)" for new
    unfolding users_insert_def on_os_seal_def stmt_checked_def
    by (intro keeps_intros keepsI)
      (auto simp: schema_defs elim: store_typed_tables split: option.splits sum.splits if_splits)
  then show ?thesis
    unfolding identity_ensure_def Let_def
    by (intro keeps_intros keeps_db) (simp_all add: store_typed_keyed)
qed

lemmas typed_reads [typed_db] = keeps_reads [of store_typed]

lemma typed_deletes_due [typed_db]: "keeps store_typed (deletes_due E now n)"
  by (simp add: keeps_def)

end
