(* ===== verification/Inbound.thy ===== *)
theory Inbound
  imports Outbox Frames Multiaddr
begin

text \<open>
  The handlers of inbound handshakes and messages (\<open>event_loop.rs\<close>): the rate limiter, the check
  that the claimed identity is that of the connection, the block gate, the opening of the
  envelope, the control payloads and the storage of a text.
\<close>

section \<open>Wiping a conversation, control payloads\<close>

definition forget_peer :: "y7id \<Rightarrow> app \<Rightarrow> app" where
  "forget_peer y s =
     s\<lparr>presence := AList.delete y (presence s), connections := (connections s)(y := None),
       connection_meta_of := (connection_meta_of s)(y := None),
       upgrade_backoff := (upgrade_backoff s)(y := None),
       reconnect_backoff := (reconnect_backoff s)(y := None)\<rparr>"

definition wipe_conversation :: "ext \<Rightarrow> y7id \<Rightarrow> (app, unit) action" where
  "wipe_conversation E peer =
     andThen (asks my_y7_id) (\<lambda>me.
       seqA (on_db (wipe_peer E peer (conversation_between E me peer)))
            (modify (forget_peer peer)))"

text \<open>Resolve every pending request of the peer; a failing resolution is ignored.\<close>

definition resolve_pending_of ::
  "ext \<Rightarrow> y7id \<Rightarrow> request_resolution \<Rightarrow> (app, unit) action \<Rightarrow> (app, unit) action" where
  "resolve_pending_of E peer resolution each =
     andThen (on_db (requests_list_pending E None)) (\<lambda>pending.
       forA pending (\<lambda>r.
         if req_peer r = peer then seqA (ignore (on_db (requests_resolve (req_id r) resolution))) each
         else ret ()))"

definition handle_control :: "ext \<Rightarrow> y7id \<Rightarrow> control_payload \<Rightarrow> (app, unit) action" where
  "handle_control E sender ctrl =
     (case ctrl of
        RejectedRequest \<Rightarrow>
          seqA (resolve_pending_of E sender ResRejected (ret ()))
            (seqA (ignore (on_db (contacts_update_status E sender Blocked)))
               (emit (RequestResolved (to_uri E sender) ResRejected)))
      | AcceptedRequest \<Rightarrow>
          seqA (resolve_pending_of E sender ResAccepted (ret ()))
            (seqA (ignore (on_db (contacts_update_status E sender Accepted)))
               (seqA (emit (RequestResolved (to_uri E sender) ResAccepted))
                  (emit (ContactAdded (to_uri E sender)))))
      | ChatDeleted \<Rightarrow>
          seqA (wipe_conversation E sender) (emit (ContactRemoved (to_uri E sender))))"

section \<open>Handshakes\<close>

definition limiter ::
  "(peer \<Rightarrow> int \<Rightarrow> rate_limiter \<Rightarrow> bool \<times> rate_limiter) \<Rightarrow> peer \<Rightarrow> (app, bool) action" where
  "limiter allow p =
     andThen instant_now (\<lambda>now s.
       case allow p now (app_limiter s) of (ok, rl) \<Rightarrow> (Inr ok, s\<lparr>app_limiter := rl\<rparr>))"

definition ensure_incoming_request :: "ext \<Rightarrow> y7id \<Rightarrow> string option \<Rightarrow> (app, unit) action" where
  "ensure_incoming_request E initiator greeting =
     andThen (on_db (contacts_get E initiator)) (\<lambda>existing.
       if map_option contact_state existing = Some Accepted then ret ()
       else
         seqA
           (if existing = None
            then discard (on_db (contacts_insert E
                   \<lparr>nc_id = initiator, nc_pub = pubkey initiator, nc_nickname = None,
                    nc_status = PendingIn\<rparr>))
            else ret ())
           (andThen (on_db (requests_list_pending E (Some Incoming))) (\<lambda>pending.
              seqA
                (if \<exists>r \<in> set pending. req_peer r = initiator then ret ()
                 else discard (on_db (requests_insert E
                        \<lparr>nr_direction = Incoming, nr_peer = initiator, nr_text = greeting\<rparr>)))
                (emit (RequestReceived (to_uri E initiator) greeting)))))"

definition refuse_handshake :: "ext \<Rightarrow> handshake_req \<Rightarrow> channel \<Rightarrow> (app, unit) action" where
  "refuse_handshake E request ch =
     andThen (asks app_me) (\<lambda>me. andThen (asks my_pubkey) (\<lambda>pk.
       net_command (WRespondHandshake ch (reject_response E me pk request))))"

definition handle_handshake ::
  "ext \<Rightarrow> peer \<Rightarrow> handshake_req \<Rightarrow> channel \<Rightarrow> (app, unit) action" where
  "handle_handshake E p request ch =
     andThen (limiter allow_handshake p) (\<lambda>allowed.
       if \<not> allowed then
         seqA (modify (\<lambda>s. s\<lparr>rl_drops_handshake := rl_drops_handshake s + 1\<rparr>))
           (refuse_handshake E request ch)
       else
         (let claimed = from_pubkey (initiator_ed25519_pub request) in
          andThen (lift_res (peer_id_from_y7 E claimed)) (\<lambda>expected.
            if expected \<noteq> p then refuse_handshake E request ch
            else
              andThen (on_db (sessions_get E claimed)) (\<lambda>session.
                if session \<noteq> None then
                  seqA (refuse_handshake E request ch)
                    (ensure_incoming_request E claimed (hs_greeting request))
                else
                  andThen (asks app_me) (\<lambda>me. andThen (asks my_pubkey) (\<lambda>pk.
                    andThen (app_os (respond E me pk request)) (\<lambda>(resp, _, initiator).
                      seqA (on_db (sessions_upsert E initiator))
                        (seqA (net_command (WRespondHandshake ch resp))
                           (ensure_incoming_request E initiator (hs_greeting request))))))))))"

section \<open>Messages\<close>

definition max_message_bytes :: int where
  "max_message_bytes = 64 * 1024"

definition ack_msg :: "channel \<Rightarrow> bool \<Rightarrow> (app, unit) action" where
  "ack_msg ch ack = net_command (WRespondMsg ch ack)"

definition stored_as :: "conversation_id \<Rightarrow> bytes \<Rightarrow> message_envelope \<Rightarrow> new_message" where
  "stored_as conv me e =
     \<lparr>nm_id = message_id_from_bytes (env_message_id e), nm_conv = conv, nm_sender = env_sender_pub e,
      nm_recipient = me, nm_timestamp = env_timestamp_ms e, nm_status = Synced,
      nm_payload = env_ciphertext e, nm_nonce = env_nonce e, nm_sig = env_sig e\<rparr>"

definition received_event ::
  "ext \<Rightarrow> conversation_id \<Rightarrow> y7id \<Rightarrow> message_envelope \<Rightarrow> string \<Rightarrow> app_event" where
  "received_event E conv sender e body =
     MessageReceived (to_hex conv) (message_id_show E (message_id_from_bytes (env_message_id e)))
       (to_uri E sender) (env_timestamp_ms e) body"

text \<open>A text from a peer whose acceptance we await is the acceptance.\<close>

definition promote_pending_out :: "ext \<Rightarrow> y7id \<Rightarrow> (app, unit) action" where
  "promote_pending_out E sender =
     andThen (on_db (contacts_get E sender)) (\<lambda>contact.
       if map_option contact_state contact = Some PendingOut then
         seqA (on_db (contacts_update_status E sender Accepted))
           (seqA
              (resolve_pending_of E sender ResAccepted
                 (emit (RequestResolved (to_uri E sender) ResAccepted)))
              (emit (ContactAdded (to_uri E sender))))
       else ret ())"

definition open_from_peer ::
  "ext \<Rightarrow> conversation_id \<Rightarrow> message_envelope \<Rightarrow> (app, plaintext_kind) action" where
  "open_from_peer E conv e =
     andThen (asks app_me) (\<lambda>me.
     andThen (lift_res (derive_conv_key E me (env_sender_pub e) (conv_bytes conv))) (\<lambda>conv_key.
     andThen (lift_res (verifying_key_from_bytes E (env_sender_pub e))) (\<lambda>verifying.
       lift_res (open_envelope E e verifying conv_key))))"

text \<open>What a message that passed every check does.\<close>

definition deliver ::
  "ext \<Rightarrow> y7id \<Rightarrow> conversation_id \<Rightarrow> message_envelope \<Rightarrow> channel \<Rightarrow> plaintext_kind \<Rightarrow> (app, unit) action"
  where
  "deliver E sender conv e ch kind =
     (case kind of
        Control ctrl \<Rightarrow> seqA (handle_control E sender ctrl) (ack_msg ch True)
      | Text body \<Rightarrow>
          andThen (asks my_pubkey) (\<lambda>pk.
          andThen (on_db (messages_insert (stored_as conv pk e))) (\<lambda>inserted.
            seqA (ack_msg ch True)
              (seqA (promote_pending_out E sender)
                 (if inserted then emit (received_event E conv sender e body) else ret ())))))"

definition handle_msg :: "ext \<Rightarrow> peer \<Rightarrow> message_envelope \<Rightarrow> channel \<Rightarrow> (app, unit) action" where
  "handle_msg E p e ch =
     andThen (limiter allow_msg p) (\<lambda>allowed.
       if \<not> allowed then
         seqA (modify (\<lambda>s. s\<lparr>rl_drops_msg := rl_drops_msg s + 1\<rparr>)) (ack_msg ch False)
       else if int (length (env_ciphertext e)) > max_message_bytes + 256 then ack_msg ch False
       else
         (let sender = from_pubkey (env_sender_pub e) in
          andThen (lift_res (peer_id_from_y7 E sender)) (\<lambda>expected.
          if expected \<noteq> p then ack_msg ch False
          else
          andThen (on_db (sessions_get E sender)) (\<lambda>session.
          if session = None then ack_msg ch False
          else
          andThen (on_db (contacts_get E sender)) (\<lambda>contact.
          if map_option contact_state contact = Some Blocked then ack_msg ch True
          else
          andThen (asks my_y7_id) (\<lambda>me.
          let conv = conversation_between E sender me in
          andThen (open_from_peer E conv e) (\<lambda>kind. deliver E sender conv e ch kind)))))))"

section \<open>Reading steps\<close>

lemma run_limiter:
  "limiter allow p s =
     (case allow p (os_instant (db_os (app_db s))) (app_limiter s) of
        (ok, rl) \<Rightarrow> (Inr ok, s\<lparr>app_limiter := rl\<rparr>))"
  by (simp add: limiter_def andThen_def)

lemma sessions_get_cong:
  "db_fault d = db_fault d' \<Longrightarrow> t_sessions (db_tables d) = t_sessions (db_tables d') \<Longrightarrow>
   fst (sessions_get E y d) = fst (sessions_get E y d')"
  by (simp add: sessions_get_def query_def stmt_def andThen_lift_res andThen_def split: option.splits sum.splits)

lemma contacts_get_cong:
  "db_fault d = db_fault d' \<Longrightarrow> t_contacts (db_tables d) = t_contacts (db_tables d') \<Longrightarrow>
   fst (contacts_get E y d) = fst (contacts_get E y d')"
  by (simp add: contacts_get_def query_def stmt_def andThen_lift_res andThen_def split: option.splits sum.splits)

lemma open_from_peer_cong:
  "app_me s = app_me t \<Longrightarrow> fst (open_from_peer E conv e s) = fst (open_from_peer E conv e t)"
  by (simp add: open_from_peer_def andThen_lift_res split: sum.splits)

lemma open_from_peer_limiter [simp]:
  "fst (open_from_peer E conv e (s\<lparr>app_limiter := rl\<rparr>)) = fst (open_from_peer E conv e s)"
  by (simp add: open_from_peer_def andThen_lift_res split: sum.splits)

lemma open_from_peer_read [simp]: "snd (open_from_peer E conv e s) = s"
  by (simp add: open_from_peer_def andThen_def split: sum.splits)

definition opened :: "ext \<Rightarrow> app \<Rightarrow> message_envelope \<Rightarrow> plaintext_kind \<Rightarrow> bool" where
  "opened E s e kind \<longleftrightarrow>
     fst (open_from_peer E (conversation_between E (Y7Id (env_sender_pub e)) (my_y7_id s)) e s) = Inr kind"

text \<open>The checks that come before anything is stored, dispatched or emitted.\<close>

definition msg_gate :: "ext \<Rightarrow> peer \<Rightarrow> app \<Rightarrow> message_envelope \<Rightarrow> plaintext_kind \<Rightarrow> bool" where
  "msg_gate E p s e kind \<longleftrightarrow>
     int (length (env_ciphertext e)) \<le> max_message_bytes + 256 \<and>
     peer_id_from_y7 E (Y7Id (env_sender_pub e)) = Inr p \<and>
     (\<exists>x. fst (sessions_get E (Y7Id (env_sender_pub e)) (app_db s)) = Inr (Some x)) \<and>
     (\<exists>c. fst (contacts_get E (Y7Id (env_sender_pub e)) (app_db s)) = Inr c \<and>
          map_option contact_state c \<noteq> Some Blocked) \<and>
     opened E s e kind"

text \<open>A step that at most answers the request and counts it.\<close>

definition only_answers :: "channel \<Rightarrow> app \<Rightarrow> app \<Rightarrow> bool" where
  "only_answers ch s s' \<longleftrightarrow>
     (\<exists>rl n w. s' = s\<lparr>app_limiter := rl, rl_drops_msg := n, app_wire := app_wire s @ w\<rparr> \<and>
               w \<in> {[], [WRespondMsg ch True], [WRespondMsg ch False]})"

lemma handle_msg_cases:
  assumes "handle_msg E p e ch s = (r, s')"
  obtains (quiet) "only_answers ch s s'"
  | (delivered) kind rl where "msg_gate E p s e kind"
      "deliver E (Y7Id (env_sender_pub e)) (conversation_between E (Y7Id (env_sender_pub e)) (my_y7_id s))
         e ch kind (s\<lparr>app_limiter := rl\<rparr>) = (r, s')"
proof -
  obtain ok rl where al: "allow_msg p (os_instant (db_os (app_db s))) (app_limiter s) = (ok, rl)"
    by fastforce
  then have l: "limiter allow_msg p s = (Inr ok, s\<lparr>app_limiter := rl\<rparr>)"
    by (simp add: run_limiter)
  let ?s = "s\<lparr>app_limiter := rl\<rparr>"
  have ans: "only_answers ch s (s\<lparr>app_limiter := rl, rl_drops_msg := n, app_wire := app_wire s @ w\<rparr>)"
    if "w \<in> {[], [WRespondMsg ch True], [WRespondMsg ch False]}" for n w
    using that unfolding only_answers_def by blast
  have quiets: "only_answers ch s (?s\<lparr>app_wire := app_wire s @ [WRespondMsg ch b]\<rparr>)"
    "only_answers ch s ?s" for b
    using ans [of "[WRespondMsg ch b]" "rl_drops_msg s"] ans [of "[]" "rl_drops_msg s"] by (cases b; simp)+
  have dropped: "only_answers ch s
      (?s\<lparr>rl_drops_msg := n, app_wire := app_wire s @ [WRespondMsg ch b]\<rparr>)" for n b
    using ans [of "[WRespondMsg ch b]" n] by (cases b) simp_all
  show ?thesis
  proof (cases "only_answers ch s s'")
    case False
    have lim: "andThen (limiter allow_msg p) f s = f ok ?s" for f :: "bool \<Rightarrow> (app, unit) action"
      using l by (simp add: andThen_def)
    let ?y = "Y7Id (env_sender_pub e)"
    let ?conv = "conversation_between E ?y (my_y7_id s)"
    have "\<exists>kind. msg_gate E p s e kind \<and> deliver E ?y ?conv e ch kind ?s = (r, s')"
      using assms False quiets dropped
      by (auto simp: handle_msg_def lim ack_msg_def run_net_command seqA_def andThen_read from_pubkey_def
          Let_def msg_gate_def opened_def split: if_splits sum.splits)
    with delivered show ?thesis
      by auto
  qed (rule quiet)
qed

section \<open>Authenticity and blocks\<close>

lemma opened_signed:
  assumes "opened E s e kind"
  shows "ed_check E (env_sender_pub e)
      (signed_bytes (env_message_id e) (env_timestamp_ms e) (env_ciphertext e)) (env_sig e)"
  using assms open_envelope_InrD
  by (auto simp: opened_def open_from_peer_def andThen_lift_res verifying_key_from_bytes_def
      split: sum.splits if_splits) fastforce+

lemma sessions_get_Some_key:
  assumes "fst (sessions_get E y d) = Inr (Some x)"
  shows "has_key sr_peer (to_uri E y) (t_sessions (db_tables d))"
proof -
  have "find_row sr_peer (to_uri E y) (t_sessions (db_tables d)) \<noteq> None"
    using assms by (auto simp: sessions_get_def query_def stmt_def andThen_def split: option.splits)
  then show ?thesis
    by (simp add: find_row_None_iff)
qed

lemma gate_status:
  assumes "msg_gate E p s e kind"
  shows "status_of E (Y7Id (env_sender_pub e)) (db_tables (app_db s)) \<noteq> Some Blocked"
proof -
  obtain c where "fst (contacts_get E (Y7Id (env_sender_pub e)) (app_db s)) = Inr c"
    and c: "map_option contact_state c \<noteq> Some Blocked"
    using assms by (auto simp: msg_gate_def)
  then have g: "contacts_get E (Y7Id (env_sender_pub e)) (app_db s) = (Inr c, app_db s)"
    by (metis contacts_get_state prod.collapse)
  show ?thesis
    using g c contacts_get_Some(2) contacts_get_None(2) by (cases c) fastforce+
qed

text \<open>
  C1. Authenticity of inbound messages: a message changes something other than the answer and
  the rate limiter only when it is within the size bound, the key it claims is the key of the
  connection it came over, its signature verifies under that key, a session with that peer is
  established, and the peer is not blocked.
\<close>

theorem handle_msg_authentic:
  assumes "handle_msg E p e ch s = (r, s')"
  shows "only_answers ch s s' \<or>
     (int (length (env_ciphertext e)) \<le> max_message_bytes + 256 \<and>
      peer_id_from_y7 E (Y7Id (env_sender_pub e)) = Inr p \<and>
      ed_check E (env_sender_pub e)
        (signed_bytes (env_message_id e) (env_timestamp_ms e) (env_ciphertext e)) (env_sig e) \<and>
      has_key sr_peer (to_uri E (Y7Id (env_sender_pub e))) (t_sessions (db_tables (app_db s))) \<and>
      status_of E (Y7Id (env_sender_pub e)) (db_tables (app_db s)) \<noteq> Some Blocked)"
  using assms
proof (cases rule: handle_msg_cases)
  case (delivered kind rl)
  have "has_key sr_peer (to_uri E (Y7Id (env_sender_pub e))) (t_sessions (db_tables (app_db s)))"
    using delivered(1) sessions_get_Some_key by (auto simp: msg_gate_def)
  with delivered(1) gate_status [OF delivered(1)] opened_signed show ?thesis
    by (auto simp: msg_gate_def)
qed simp

text \<open>
  C4. A message of a blocked peer reaches nothing: whatever envelope comes from an identity blocked in
  the address book, the database, the caches, the events and the tasks stay as they are; at most
  an answer goes out.
\<close>

theorem blocked_peer_is_silent:
  assumes "peer_law E" "peer_id_from_y7 E y = Inr p"
    and "status_of E y (db_tables (app_db s)) = Some Blocked"
    and "handle_msg E p e ch s = (r, s')"
  shows "only_answers ch s s'"
  using assms(4)
proof (cases rule: handle_msg_cases)
  case (delivered kind rl)
  then have "Y7Id (env_sender_pub e) = y"
    using y7_of_peer_of_y7 [OF assms(1)] assms(2) by (auto simp: msg_gate_def)
      (metis option.inject)
  with gate_status [OF delivered(1)] assms(3) show ?thesis
    by simp
qed

section \<open>Stored once, announced once\<close>

lemma seqA_assoc: "seqA (seqA m k) l = seqA m (seqA k l)"
  by (simp add: seqA_def andThen_assoc)

lemma seqA_keeps:
  assumes "keeps P m" "P s" "seqA m k s = (r, s')"
  shows "(\<exists>e. r = Inl e \<and> P s') \<or> (\<exists>t. P t \<and> k t = (r, s'))"
  using assms(3) keepsD [OF assms(1,2)]
  by (auto simp: seqA_def andThen_def split: prod.splits sum.splits)

fun is_received :: "app_event \<Rightarrow> bool" where
  "is_received (MessageReceived _ _ _ _ _) = True"
| "is_received _ = False"

definition received :: "app \<Rightarrow> app_event list" where
  "received s = filter is_received (app_events s)"

lemma keeps_emit_other:
  "\<not> is_received ev \<Longrightarrow> (\<And>s es. P s \<Longrightarrow> filter is_received es = received s \<Longrightarrow> P (s\<lparr>app_events := es\<rparr>)) \<Longrightarrow>
   keeps P (emit ev)"
  by (simp add: keeps_def received_def)

lemma keeps_resolve_pending:
  assumes "\<And>s rows. P s \<Longrightarrow>
      P (s\<lparr>app_db := (app_db s)\<lparr>db_tables := (db_tables (app_db s))\<lparr>t_requests := rows\<rparr>\<rparr>\<rparr>)"
    and "keeps P each"
  shows "keeps P (resolve_pending_of E y res each)"
  unfolding resolve_pending_of_def
proof (intro keeps_intros assms(2))
  show "keeps P (on_db (requests_list_pending E None))"
    by (intro keeps_db)
  show "keeps P (on_db (requests_resolve i res))" for i
    using assms(1) [of "_\<lparr>app_db := _\<rparr>"] by (intro keeps_db) simp
qed

text \<open>What the promotion of an awaited contact may touch.\<close>

lemma keeps_promote:
  assumes "\<And>s rows. P s \<Longrightarrow>
      P (s\<lparr>app_db := (app_db s)\<lparr>db_tables := (db_tables (app_db s))\<lparr>t_requests := rows\<rparr>\<rparr>\<rparr>)"
    and "\<And>s rows. P s \<Longrightarrow>
      P (s\<lparr>app_db := (app_db s)\<lparr>db_tables := (db_tables (app_db s))\<lparr>t_contacts := rows\<rparr>\<rparr>\<rparr>)"
    and "\<And>s es. P s \<Longrightarrow> filter is_received es = received s \<Longrightarrow> P (s\<lparr>app_events := es\<rparr>)"
  shows "keeps P (promote_pending_out E y)"
  unfolding promote_pending_out_def
proof (intro keeps_andThen keeps_if keeps_seqA keeps_ret keeps_resolve_pending keeps_emit_other)
  show "keeps P (on_db (contacts_get E y))"
    by (intro keeps_db)
  show "keeps P (on_db (contacts_update_status E y Accepted))"
    using assms(2) [of "_\<lparr>app_db := _\<rparr>"] by (intro keeps_db) simp
qed (use assms in simp_all)

lemma control_not_received:
  "keeps (\<lambda>t. received t = R \<and> set (messages_of t) \<subseteq> M) (handle_control E y ctrl)"
proof -
  let ?P = "\<lambda>t. received t = R \<and> set (messages_of t) \<subseteq> M"
  have "keeps ?P (resolve_pending_of E y res (ret ()))" for res
    by (rule keeps_resolve_pending) (auto simp: received_def messages_of_def keeps_ret)
  moreover have "keeps ?P (ignore (on_db (contacts_update_status E y st)))" for st
    by (intro keeps_intros keeps_db) (auto simp: received_def messages_of_def)
  moreover have "keeps ?P (emit ev)" if "\<not> is_received ev" for ev
    using that by (intro keeps_emit_other) (auto simp: received_def messages_of_def)
  moreover have "keeps ?P (wipe_conversation E y)"
    unfolding wipe_conversation_def wipe_peer_def Let_def
    by (intro keeps_intros keeps_db)
      (auto simp: received_def messages_of_def forget_peer_def)
  ultimately show ?thesis
    by (cases ctrl) (auto simp: handle_control_def intro!: keeps_seqA)
qed

lemma deliver_text_run:
  "deliver E y conv e ch (Text body) s =
     (case messages_insert (stored_as conv (my_pubkey s) e) (app_db s) of
        (Inl err, d) \<Rightarrow> (Inl err, s\<lparr>app_db := d\<rparr>)
      | (Inr b, d) \<Rightarrow>
          seqA (ack_msg ch True) (seqA (promote_pending_out E y)
            (if b then emit (received_event E conv y e body) else ret ())) (s\<lparr>app_db := d\<rparr>))"
  by (simp add: deliver_def andThen_def run_on_db split: prod.splits sum.splits)

text \<open>A text that could not be stored ends the delivery; one that could is acknowledged first.\<close>

lemma deliver_text_unstored:
  assumes "messages_insert (stored_as conv (my_pubkey s) e) (app_db s) = (Inl err, d)"
  shows "deliver E y conv e ch (Text body) s = (Inl err, s)"
proof -
  have "d = app_db s"
    using assms by (auto simp: messages_insert_def stmt_def action_simps split: option.splits)
  with assms show ?thesis
    by (simp add: deliver_text_run)
qed

lemma deliver_text_stored:
  assumes "messages_insert (stored_as conv (my_pubkey s) e) (app_db s) = (Inr b, d)"
    and "deliver E y conv e ch (Text body) s = (r, s')"
  shows "messages_of s' = t_messages (db_tables d)" "app_wire s' = app_wire s @ [WRespondMsg ch True]"
    "(\<exists>err. r = Inl err \<and> received s' = received s) \<or>
     (r = Inr () \<and> received s' = received s @ (if b then [received_event E conv y e body] else []))"
proof -
  let ?Q = "\<lambda>t. received t = received s \<and> messages_of t = t_messages (db_tables d) \<and>
      app_wire t = app_wire s @ [WRespondMsg ch True]"
  let ?u = "s\<lparr>app_db := d, app_wire := app_wire s @ [WRespondMsg ch True]\<rparr>"
  let ?final = "if b then emit (received_event E conv y e body) else ret ()"
  have u: "?Q ?u" "?Q (s\<lparr>app_db := d, app_wire := app_wire s @ [WRespondMsg ch True]\<rparr>)"
    by (simp_all add: received_def messages_of_def)
  have "keeps ?Q (promote_pending_out E y)"
    by (intro keeps_promote) (auto simp: received_def messages_of_def)
  then have v: "?Q (snd (promote_pending_out E y ?u))"
    using u(1) by (rule keepsD)
  have "(\<exists>err. r = Inl err \<and> ?Q s') \<or> (\<exists>t. ?Q t \<and> ?final t = (r, s'))"
    using assms u v
    by (cases "promote_pending_out E y ?u")
      (auto simp: deliver_text_run ack_msg_def seqA_def andThen_def run_net_command split: sum.splits option.splits)
  then show "messages_of s' = t_messages (db_tables d)" "app_wire s' = app_wire s @ [WRespondMsg ch True]"
    "(\<exists>err. r = Inl err \<and> received s' = received s) \<or>
     (r = Inr () \<and> received s' = received s @ (if b then [received_event E conv y e body] else []))"
    by (auto simp: received_def messages_of_def received_event_def split: if_splits)
qed

text \<open>
  C8. Each inbound message is stored at most once and announced at most once: a delivery
  either leaves the stored messages as they are, apart from rows that a deletion removes, and
  announces nothing; or the message id was not stored before, exactly one row with the contents
  of the envelope is appended, and it is announced once unless the promotion of the contact
  failed in between.
\<close>

theorem message_delivered_once:
  assumes "handle_msg E p e ch s = (r, s')"
  shows "(received s' = received s \<and> set (messages_of s') \<subseteq> set (messages_of s)) \<or>
     (\<not> has_key mr_id (env_message_id e) (messages_of s) \<and>
      (\<exists>row. messages_of s' = messages_of s @ [row] \<and> mr_id row = env_message_id e \<and>
         mr_sender row = env_sender_pub e \<and> mr_payload row = env_ciphertext e \<and>
         mr_recipient row = my_pubkey s \<and> mr_status row = 3) \<and>
      (\<exists>evs. received s' = received s @ evs \<and> length evs = (if r = Inr () then 1 else length evs) \<and>
         length evs \<le> 1))"
  using assms
proof (cases rule: handle_msg_cases)
  case quiet
  then show ?thesis
    by (auto simp: only_answers_def received_def messages_of_def)
next
  case (delivered kind rl)
  let ?y = "Y7Id (env_sender_pub e)"
  let ?conv = "conversation_between E ?y (my_y7_id s)"
  let ?s = "s\<lparr>app_limiter := rl\<rparr>"
  show ?thesis
  proof (cases kind)
    case (Control ctrl)
    have "keeps (\<lambda>t. received t = received s \<and> set (messages_of t) \<subseteq> set (messages_of s))
        (seqA (handle_control E ?y ctrl) (ack_msg ch True))"
      unfolding ack_msg_def
      by (intro keeps_seqA control_not_received keeps_net_command) (simp add: received_def messages_of_def)
    from keepsD [OF this, of ?s] delivered(2) Control show ?thesis
      by (auto simp: deliver_def received_def messages_of_def)
  next
    case (Text body)
    show ?thesis
    proof (cases "messages_insert (stored_as ?conv (my_pubkey ?s) e) (app_db ?s)")
      case (Pair ri d)
      note unstored = deliver_text_unstored [of ?conv ?s e _ d E ?y ch body]
        and stored = deliver_text_stored [of ?conv ?s e _ d E ?y ch body r s']
      show ?thesis
        using delivered(2) Pair Text unstored stored messages_insert_Inr [of "stored_as ?conv (my_pubkey s) e" "app_db s" _ d]
        by (cases ri) (auto simp: received_def messages_of_def insert_or_ignore_def stored_as_def
            message_id_from_bytes_def message_new_row_def split: if_splits)
    qed
  qed
qed

lemma handle_msg_passes:
  assumes "msg_gate E p s e kind" "limiter allow_msg p s = (Inr True, t)"
  shows "handle_msg E p e ch s = deliver E (Y7Id (env_sender_pub e))
      (conversation_between E (Y7Id (env_sender_pub e)) (my_y7_id s)) e ch kind t"
proof -
  obtain rl where t: "t = s\<lparr>app_limiter := rl\<rparr>"
    using assms(2) by (auto simp: run_limiter split: prod.splits)
  have "andThen (limiter allow_msg p) f s = f True t" for f :: "bool \<Rightarrow> (app, unit) action"
    using assms(2) by (simp add: andThen_def)
  then show ?thesis
    using assms(1)
    by (auto simp: handle_msg_def t andThen_read from_pubkey_def Let_def msg_gate_def opened_def)
qed

text \<open>A message that does not pass the checks is at most refused, unless its sender is blocked.\<close>

lemma handle_msg_denied:
  assumes "\<not> fst (allow_msg p (os_instant (db_os (app_db s))) (app_limiter s)) \<or> \<not> (\<exists>kind. msg_gate E p s e kind)"
    and "status_of E (Y7Id (env_sender_pub e)) (db_tables (app_db s)) \<noteq> Some Blocked"
  shows "app_wire (snd (handle_msg E p e ch s)) \<in> {app_wire s, app_wire s @ [WRespondMsg ch False]}"
proof -
  obtain ok rl where al: "allow_msg p (os_instant (db_os (app_db s))) (app_limiter s) = (ok, rl)"
    by fastforce
  then have lim: "andThen (limiter allow_msg p) f s = f ok (s\<lparr>app_limiter := rl\<rparr>)"
    for f :: "bool \<Rightarrow> (app, unit) action"
    by (simp add: run_limiter andThen_def)
  have "contact_state c \<noteq> Blocked"
    if "fst (contacts_get E (Y7Id (env_sender_pub e)) (app_db s)) = Inr (Some c)" for c
    using assms(2) that contacts_get_Some(2) by (metis prod.collapse)
  with assms(1) al show ?thesis
    by (auto simp: handle_msg_def lim ack_msg_def run_net_command seqA_def andThen_read from_pubkey_def
        Let_def msg_gate_def opened_def split: if_splits sum.splits)
qed

lemma deliver_text_acked:
  assumes "deliver E y conv e ch (Text body) s = (r, s')" "app_wire s' \<noteq> app_wire s"
  shows "messages_of s' = insert_or_ignore mr_id
    (message_new_row (os_now (db_os (app_db s))) (stored_as conv (my_pubkey s) e)) (messages_of s)"
proof (cases "messages_insert (stored_as conv (my_pubkey s) e) (app_db s)")
  case (Pair ri d)
  then show ?thesis
    using assms deliver_text_unstored [of conv s e _ d E y ch body] deliver_text_stored(1) [of conv s e _ d E y ch body]
      messages_insert_Inr(3) [of "stored_as conv (my_pubkey s) e" "app_db s" _ d]
    by (cases ri) (auto simp: messages_of_def)
qed

text \<open>
  C9. An acknowledgement is a promise: to a sender that is not blocked, the answer that lets it
  take a text off its queue is given only when the text's id is stored. If no row had this id before,
  the row that is stored now is appended to the others and holds what the envelope says, in
  the conversation with the sender; if one had it, the stored messages are as they were.
  (A blocked sender is answered without storing anything.)
\<close>

theorem acked_means_stored:
  assumes "handle_msg E p e ch s = (r, s')" "opened E s e (Text body)"
    and "status_of E (Y7Id (env_sender_pub e)) (db_tables (app_db s)) \<noteq> Some Blocked"
    and "WRespondMsg ch True \<in> set (drop (length (app_wire s)) (app_wire s'))"
  shows "has_key mr_id (env_message_id e) (messages_of s') \<and>
    messages_of s' =
      (if has_key mr_id (env_message_id e) (messages_of s) then messages_of s
       else messages_of s @ [\<lparr>mr_id = env_message_id e,
         mr_conv = conv_bytes (conversation_between E (Y7Id (env_sender_pub e)) (my_y7_id s)),
         mr_sender = env_sender_pub e, mr_recipient = my_pubkey s, mr_timestamp = env_timestamp_ms e,
         mr_status = message_status_as_i64 Synced, mr_payload = env_ciphertext e, mr_nonce = env_nonce e,
         mr_sig = env_sig e, mr_inserted_at = os_now (db_os (app_db s))\<rparr>])"
proof -
  obtain rl where lim: "limiter allow_msg p s =
      (Inr (fst (allow_msg p (os_instant (db_os (app_db s))) (app_limiter s))), s\<lparr>app_limiter := rl\<rparr>)"
    by (cases "allow_msg p (os_instant (db_os (app_db s))) (app_limiter s)") (simp add: run_limiter)
  obtain kind where "fst (allow_msg p (os_instant (db_os (app_db s))) (app_limiter s))" "msg_gate E p s e kind"
    using handle_msg_denied [OF _ assms(3), of p ch] assms(1,4) by fastforce
  moreover from this have "kind = Text body"
    using assms(2) by (simp add: msg_gate_def opened_def)
  ultimately have "deliver E (Y7Id (env_sender_pub e)) (conversation_between E (Y7Id (env_sender_pub e)) (my_y7_id s))
      e ch (Text body) (s\<lparr>app_limiter := rl\<rparr>) = (r, s')"
    using handle_msg_passes [of E p s e "Text body"] lim assms(1) by simp
  moreover have "app_wire s' \<noteq> app_wire s"
    using assms(4) by auto
  ultimately show ?thesis
    using deliver_text_acked [of E _ _ e ch body "s\<lparr>app_limiter := rl\<rparr>"] by (auto simp: insert_or_ignore_def has_key_def message_new_row_def stored_as_def
        message_id_from_bytes_def messages_of_def)
qed

text \<open>Only the id is looked at: a text under an id that any other row holds is acknowledged and lost.\<close>

lemma taken_id_is_acked:
  assumes "has_key mr_id (env_message_id e) (messages_of s)" "db_fault (app_db s) ''messages.insert'' = None"
    and "deliver E y conv e ch (Text body) s = (r, s')"
  shows "app_wire s' = app_wire s @ [WRespondMsg ch True] \<and> messages_of s' = messages_of s"
proof -
  obtain d where ins: "messages_insert (stored_as conv (my_pubkey s) e) (app_db s) = (Inr False, d)"
    using assms(1,2) by (simp add: messages_insert_def stmt_def andThen_def stored_as_def
        message_id_from_bytes_def messages_of_def)
  show ?thesis
    using deliver_text_stored(1,2) [OF ins assms(3)] messages_insert_Inr(3) [OF ins] assms(1)
    by (simp add: insert_or_ignore_def stored_as_def message_id_from_bytes_def messages_of_def)
qed

section \<open>The accept gate\<close>

abbreviation status_in :: "ext \<Rightarrow> app \<Rightarrow> y7id \<Rightarrow> contact_status option" where
  "status_in E s y \<equiv> status_of E y (db_tables (app_db s))"

definition gated :: "ext \<Rightarrow> y7id \<Rightarrow> contact_status option \<Rightarrow> contact_status \<Rightarrow> app \<Rightarrow> app \<Rightarrow> bool" where
  "gated E sender before new s t \<longleftrightarrow>
     (\<forall>y. status_in E t y = status_in E s y \<or>
          (to_uri E y = to_uri E sender \<and> status_in E s y = before \<and> status_in E t y = Some new))"

lemma gated_refl [simp]: "gated E y b st s s"
  by (simp add: gated_def)

lemma gated_same_contacts:
  "gated E y b st s t \<Longrightarrow> t_contacts (db_tables (app_db u)) = t_contacts (db_tables (app_db t)) \<Longrightarrow>
   gated E y b st s u"
  by (simp add: gated_def status_of_def)

lemma keeps_gated_update:
  assumes "status_in E s sender = b"
  shows "keeps (gated E sender b st s) (on_db (contacts_update_status E sender st))"
proof (rule keepsI)
  fix t assume "gated E sender b st s t"
  then have t: "status_in E t y = status_in E s y \<or>
      (to_uri E y = to_uri E sender \<and> status_in E s y = b \<and> status_in E t y = Some st)" for y
    by (simp add: gated_def)
  have b: "to_uri E y = to_uri E sender \<Longrightarrow> status_in E s y = b" for y
    using assms status_of_uri [of E y sender] by simp
  let ?d = "snd (contacts_update_status E sender st (app_db t))"
  have "status_of E y (db_tables ?d) = status_in E s y \<or>
      (to_uri E y = to_uri E sender \<and> status_in E s y = b \<and> status_of E y (db_tables ?d) = Some st)" for y
    using t [of y] b [of y] contacts_update_effect [of E y sender st "app_db t"] by auto
  then show "gated E sender b st s (snd (on_db (contacts_update_status E sender st) t))"
    by (simp add: gated_def run_on_db)
qed

lemma keeps_gated_resolve: "keeps (gated E y b st s) (resolve_pending_of E z res (emit ev))"
  "keeps (gated E y b st s) (resolve_pending_of E z res (ret ()))"
  by (rule keeps_resolve_pending; (intro keeps_intros)?; auto elim: gated_same_contacts)+

lemma keeps_gated_emit: "keeps (gated E y b st s) (emit ev)"
  by (intro keeps_emit) (auto elim: gated_same_contacts)

lemma keeps_gated_net: "keeps (gated E y b st s) (net_command w)"
  by (intro keeps_net_command) (auto elim: gated_same_contacts)

lemma gated_promote:
  "gated E sender (Some PendingOut) Accepted s (snd (promote_pending_out E sender s))"
proof (cases "fst (contacts_get E sender (app_db s))")
  case (Inl err)
  then show ?thesis
    by (simp add: promote_pending_out_def andThen_read)
next
  case (Inr c)
  show ?thesis
  proof (cases "map_option contact_state c = Some PendingOut")
    case True
    then obtain k where k: "c = Some k" "contact_state k = PendingOut"
      by (cases c) auto
    have "contacts_get E sender (app_db s) = (Inr (Some k), app_db s)"
      using Inr k by (metis contacts_get_state prod.collapse)
    then have st: "status_in E s sender = Some PendingOut"
      using contacts_get_Some(2) k by fastforce
    have "keeps (gated E sender (Some PendingOut) Accepted s)
        (seqA (on_db (contacts_update_status E sender Accepted))
          (seqA (resolve_pending_of E sender ResAccepted (emit (RequestResolved (to_uri E sender) ResAccepted)))
            (emit (ContactAdded (to_uri E sender)))))"
      by (intro keeps_seqA keeps_gated_update [OF st] keeps_gated_resolve keeps_gated_emit)
    with True Inr show ?thesis
      by (simp add: promote_pending_out_def andThen_read keeps_def)
  qed (auto simp: Inr promote_pending_out_def andThen_read)
qed

text \<open>
  C17. The accept gate: a text, whoever sends it, changes the status of no contact but that of
  its sender, and that one only from awaiting their acceptance (\<open>PendingOut\<close>) to \<open>Accepted\<close>. A
  contact that waits for the user's own decision (\<open>PendingIn\<close>), a blocked or a removed one is
  never promoted by what it writes.
\<close>

theorem text_respects_accept_gate:
  assumes "handle_msg E p e ch s = (r, s')" "opened E s e (Text body)"
    and "status_in E s' y \<noteq> status_in E s y"
  shows "to_uri E y = to_uri E (Y7Id (env_sender_pub e)) \<and>
         status_in E s y = Some PendingOut \<and> status_in E s' y = Some Accepted"
  using assms(1)
proof (cases rule: handle_msg_cases)
  case quiet
  with assms(3) show ?thesis
    by (auto simp: only_answers_def)
next
  case (delivered kind rl)
  let ?y = "Y7Id (env_sender_pub e)"
  let ?gated = "gated E ?y (Some PendingOut) Accepted"
  have kind: "kind = Text body"
    using delivered(1) assms(2) by (simp add: msg_gate_def opened_def)
  obtain ri d where i: "messages_insert (stored_as (conversation_between E ?y (my_y7_id s)) (my_pubkey s) e)
      (app_db s) = (ri, d)"
    by fastforce
  let ?u = "s\<lparr>app_limiter := rl, app_db := d, app_wire := app_wire s @ [WRespondMsg ch True]\<rparr>"
  have d: "t_contacts (db_tables d) = t_contacts (db_tables (app_db s))"
    using keeps_messages_insert [of "\<lambda>x. t_contacts (db_tables x) = t_contacts (db_tables (app_db s))"] i
    by (simp add: keeps_def) (metis snd_conv)
  obtain q v where pr: "promote_pending_out E ?y ?u = (q, v)"
    by fastforce
  have v: "?gated ?u v"
    using gated_promote [of E ?y ?u] pr by simp
  have fin: "?gated ?u (v\<lparr>app_events := es\<rparr>)" for es
    using v by (rule gated_same_contacts) simp
  have "app_db s' = d \<or> ?gated ?u s'"
    using delivered(2) i v fin pr
    by (auto simp: kind deliver_text_run ack_msg_def seqA_def andThen_def run_net_command
        split: sum.splits option.splits if_splits)
  then have "?gated ?u s'"
    by (auto simp: gated_def)
  moreover have "status_in E ?u z = status_in E s z" for z
    using d by (simp add: status_of_def)
  ultimately show ?thesis
    using assms(3) unfolding gated_def by metis
qed

section \<open>Concrete deliveries\<close>

text \<open>The first party knows the second one under a given status and has a session with it.\<close>

definition knows_bob :: "contact_status \<Rightarrow> app" where
  "knows_bob st = alice_app (sample_db\<lparr>db_tables := empty_tables
     \<lparr>t_contacts := [\<lparr>cr_y7_id = to_uri sample_ext bob_y7, cr_pub = public_of sample_ext bob,
         cr_nickname = None, cr_added_at = 1, cr_status = contact_status_as_str st\<rparr>],
      t_sessions := [\<lparr>sr_peer = to_uri sample_ext bob_y7, sr_established_at = 1,
         sr_last_used_at = 1\<rparr>]\<rparr>\<rparr>)"

text \<open>A text and a control payload that the second party sealed and signed for the first one.\<close>

definition bob_seals :: "bytes \<Rightarrow> byte \<Rightarrow> message_envelope" where
  "bob_seals ciphertext mac =
     \<lparr>env_message_id = [1, 139, 207, 229, 104, 0, 112, 0, 128, 0, 0, 0, 0, 0, 0, 0],
      env_sender_pub = replicate 32 2, env_timestamp_ms = 1700000000000,
      env_nonce = replicate 12 2, env_ciphertext = ciphertext,
      env_sig = replicate 32 2 @ replicate 32 mac\<rparr>"

definition bob_text :: message_envelope where
  "bob_text = bob_seals [7, 199, 175, 174] 214"

definition bob_accepts :: message_envelope where
  "bob_accepts = bob_seals [7, 198, 166, 164, 164, 162, 183, 179, 162, 163, 152, 181, 162, 182,
     178, 162, 180, 179] 207"

text \<open>What the deliveries leave behind.\<close>

lemma bob_y7_ok: "y7id_ok bob_y7" "Y7Id (replicate 32 2) = bob_y7"
  "peer_id_from_y7 sample_ext bob_y7 = Inr bob_peer"
  by code_simp+

lemma knows_bob_reads:
  "\<exists>x. fst (sessions_get sample_ext bob_y7 (app_db (knows_bob st))) = Inr (Some x)"
  "\<exists>c. fst (contacts_get sample_ext bob_y7 (app_db (knows_bob st))) = Inr (Some c) \<and> contact_state c = st"
proof -
  have uri: "parse sample_ext (to_uri sample_ext bob_y7) = Inr bob_y7"
    by (rule parse_to_uri [OF sample_b58 bob_y7_ok(1)])
  have pub: "length (public_of sample_ext bob) = 32"
    by code_simp
  show "\<exists>x. fst (sessions_get sample_ext bob_y7 (app_db (knows_bob st))) = Inr (Some x)"
    by (simp add: sessions_get_def query_def stmt_def andThen_def knows_bob_def alice_app_def
        sample_db_def uri)
  show "\<exists>c. fst (contacts_get sample_ext bob_y7 (app_db (knows_bob st))) = Inr (Some c) \<and> contact_state c = st"
    by (simp add: contacts_get_def query_def stmt_def andThen_def knows_bob_def alice_app_def
        sample_db_def uri transposeR_def contact_parse_row_def pub)
qed

lemma knows_bob_gate:
  assumes "st \<noteq> Blocked" "opened sample_ext (knows_bob st) e kind"
    and "env_sender_pub e = replicate 32 2" "int (length (env_ciphertext e)) \<le> max_message_bytes + 256"
  shows "msg_gate sample_ext bob_peer (knows_bob st) e kind"
proof -
  obtain c where "fst (contacts_get sample_ext bob_y7 (app_db (knows_bob st))) = Inr (Some c)" "contact_state c = st"
    using knows_bob_reads(2) by blast
  with assms knows_bob_reads(1) show ?thesis
    by (simp add: msg_gate_def bob_y7_ok)
qed

lemma bob_limiter:
  "limiter allow_msg bob_peer (knows_bob st) =
     (Inr True, (knows_bob st)\<lparr>app_limiter := snd (allow_msg bob_peer 0 default_limits)\<rparr>)"
proof -
  have "fst (allow_msg bob_peer 0 default_limits)"
    by code_simp
  then show ?thesis
    by (cases "allow_msg bob_peer 0 default_limits")
      (simp add: run_limiter knows_bob_def alice_app_def sample_db_def sample_os_def)
qed

lemma bob_text_opens: "opened sample_ext (knows_bob PendingOut) bob_text (Text ''hi'')"
  by code_simp

lemma bob_text_opens_any: "opened sample_ext (knows_bob st) bob_text (Text ''hi'')"
  using bob_text_opens open_from_peer_cong [of "knows_bob st" "knows_bob PendingOut" sample_ext]
  by (simp add: opened_def knows_bob_def alice_app_def)

lemma bob_text_runs:
  "handle_msg sample_ext bob_peer bob_text 7 (knows_bob PendingOut) =
     deliver sample_ext bob_y7 (conversation_between sample_ext bob_y7 (Y7Id (public_of sample_ext alice)))
       bob_text 7 (Text ''hi'')
       ((knows_bob PendingOut)\<lparr>app_limiter := snd (allow_msg bob_peer 0 default_limits)\<rparr>)"
proof -
  have e: "env_sender_pub bob_text = replicate 32 2"
    "int (length (env_ciphertext bob_text)) \<le> max_message_bytes + 256"
    by (simp_all add: bob_text_def bob_seals_def max_message_bytes_def)
  have "my_y7_id (knows_bob PendingOut) = Y7Id (public_of sample_ext alice)"
    by (simp add: knows_bob_def alice_app_def)
  then show ?thesis
    using handle_msg_passes [OF knows_bob_gate [OF _ bob_text_opens e] bob_limiter] bob_y7_ok(2)
    by (simp add: e)
qed

lemma bob_text_stored:
  "length (messages_of (snd (deliver sample_ext bob_y7 (ConversationId c) bob_text 7 (Text ''hi'')
     ((knows_bob PendingOut)\<lparr>app_limiter := rl\<rparr>)))) = 1"
  by code_simp

lemma bob_text_promotes:
  "status_in sample_ext (snd (deliver sample_ext bob_y7 (ConversationId c) bob_text 7 (Text ''hi'')
     ((knows_bob PendingOut)\<lparr>app_limiter := rl\<rparr>))) bob_y7 = Some Accepted"
  by code_simp

lemma bob_text_delivered:
  "length (messages_of (snd (handle_msg sample_ext bob_peer bob_text 7 (knows_bob PendingOut)))) = 1"
  "status_in sample_ext (snd (handle_msg sample_ext bob_peer bob_text 7 (knows_bob PendingOut))) bob_y7 = Some Accepted"
  unfolding bob_text_runs
  by (cases "conversation_between sample_ext bob_y7 (Y7Id (public_of sample_ext alice))";
      simp add: bob_text_stored bob_text_promotes)+

lemma knows_bob_before: "messages_of (knows_bob st) = []" "status_in sample_ext (knows_bob st) bob_y7 = Some st"
  by (simp add: messages_of_def knows_bob_def alice_app_def empty_tables_def)
    (simp add: status_of_def knows_bob_def alice_app_def res_opt_def)

theorem handle_msg_authentic_witness:
  "\<exists>r s'. handle_msg sample_ext bob_peer bob_text 7 (knows_bob PendingOut) = (r, s') \<and>
     app_db s' \<noteq> app_db (knows_bob PendingOut) \<and>
     ed_check sample_ext (env_sender_pub bob_text) (signed_bytes (env_message_id bob_text)
       (env_timestamp_ms bob_text) (env_ciphertext bob_text)) (env_sig bob_text)"
proof -
  obtain r s' where h: "handle_msg sample_ext bob_peer bob_text 7 (knows_bob PendingOut) = (r, s')"
    by fastforce
  have "messages_of s' \<noteq> messages_of (knows_bob PendingOut)"
    using bob_text_delivered(1) knows_bob_before(1) h by (metis list.size(3) snd_conv zero_neq_one)
  then have "app_db s' \<noteq> app_db (knows_bob PendingOut)"
    by (auto simp: messages_of_def)
  moreover from this have "\<not> only_answers 7 (knows_bob PendingOut) s'"
    by (auto simp: only_answers_def)
  ultimately show ?thesis
    using handle_msg_authentic [OF h] h by blast
qed

theorem blocked_peer_is_silent_witness:
  "\<exists>r s'. handle_msg sample_ext bob_peer bob_text 7 (knows_bob Blocked) = (r, s') \<and>
     only_answers 7 (knows_bob Blocked) s'"
proof -
  show ?thesis
    using blocked_peer_is_silent [OF sample_peer bob_y7_ok(3) knows_bob_before(2)]
    by (metis prod.collapse)
qed

theorem message_delivered_once_witness:
  "\<exists>r s'. handle_msg sample_ext bob_peer bob_text 7 (knows_bob PendingOut) = (r, s') \<and>
     (\<exists>row. messages_of s' = [row] \<and> mr_id row = env_message_id bob_text \<and>
        mr_payload row = env_ciphertext bob_text)"
proof -
  obtain r s' where h: "handle_msg sample_ext bob_peer bob_text 7 (knows_bob PendingOut) = (r, s')"
    by fastforce
  have "length (messages_of s') = 1"
    using bob_text_delivered(1) h by simp
  then show ?thesis
    using message_delivered_once [OF h] h by (auto simp: knows_bob_before)
qed

theorem acked_means_stored_witness:
  "\<exists>r s'. handle_msg sample_ext bob_peer bob_text 7 (knows_bob PendingOut) = (r, s') \<and>
     WRespondMsg 7 True \<in> set (drop (length (app_wire (knows_bob PendingOut))) (app_wire s')) \<and>
     map (\<lambda>m. (mr_id m, mr_sender m, mr_payload m)) (messages_of s') =
       [(env_message_id bob_text, env_sender_pub bob_text, env_ciphertext bob_text)]"
proof -
  obtain r s' where h: "handle_msg sample_ext bob_peer bob_text 7 (knows_bob PendingOut) = (r, s')"
    by fastforce
  let ?s = "(knows_bob PendingOut)\<lparr>app_limiter := snd (allow_msg bob_peer 0 default_limits)\<rparr>"
  let ?conv = "conversation_between sample_ext bob_y7 (Y7Id (public_of sample_ext alice))"
  have d: "deliver sample_ext bob_y7 ?conv bob_text 7 (Text ''hi'') ?s = (r, s')"
    using h bob_text_runs by simp
  obtain b d where "messages_insert (stored_as ?conv (my_pubkey ?s) bob_text) (app_db ?s) = (Inr b, d)"
    by (simp add: messages_insert_def stmt_def andThen_def knows_bob_def alice_app_def sample_db_def)
  from deliver_text_stored(2) [OF this d]
  have "WRespondMsg 7 True \<in> set (drop (length (app_wire (knows_bob PendingOut))) (app_wire s'))"
    by simp
  moreover have "status_of sample_ext (Y7Id (env_sender_pub bob_text))
      (db_tables (app_db (knows_bob PendingOut))) \<noteq> Some Blocked"
    using knows_bob_before(2) [of PendingOut] by (simp add: bob_text_def bob_seals_def bob_y7_ok(2))
  moreover have "messages_of (knows_bob PendingOut) = []"
    by (simp add: messages_of_def knows_bob_def alice_app_def sample_db_def empty_tables_def)
  ultimately have "map (\<lambda>m. (mr_id m, mr_sender m, mr_payload m)) (messages_of s') =
      [(env_message_id bob_text, env_sender_pub bob_text, env_ciphertext bob_text)]"
    using acked_means_stored [OF h bob_text_opens] knows_bob_before(1) by (simp add: has_key_def)
  with \<open>WRespondMsg 7 True \<in> _\<close> h show ?thesis
    by (intro exI [of _ r] exI [of _ s'] conjI)
qed

theorem text_respects_accept_gate_witness:
  "\<exists>r s'. handle_msg sample_ext bob_peer bob_text 7 (knows_bob PendingOut) = (r, s') \<and>
     status_in sample_ext (knows_bob PendingOut) bob_y7 = Some PendingOut \<and>
     status_in sample_ext s' bob_y7 = Some Accepted"
proof -
  obtain r s' where h: "handle_msg sample_ext bob_peer bob_text 7 (knows_bob PendingOut) = (r, s')"
    by fastforce
  have "status_in sample_ext s' bob_y7 \<noteq> status_in sample_ext (knows_bob PendingOut) bob_y7"
    using bob_text_delivered(2) knows_bob_before(2) h by simp
  then show ?thesis
    using text_respects_accept_gate [OF h bob_text_opens] h by blast
qed

text \<open>
  The gate of the comments holds for texts only: an \<open>AcceptedRequest\<close> control payload of a peer
  whose own request is still waiting for the user's decision makes the contact \<open>Accepted\<close>.
\<close>

lemma bob_accepts_opens: "opened sample_ext (knows_bob PendingIn) bob_accepts (Control AcceptedRequest)"
  by code_simp

lemma control_bypasses_accept_gate:
  "status_in sample_ext (knows_bob PendingIn) bob_y7 = Some PendingIn"
  "status_in sample_ext (snd (deliver sample_ext bob_y7 conv bob_accepts 7 (Control AcceptedRequest)
     (knows_bob PendingIn))) bob_y7 = Some Accepted"
  by (rule knows_bob_before) code_simp

text \<open>
  Messages and synchronisation of a blocked peer are turned away, its handshakes are not: the
  request is stored and announced again.
\<close>

lemma blocked_peer_asks_again:
  "status_in sample_ext (knows_bob Blocked) bob_y7 = Some Blocked"
  "app_events (snd (ensure_incoming_request sample_ext bob_y7 None (knows_bob Blocked))) =
     [RequestReceived (to_uri sample_ext bob_y7) None]"
  by (rule knows_bob_before) code_simp

end
