(* ===== verification/Sync.thy ===== *)
theory Sync
  imports Inbound
begin

text \<open>
  Synchronisation of a conversation (\<open>event_loop.rs\<close>): answering a peer's request, the
  initiator's reconcile and pull loop, and the ingestion of pulled envelopes. The pull loop of
  one side against the pages the other side serves is an interface of its own
  (\<open>pull_source\<close>), interpreted on the rows that \<open>handle_sync\<close> serves.
\<close>

section \<open>Answering\<close>

fun empty_sync_resp_for :: "sync_req \<Rightarrow> sync_resp" where
  "empty_sync_resp_for (SyncHeader _) = SyncHeaderAck []"
| "empty_sync_resp_for (SyncPull _ _ _) = SyncPullResp [] False"
| "empty_sync_resp_for (SyncAck _ _) = SyncAckResp"

definition respond_sync :: "channel \<Rightarrow> sync_resp \<Rightarrow> (app, unit) action" where
  "respond_sync ch resp = net_command (WRespondSync ch resp)"

text \<open>Our own high-water marks, for each listed conversation that is the one with the requester.\<close>

fun answer_digests ::
  "conversation_id \<Rightarrow> bytes \<Rightarrow> conversation_digest list \<Rightarrow> (app, conversation_digest list) action" where
  "answer_digests expected me [] = ret []"
| "answer_digests expected me (cd # cds) =
     (if cd_conversation_id cd \<noteq> conv_bytes expected then answer_digests expected me cds
      else
        andThen (on_db (messages_highest_outbound expected me)) (\<lambda>my_outbound.
        andThen (on_db (messages_highest_inbound expected me)) (\<lambda>my_inbound.
        andThen (answer_digests expected me cds) (\<lambda>rest.
          ret (\<lparr>cd_conversation_id = cd_conversation_id cd,
                cd_highest_outbound = map_option mid_bytes my_outbound,
                cd_highest_inbound = map_option mid_bytes my_inbound\<rparr> # rest)))))"

text \<open>The length of a page is compared with the limit as 16-bit numbers.\<close>

definition answer_pull ::
  "conversation_id \<Rightarrow> bytes \<Rightarrow> bytes \<Rightarrow> bytes option \<Rightarrow> nat \<Rightarrow> (app, sync_resp) action" where
  "answer_pull expected me conversation_id since limit =
     (if conv_bytes expected \<noteq> conversation_id then ret (SyncPullResp [] False)
      else
        andThen (on_db (messages_pull_outbound_after expected me
                   (map_option message_id_from_bytes since) (int limit))) (\<lambda>rows.
          ret (SyncPullResp (map message_envelope_of rows) (length rows mod 65536 = limit))))"

definition answer_ack ::
  "conversation_id \<Rightarrow> bytes \<Rightarrow> bytes list \<Rightarrow> (app, sync_resp) action" where
  "answer_ack expected conversation_id confirmed_ids =
     seqA
       (if conv_bytes expected \<noteq> conversation_id then ret ()
        else forA confirmed_ids (\<lambda>mid.
               ignore (on_db (messages_update_status (message_id_from_bytes mid) Synced))))
       (ret SyncAckResp)"

definition answer_sync :: "conversation_id \<Rightarrow> bytes \<Rightarrow> sync_req \<Rightarrow> (app, sync_resp) action" where
  "answer_sync expected me request =
     (case request of
        SyncHeader conversations \<Rightarrow>
          andThen (answer_digests expected me conversations) (\<lambda>ours. ret (SyncHeaderAck ours))
      | SyncPull conversation_id since limit \<Rightarrow> answer_pull expected me conversation_id since limit
      | SyncAck conversation_id confirmed_ids \<Rightarrow> answer_ack expected conversation_id confirmed_ids)"

definition handle_sync :: "ext \<Rightarrow> peer \<Rightarrow> sync_req \<Rightarrow> channel \<Rightarrow> (app, unit) action" where
  "handle_sync E p request ch =
     andThen (limiter allow_sync p) (\<lambda>allowed.
       if \<not> allowed then
         seqA (modify (\<lambda>s. s\<lparr>rl_drops_sync := rl_drops_sync s + 1\<rparr>))
           (respond_sync ch (empty_sync_resp_for request))
       else
         (case y7_id_from_peer_id E p of
            None \<Rightarrow> respond_sync ch (empty_sync_resp_for request)
          | Some requester \<Rightarrow>
              andThen (on_db (contacts_get E requester)) (\<lambda>contact.
                if map_option contact_state contact = Some Blocked then
                  respond_sync ch (empty_sync_resp_for request)
                else
                  andThen (asks my_y7_id) (\<lambda>me. andThen (asks my_pubkey) (\<lambda>pk.
                    andThen (answer_sync (conversation_between E me requester) pk request)
                      (respond_sync ch))))))"

section \<open>Reconciling\<close>

definition sync_pull_limit :: nat where
  "sync_pull_limit = 50"

definition sync_max_pull_pages :: nat where
  "sync_max_pull_pages = 64"

definition ingest_synced_envelope :: "ext \<Rightarrow> y7id \<Rightarrow> message_envelope \<Rightarrow> (app, bool) action" where
  "ingest_synced_envelope E expected_sender e =
     (if int (length (env_ciphertext e)) > max_message_bytes + 256 then ret False
      else
        (let sender = from_pubkey (env_sender_pub e) in
         if sender \<noteq> expected_sender then ret False
         else
           andThen (on_db (sessions_get E sender)) (\<lambda>session.
             if session = None then throw (NetworkErr (''no session for '' @ to_uri E sender))
             else
               andThen (asks my_y7_id) (\<lambda>me.
                 let conv = conversation_between E sender me in
                 andThen (open_from_peer E conv e) (\<lambda>kind.
                   case kind of
                     Control _ \<Rightarrow> ret False
                   | Text body \<Rightarrow>
                       andThen (asks my_pubkey) (\<lambda>pk.
                       andThen (on_db (messages_insert (stored_as conv pk e))) (\<lambda>inserted.
                         seqA
                           (if inserted then emit (received_event E conv sender e body) else ret ())
                           (ret inserted))))))))"

text \<open>The ids of a page that are new, in order; a failing envelope is skipped.\<close>

fun ingest_page :: "ext \<Rightarrow> y7id \<Rightarrow> message_envelope list \<Rightarrow> (app, bytes list) action" where
  "ingest_page E y [] = ret []"
| "ingest_page E y (e # es) =
     andThen (attempt (ingest_synced_envelope E y e)) (\<lambda>outcome.
     andThen (ingest_page E y es) (\<lambda>rest.
       ret (if outcome = Inr True then env_message_id e # rest else rest)))"

text \<open>
  The loop runs at most as often as pages are left: the fuel is the bound the source puts on it.
\<close>

fun pull_pages ::
  "ext \<Rightarrow> y7id \<Rightarrow> peer \<Rightarrow> conversation_id \<Rightarrow> nat \<Rightarrow> bytes option \<Rightarrow> bytes list \<Rightarrow> (app, bytes list) action"
  where
  "pull_pages E y p conv 0 since newly = ret newly"
| "pull_pages E y p conv (Suc n) since newly =
     andThen (attempt (send_sync p (SyncPull (conv_bytes conv) since sync_pull_limit))) (\<lambda>resp.
       case resp of
         Inr (SyncPullResp envelopes has_more) \<Rightarrow>
           if envelopes = [] then ret newly
           else
             andThen (ingest_page E y envelopes) (\<lambda>ids.
               if \<not> has_more then ret (newly @ ids)
               else pull_pages E y p conv n (Some (env_message_id (last envelopes))) (newly @ ids))
       | _ \<Rightarrow> ret newly)"

definition drop_promoted :: "ext \<Rightarrow> y7id \<Rightarrow> message_id list \<Rightarrow> (app, unit) action" where
  "drop_promoted E y promoted =
     forA promoted (\<lambda>i.
       seqA (ignore (on_db (queue_remove E i y)))
            (emit (MessageStatusChanged (message_id_show E i) Synced)))"

definition need_pull :: "bytes option \<Rightarrow> message_id option \<Rightarrow> bool" where
  "need_pull theirs_out my_in =
     (case (theirs_out, my_in) of
        (Some t, Some m) \<Rightarrow> mid_bytes m < t
      | (Some _, None) \<Rightarrow> True
      | (None, _) \<Rightarrow> False)"

definition reconcile ::
  "ext \<Rightarrow> y7id \<Rightarrow> peer \<Rightarrow> conversation_id \<Rightarrow> bytes \<Rightarrow> message_id option \<Rightarrow> conversation_digest \<Rightarrow>
   (app, unit) action" where
  "reconcile E y p conv pk my_inbound their =
     seqA
       (case cd_highest_inbound their of
          None \<Rightarrow> ret ()
        | Some their_in \<Rightarrow>
            andThen (on_db (messages_promote_outbound_synced conv pk (message_id_from_bytes their_in)))
              (drop_promoted E y))
       (if \<not> need_pull (cd_highest_outbound their) my_inbound then ret ()
        else
          andThen (pull_pages E y p conv sync_max_pull_pages (map_option mid_bytes my_inbound) [])
            (\<lambda>newly.
              if newly = [] then ret ()
              else ignore (send_sync p (SyncAck (conv_bytes conv) newly))))"

definition kick_sync_for_peer :: "ext \<Rightarrow> y7id \<Rightarrow> peer \<Rightarrow> (app, unit) action" where
  "kick_sync_for_peer E y p =
     andThen (on_db (contacts_get E y)) (\<lambda>contact.
       if map_option contact_state contact \<noteq> Some Accepted then ret ()
       else
         andThen (asks my_y7_id) (\<lambda>me. andThen (asks my_pubkey) (\<lambda>pk.
           let conv = conversation_between E me y in
           andThen (on_db (messages_highest_outbound conv pk)) (\<lambda>my_outbound.
           andThen (on_db (messages_highest_inbound conv pk)) (\<lambda>my_inbound.
           andThen (attempt (send_sync p (SyncHeader
               [\<lparr>cd_conversation_id = conv_bytes conv,
                 cd_highest_outbound = map_option mid_bytes my_outbound,
                 cd_highest_inbound = map_option mid_bytes my_inbound\<rparr>]))) (\<lambda>resp.
             case resp of
               Inr (SyncHeaderAck ours) \<Rightarrow>
                 (case List.find (\<lambda>d. cd_conversation_id d = conv_bytes conv) ours of
                    None \<Rightarrow> ret ()
                  | Some their \<Rightarrow> reconcile E y p conv pk my_inbound their)
             | _ \<Rightarrow> ret ()))))))"

text \<open>The spawned task: one reconcile per peer at a time; its error is logged.\<close>

definition run_kick_sync :: "ext \<Rightarrow> y7id \<Rightarrow> peer \<Rightarrow> (app, unit) action" where
  "run_kick_sync E y p =
     andThen (asks syncing) (\<lambda>inflight.
       if y \<in> inflight then ret ()
       else
         seqA (modify (\<lambda>s. s\<lparr>syncing := insert y (syncing s)\<rparr>))
           (seqA (ignore (kick_sync_for_peer E y p))
              (modify (\<lambda>s. s\<lparr>syncing := syncing s - {y}\<rparr>))))"

definition spawn_kick_sync :: "y7id \<Rightarrow> peer \<Rightarrow> (app, unit) action" where
  "spawn_kick_sync y p = spawn (KickSync y p)"

section \<open>Pulling pages: the interface\<close>

text \<open>
  What the pull loop asks of the side that serves it: the rows after a key, in the order of the
  keys, as many as a page holds, and whether the page is full. The client's loop, over any such
  source, is \<open>pulled\<close>.
\<close>

definition rows_after :: "('e \<Rightarrow> 'k::linorder) \<Rightarrow> 'k option \<Rightarrow> 'e list \<Rightarrow> 'e list" where
  "rows_after key since rows = filter (\<lambda>e. case since of None \<Rightarrow> True | Some k \<Rightarrow> k < key e) rows"

fun pulled :: "('k option \<Rightarrow> 'e list \<times> bool) \<Rightarrow> ('e \<Rightarrow> 'k) \<Rightarrow> nat \<Rightarrow> 'k option \<Rightarrow> 'e list" where
  "pulled serve key 0 since = []"
| "pulled serve key (Suc n) since =
     (case serve since of (es, full) \<Rightarrow>
        if es = [] then []
        else if \<not> full then es
        else es @ pulled serve key n (Some (key (last es))))"

lemma rows_after_drop:
  assumes "sorted_wrt (<) (map key rows)" "0 < n" "n \<le> length (rows_after key since rows)"
  shows "rows_after key (Some (key (last (take n (rows_after key since rows))))) rows = drop n (rows_after key since rows)"
proof -
  let ?xs = "rows_after key since rows"
  let ?k = "key (last (take n ?xs))"
  have sorted: "sorted_wrt (<) (map key ?xs)"
    using assms(1) by (simp add: rows_after_def sorted_wrt_map sorted_wrt_filter)
  have last: "last (take n ?xs) = ?xs ! (n - 1)"
    using assms(2,3) by (subst last_conv_nth) auto
  have split: "(?k < key (?xs ! i)) = (n \<le> i)" if "i < length ?xs" for i
  proof (cases "n \<le> i")
    case True
    then show ?thesis
      using sorted_wrt_nth_less [OF sorted, of "n - 1" i] that assms(2) last by simp
  next
    case False
    then have "i = n - 1 \<or> key (?xs ! i) < key (?xs ! (n - 1))"
      using sorted_wrt_nth_less [OF sorted, of i "n - 1"] that assms(3) by fastforce
    with False last show ?thesis
      by auto
  qed
  have "rows_after key (Some ?k) rows = filter (\<lambda>e. ?k < key e) ?xs"
  proof -
    have "last (take n ?xs) \<in> set ?xs"
      using assms(2,3) by (intro in_set_takeD [OF last_in_set]) auto
    then have "case since of None \<Rightarrow> True | Some k \<Rightarrow> k < ?k"
      by (auto simp: rows_after_def split: option.splits)
    then show ?thesis
      by (auto simp: rows_after_def intro: filter_cong split: option.splits)
  qed
  also have "\<dots> = filter (\<lambda>e. ?k < key e) (take n ?xs) @ filter (\<lambda>e. ?k < key e) (drop n ?xs)"
    by (metis append_take_drop_id filter_append)
  also have "filter (\<lambda>e. ?k < key e) (take n ?xs) = []"
    using split assms(3) by (auto simp: filter_empty_conv in_set_conv_nth)
  also have "filter (\<lambda>e. ?k < key e) (drop n ?xs) = drop n ?xs"
    using split by (auto simp: filter_id_conv in_set_conv_nth)
  finally show ?thesis
    by simp
qed

locale pull_source =
  fixes serve :: "'k::linorder option \<Rightarrow> 'e list \<times> bool"
    and rows :: "'e list"
    and key :: "'e \<Rightarrow> 'k"
    and page_size :: nat
  assumes size: "0 < page_size"
    and page: "serve since = (take page_size (rows_after key since rows), page_size \<le> length (rows_after key since rows))"
begin

lemma pulled_all:
  "sorted_wrt (<) (map key rows) \<Longrightarrow> pulled serve key n since = take (n * page_size) (rows_after key since rows)"
proof (induction n arbitrary: since)
  case (Suc n)
  let ?xs = "rows_after key since rows"
  show ?case
  proof (cases "page_size \<le> length ?xs")
    case True
    have "pulled serve key n (Some (key (last (take page_size ?xs)))) =
        take (n * page_size) (drop page_size ?xs)"
      by (simp only: Suc.IH [OF Suc.prems] rows_after_drop [OF Suc.prems size True])
    then have "pulled serve key (Suc n) since =
        take page_size ?xs @ take (n * page_size) (drop page_size ?xs)"
      using size True by (simp add: page [of since])
    also have "\<dots> = take (page_size + n * page_size) ?xs"
      by (simp add: take_add)
    finally show ?thesis
      by simp
  next
    case False
    then show ?thesis
      by (auto simp: page)
  qed
qed simp

text \<open>Enough pages give everything: the loop ends by itself, not by its bound.\<close>

lemma pulled_complete:
  assumes "sorted_wrt (<) (map key rows)" "length (rows_after key since rows) \<le> n * page_size"
  shows "pulled serve key n since = rows_after key since rows"
  using assms by (simp add: pulled_all)

end

section \<open>What the answering side serves\<close>

definition row_envelope :: "message_row \<Rightarrow> message_envelope" where
  "row_envelope r =
     \<lparr>env_message_id = mr_id r, env_sender_pub = mr_sender r, env_timestamp_ms = mr_timestamp r,
      env_nonce = mr_nonce r, env_ciphertext = mr_payload r, env_sig = mr_sig r\<rparr>"

lemma row_envelope_id [simp]: "env_message_id (row_envelope r) = mr_id r"
  by (simp add: row_envelope_def)

definition served :: "tables \<Rightarrow> conversation_id \<Rightarrow> bytes \<Rightarrow> message_envelope list" where
  "served t conv k = map row_envelope (order_by mr_id (outbound_rows conv k None t))"

definition serve_page ::
  "tables \<Rightarrow> conversation_id \<Rightarrow> bytes \<Rightarrow> bytes option \<Rightarrow> message_envelope list \<times> bool" where
  "serve_page t conv k since =
     (let page = map row_envelope (limit_rows (int sync_pull_limit)
                   (order_by mr_id (outbound_rows conv k (map_option message_id_from_bytes since) t)))
      in (page, length page mod 65536 = sync_pull_limit))"

lemma outbound_rows_after:
  "map row_envelope (order_by mr_id (outbound_rows conv k (map_option message_id_from_bytes since) t)) =
     rows_after env_message_id since (served t conv k)"
proof -
  let ?p = "\<lambda>r. case since of None \<Rightarrow> True | Some x \<Rightarrow> x < mr_id r"
  have "outbound_rows conv k (map_option message_id_from_bytes since) t =
      filter ?p (outbound_rows conv k None t)"
    by (cases since) (auto simp: outbound_rows_def message_id_from_bytes_def intro: filter_cong)
  then have "order_by mr_id (outbound_rows conv k (map_option message_id_from_bytes since) t) =
      filter ?p (order_by mr_id (outbound_rows conv k None t))"
    by (simp add: order_by_def filter_sort)
  then show ?thesis
    by (cases since) (simp_all add: rows_after_def served_def filter_map o_def)
qed

interpretation own_rows: pull_source "serve_page t conv k" "served t conv k" env_message_id sync_pull_limit
  for t conv k
proof
  show "0 < sync_pull_limit"
    by (simp add: sync_pull_limit_def)
  show "serve_page t conv k since =
      (take sync_pull_limit (rows_after env_message_id since (served t conv k)),
       sync_pull_limit \<le> length (rows_after env_message_id since (served t conv k)))" for since
    by (simp add: serve_page_def limit_rows_def sync_pull_limit_def Let_def flip: outbound_rows_after)
      (auto simp: take_map min_def)
qed

lemma decoded_envelope: "message_decode r = Inr m \<Longrightarrow> message_envelope_of m = row_envelope r"
  by (auto simp: message_decode_Inr_iff message_envelope_of_def row_envelope_def)

lemma decoded_envelopes:
  "traverseR message_decode rows = Inr ms \<Longrightarrow> map message_envelope_of ms = map row_envelope rows"
  by (auto simp: traverseR_Inr_iff list_all2_conv_all_nth decoded_envelope intro: nth_equalityI)

text \<open>A pull that is answered at all is answered with that page.\<close>

lemma answer_pull_serves:
  assumes "answer_pull conv k (conv_bytes conv) since sync_pull_limit s = (Inr resp, s')"
  shows "s' = s \<and> resp = (case serve_page (db_tables (app_db s)) conv k since of (es, full) \<Rightarrow> SyncPullResp es full)"
proof -
  have "snd (on_db (messages_pull_outbound_after conv k since' n) s) = s" for since' n
    by (simp add: snd_on_db_read)
  then show ?thesis
    using assms
    by (auto simp: answer_pull_def andThen_read messages_pull_run serve_page_def Let_def
        decoded_envelopes length_traverseR split: sum.splits option.splits)
qed

section \<open>What a sync request may learn and change\<close>

definition synced_at :: "message_row list \<Rightarrow> message_row list \<Rightarrow> bool" where
  "synced_at before after \<longleftrightarrow>
     list_all2 (\<lambda>r r'. r' = r \<or> r' = r\<lparr>mr_status := message_status_as_i64 Synced\<rparr>) before after"

lemma synced_at_refl [simp]: "synced_at rows rows"
  by (simp add: synced_at_def list_all2_refl)

lemma synced_at_update:
  "synced_at before rows \<Longrightarrow>
   synced_at before (update_where p (\<lambda>r. r\<lparr>mr_status := message_status_as_i64 Synced\<rparr>) rows)"
  by (fastforce simp: synced_at_def update_where_def list_all2_conv_all_nth)

text \<open>
  What answering may do to the state: append one answer, count, and move statuses to \<open>Synced\<close>.
\<close>

definition sync_frame :: "app \<Rightarrow> app \<Rightarrow> bool" where
  "sync_frame s t \<longleftrightarrow>
     (\<exists>rl n ms. t = s\<lparr>app_limiter := rl, rl_drops_sync := n,
         app_db := (app_db s)\<lparr>db_tables := (db_tables (app_db s))\<lparr>t_messages := ms\<rparr>\<rparr>\<rparr> \<and>
       synced_at (messages_of s) ms)"

lemma sync_frame_refl [simp]: "sync_frame s s"
  unfolding sync_frame_def
  by (rule exI [of _ "app_limiter s"], rule exI [of _ "rl_drops_sync s"], rule exI [of _ "messages_of s"])
    (simp add: messages_of_def)

lemma sync_frame_drop: "sync_frame s (s\<lparr>app_limiter := rl, rl_drops_sync := n\<rparr>)"
  unfolding sync_frame_def
  by (rule exI [of _ rl], rule exI [of _ n], rule exI [of _ "messages_of s"]) (simp add: messages_of_def)

lemma keeps_sync_frame: "keeps (sync_frame s) (on_db (messages_update_status i Synced))"
proof (rule keepsI)
  fix t assume "sync_frame s t"
  then obtain rl n ms where t: "t = s\<lparr>app_limiter := rl, rl_drops_sync := n,
      app_db := (app_db s)\<lparr>db_tables := (db_tables (app_db s))\<lparr>t_messages := ms\<rparr>\<rparr>\<rparr>"
    and ms: "synced_at (messages_of s) ms"
    by (auto simp: sync_frame_def)
  show "sync_frame s (snd (on_db (messages_update_status i Synced) t))"
    using synced_at_update [OF ms] ms unfolding sync_frame_def t
    by (simp add: run_on_db messages_update_status_def execute_state) blast
qed

lemma answer_digests_read [simp]: "snd (answer_digests expected me cds s) = s"
  by (induction cds) (auto intro!: andThen_same snd_on_db_read)

lemma answer_sync_frame: "keeps (sync_frame s) (answer_sync expected me request)"
proof (cases request)
  case (SyncHeader cds)
  have "keeps (sync_frame s) (answer_digests expected me cds)"
    by (simp add: keeps_def)
  with SyncHeader show ?thesis
    by (auto simp: answer_sync_def intro!: keeps_intros)
next
  case (SyncPull c since limit)
  have "keeps (sync_frame s) (on_db (messages_pull_outbound_after expected me i n))" for i n
    by (simp add: keeps_def snd_on_db_read)
  with SyncPull show ?thesis
    by (auto simp: answer_sync_def answer_pull_def intro!: keeps_intros)
next
  case (SyncAck c ids)
  then show ?thesis
    by (auto simp: answer_sync_def answer_ack_def intro!: keeps_intros keeps_sync_frame)
qed

text \<open>An envelope that is disclosed is our own row in the conversation with the requester.\<close>

definition own_pair :: "app \<Rightarrow> conversation_id \<Rightarrow> message_envelope \<Rightarrow> bool" where
  "own_pair s conv e \<longleftrightarrow>
     (\<exists>row \<in> set (messages_of s). e = row_envelope row \<and> mr_conv row = conv_bytes conv \<and>
        mr_sender row = my_pubkey s)"

text \<open>
  A digest holds the marks of that conversation only: ids of rows in it, our own and those
  addressed to us.
\<close>

definition own_digest :: "app \<Rightarrow> conversation_id \<Rightarrow> conversation_digest \<Rightarrow> bool" where
  "own_digest s conv d \<longleftrightarrow>
     cd_conversation_id d = conv_bytes conv \<and>
     (\<forall>i. cd_highest_outbound d = Some i \<longrightarrow>
        (\<exists>row \<in> set (messages_of s). mr_id row = i \<and> mr_conv row = conv_bytes conv \<and> mr_sender row = my_pubkey s)) \<and>
     (\<forall>i. cd_highest_inbound d = Some i \<longrightarrow>
        (\<exists>row \<in> set (messages_of s). mr_id row = i \<and> mr_conv row = conv_bytes conv \<and> mr_recipient row = my_pubkey s))"

text \<open>An answer that tells nothing but what is ours in this conversation.\<close>

fun confined :: "app \<Rightarrow> conversation_id \<Rightarrow> sync_resp \<Rightarrow> bool" where
  "confined s conv (SyncPullResp envs _) = list_all (own_pair s conv) envs"
| "confined s conv (SyncHeaderAck ds) = list_all (own_digest s conv) ds"
| "confined s conv SyncAckResp = True"

lemma confined_empty [simp]: "confined s conv (empty_sync_resp_for req)"
  by (cases req) simp_all

lemma highest_id_in: "highest_id rows = Some i \<Longrightarrow> \<exists>r \<in> set rows. mr_id r = i"
proof -
  assume "highest_id rows = Some i"
  then obtain r rs where "rev (order_by mr_id rows) = r # rs" "mr_id r = i"
    by (auto simp: highest_id_def split: list.splits)
  then show ?thesis
    by (metis list.set_intros(1) set_order_by set_rev)
qed

lemma try_msg_id_bytes: "try_msg_id b = Inr m \<Longrightarrow> mid_bytes m = b"
  by (auto simp: try_msg_id_def try_bytes_def bindR_Inr_iff split: if_splits)

lemma highest_marks:
  "fst (messages_highest_outbound conv k d) = Inr (Some m) \<Longrightarrow>
     \<exists>r \<in> set (t_messages (db_tables d)). mr_id r = mid_bytes m \<and> mr_conv r = conv_bytes conv \<and> mr_sender r = k"
  "fst (messages_highest_inbound conv k d) = Inr (Some m) \<Longrightarrow>
     \<exists>r \<in> set (t_messages (db_tables d)). mr_id r = mid_bytes m \<and> mr_conv r = conv_bytes conv \<and> mr_recipient r = k"
  by (auto simp: messages_highest_outbound_def messages_highest_inbound_def query_def stmt_def action_simps
      transposeR_def bindR_Inr_iff split: option.splits dest!: highest_id_in try_msg_id_bytes)

lemma answer_digests_own:
  "answer_digests conv (my_pubkey s) cds s = (Inr ds, t) \<Longrightarrow> list_all (own_digest s conv) ds"
proof (induction cds arbitrary: ds t)
  case (Cons cd cds)
  have reads: "snd (on_db (messages_highest_outbound conv k) s) = s" "snd (on_db (messages_highest_inbound conv k) s) = s" for k
    by (simp_all add: snd_on_db_read)
  show ?case
  proof (cases "cd_conversation_id cd = conv_bytes conv")
    case False
    with Cons show ?thesis
      by simp
  next
    case True
    then obtain out inb rest where out: "fst (messages_highest_outbound conv (my_pubkey s) (app_db s)) = Inr out"
      and inb: "fst (messages_highest_inbound conv (my_pubkey s) (app_db s)) = Inr inb"
      and rest: "fst (answer_digests conv (my_pubkey s) cds s) = Inr rest"
      and ds: "ds = \<lparr>cd_conversation_id = cd_conversation_id cd, cd_highest_outbound = map_option mid_bytes out,
        cd_highest_inbound = map_option mid_bytes inb\<rparr> # rest"
      using Cons.prems by (auto simp: andThen_read reads split: sum.splits)
    have "own_digest s conv (hd ds)"
      using True out inb unfolding own_digest_def ds messages_of_def
      by (auto dest: highest_marks)
    moreover have "list_all (own_digest s conv) rest"
      using Cons.IH [of rest] rest by (metis prod.collapse)
    ultimately show ?thesis
      by (simp add: ds)
  qed
qed simp

lemma answer_pull_own:
  assumes "answer_pull conv (my_pubkey s) c since limit s = (Inr resp, t)"
  shows "confined s conv resp"
proof -
  have "snd (on_db (messages_pull_outbound_after conv k i n) s) = s" for k i n
    by (simp add: snd_on_db_read)
  then consider "resp = SyncPullResp [] False" | rows full where "traverseR message_decode (limit_rows (int limit) (order_by mr_id
      (outbound_rows conv (my_pubkey s) (map_option message_id_from_bytes since) (db_tables (app_db s))))) = Inr rows"
    "resp = SyncPullResp (map message_envelope_of rows) full"
    using assms by (auto simp: answer_pull_def andThen_read messages_pull_run split: sum.splits option.splits if_splits)
  then show ?thesis
  proof cases
    case 2
    have "e \<in> row_envelope ` set (outbound_rows conv (my_pubkey s) (map_option message_id_from_bytes since)
        (db_tables (app_db s)))" if "e \<in> set (map message_envelope_of rows)" for e
      using that set_limit_rows [of "int limit"] unfolding decoded_envelopes [OF 2(1)] by fastforce
    then show ?thesis
      unfolding 2(2) by (auto simp: list_all_iff own_pair_def outbound_rows_def messages_of_def)
  qed simp
qed

lemma answer_sync_confined:
  assumes "answer_sync conv (my_pubkey s) req s = (Inr resp, t)"
  shows "confined s conv resp"
proof (cases req)
  case (SyncHeader cds)
  with assms obtain ds where "answer_digests conv (my_pubkey s) cds s = (Inr ds, s)" "resp = SyncHeaderAck ds"
    by (auto simp: answer_sync_def andThen_read prod_eq_iff split: sum.splits)
  then show ?thesis
    using answer_digests_own by simp
next
  case (SyncPull c since limit)
  with assms show ?thesis
    by (auto simp: answer_sync_def dest: answer_pull_own)
qed (use assms in \<open>auto simp: answer_sync_def answer_ack_def seqA_def andThen_def split: prod.splits sum.splits\<close>)

text \<open>
  A request is refused with the empty answer, or dropped, without any effect on the database;
  or its requester is neither blocked nor over its rate, and it is answered.
\<close>

definition sync_allowed :: "ext \<Rightarrow> peer \<Rightarrow> app \<Rightarrow> bool" where
  "sync_allowed E p s \<longleftrightarrow>
     fst (allow_sync p (os_instant (db_os (app_db s))) (app_limiter s)) \<and>
     (\<exists>y. y7_id_from_peer_id E p = Some y \<and> status_in E s y \<noteq> Some Blocked)"

lemma handle_sync_cases:
  assumes "handle_sync E p req ch s = (r, s')"
  obtains (refused) t where "sync_frame s t" "app_db t = app_db s"
      "s' = t\<lparr>app_wire := app_wire s @ [WRespondSync ch (empty_sync_resp_for req)]\<rparr>"
  | (dropped) "sync_frame s s'" "app_db s' = app_db s"
  | (answered) y rl where "sync_allowed E p s" "y7_id_from_peer_id E p = Some y"
      "andThen (answer_sync (conversation_between E (my_y7_id s) y) (my_pubkey s) req) (respond_sync ch)
         (s\<lparr>app_limiter := rl\<rparr>) = (r, s')"
proof -
  obtain ok rl where al: "allow_sync p (os_instant (db_os (app_db s))) (app_limiter s) = (ok, rl)"
    by fastforce
  let ?s = "s\<lparr>app_limiter := rl\<rparr>" and ?refuse = "respond_sync ch (empty_sync_resp_for req)"
  have lim: "andThen (limiter allow_sync p) f s = f ok ?s" for f :: "bool \<Rightarrow> (app, unit) action"
    using al by (simp add: andThen_def run_limiter)
  have s: "sync_frame s ?s"
    using sync_frame_drop [where s = s and rl = rl and n = "rl_drops_sync s"] by simp
  show ?thesis
  proof (cases "ok \<and> y7_id_from_peer_id E p \<noteq> None")
    case noid: False
    have "(if ok then ?refuse ?s else ?refuse (?s\<lparr>rl_drops_sync := rl_drops_sync s + 1\<rparr>)) = (r, s')"
      using assms noid by (cases ok) (simp_all add: handle_sync_def lim seqA_def)
    then show ?thesis
      using refused [of ?s] refused [OF sync_frame_drop] s
      by (auto simp: respond_sync_def run_net_command split: if_splits)
  next
    case True
    then obtain y where ok: ok and y: "y7_id_from_peer_id E p = Some y"
      by blast
    have run: "(case fst (contacts_get E y (app_db s)) of Inl e \<Rightarrow> (Inl e, ?s)
        | Inr c \<Rightarrow> if map_option contact_state c = Some Blocked then ?refuse ?s
            else andThen (answer_sync (conversation_between E (my_y7_id s) y) (my_pubkey s) req)
                   (respond_sync ch) ?s) = (r, s')"
      using assms ok y by (cases "fst (contacts_get E y (app_db s))")
        (auto simp: handle_sync_def lim andThen_read split: if_splits)
    show ?thesis
    proof (cases "\<exists>c. fst (contacts_get E y (app_db s)) = Inr c \<and> map_option contact_state c \<noteq> Some Blocked")
      case False
      then have "?refuse ?s = (r, s') \<or> s' = ?s"
        using run by (cases "fst (contacts_get E y (app_db s))") auto
      then have "s' = ?s\<lparr>app_wire := app_wire s @ [WRespondSync ch (empty_sync_resp_for req)]\<rparr> \<or> s' = ?s"
        by (auto simp: respond_sync_def run_net_command)
      then show ?thesis
        using refused [of ?s] dropped s by auto
    next
      case True
      then obtain c where c: "contacts_get E y (app_db s) = (Inr c, app_db s)" "map_option contact_state c \<noteq> Some Blocked"
        by (metis contacts_get_state prod.collapse)
      then have "status_in E s y \<noteq> Some Blocked"
        using contacts_get_Some(2) contacts_get_None(2) by (cases c) fastforce+
      then have "sync_allowed E p s"
        using al ok y by (simp add: sync_allowed_def)
      then show ?thesis
        using run c y by (intro answered [of y rl]) (auto split: if_splits)
    qed
  qed
qed


section \<open>What the pull loop achieves\<close>

text \<open>An envelope that the ingestion accepts from this peer, in a state.\<close>

definition ingestable :: "ext \<Rightarrow> app \<Rightarrow> y7id \<Rightarrow> message_envelope \<Rightarrow> bool" where
  "ingestable E s y e \<longleftrightarrow>
     int (length (env_ciphertext e)) \<le> max_message_bytes + 256 \<and> Y7Id (env_sender_pub e) = y \<and>
     (\<exists>x. fst (sessions_get E y (app_db s)) = Inr (Some x)) \<and>
     (\<exists>body. opened E s e (Text body)) \<and> db_fault (app_db s) ''messages.insert'' = None"

text \<open>What ingestion keeps: everything that decides whether an envelope is accepted.\<close>

definition same_gate :: "app \<Rightarrow> app \<Rightarrow> bool" where
  "same_gate s t \<longleftrightarrow>
     app_net t = app_net s \<and> app_me t = app_me s \<and> my_y7_id t = my_y7_id s \<and>
     db_fault (app_db t) = db_fault (app_db s) \<and>
     t_sessions (db_tables (app_db t)) = t_sessions (db_tables (app_db s))"

lemma same_gate_refl [simp]: "same_gate s s"
  by (simp add: same_gate_def)

lemma same_gate_ingestable: "same_gate s t \<Longrightarrow> ingestable E t y e = ingestable E s y e"
  using sessions_get_cong [of "app_db t" "app_db s" E y] open_from_peer_cong [of t s E]
  by (simp add: same_gate_def ingestable_def opened_def)

text \<open>An ingestion leaves the state as it is, or goes as far as inserting the row.\<close>

lemma ingest_cases:
  assumes "ingest_synced_envelope E y e s = (r, t)"
  obtains (unchanged) "t = s" "\<not> ingestable E s y e" "r \<noteq> Inr True"
  | (inserted) b d body where "ingestable E s y e" "opened E s e (Text body)"
      "messages_insert (stored_as (conversation_between E y (my_y7_id s)) (my_pubkey s) e) (app_db s) = (Inr b, d)"
      "r = Inr b" "t = s\<lparr>app_db := d, app_events := app_events s @
        (if b then [received_event E (conversation_between E y (my_y7_id s)) y e body] else [])\<rparr>"
proof -
  let ?conv = "conversation_between E y (my_y7_id s)"
  let ?ins = "messages_insert (stored_as ?conv (my_pubkey s) e) (app_db s)"
  show ?thesis
  proof (cases "int (length (env_ciphertext e)) \<le> max_message_bytes + 256 \<and> Y7Id (env_sender_pub e) = y \<and>
      (\<exists>x. fst (sessions_get E y (app_db s)) = Inr (Some x)) \<and> (\<exists>body. opened E s e (Text body))")
    case False
    then have "t = s \<and> r \<noteq> Inr True"
      using assms by (auto simp: ingest_synced_envelope_def andThen_read Let_def from_pubkey_def opened_def
          split: if_splits sum.splits option.splits plaintext_kind.splits)
    with False show ?thesis
      by (intro unchanged) (auto simp: ingestable_def)
  next
    case True
    then obtain x body where ok: "int (length (env_ciphertext e)) \<le> max_message_bytes + 256"
      "Y7Id (env_sender_pub e) = y" "fst (sessions_get E y (app_db s)) = Inr (Some x)" "opened E s e (Text body)"
      by blast
    obtain ri d where ins: "?ins = (ri, d)"
      by fastforce
    have run: "(case ri of Inl err \<Rightarrow> (Inl err, s\<lparr>app_db := d\<rparr>)
        | Inr b \<Rightarrow> (Inr b, s\<lparr>app_db := d, app_events := app_events s @
            (if b then [received_event E ?conv y e body] else [])\<rparr>)) = (r, t)"
      using assms ok ins
      by (auto simp: ingest_synced_envelope_def andThen_read Let_def from_pubkey_def opened_def
          andThen_def [of "on_db (messages_insert m)" for m] run_on_db seqA_def andThen_def [of "emit ev" for ev]
          split: sum.splits)
    show ?thesis
    proof (cases ri)
      case (Inl err)
      then have "db_fault (app_db s) ''messages.insert'' \<noteq> None" "d = app_db s"
        using ins by (auto simp: messages_insert_def stmt_def andThen_def split: option.splits)
      with run Inl show ?thesis
        by (intro unchanged) (auto simp: ingestable_def)
    next
      case (Inr b)
      with ins have "ingestable E s y e"
        using True messages_insert_Inr(1) by (simp add: ingestable_def)
      with run ins Inr ok(4) show ?thesis
        by (intro inserted [of body b d]) auto
    qed
  qed
qed

lemma has_key_insert_or_ignore:
  "has_key key k (insert_or_ignore key row rows) \<longleftrightarrow> k = key row \<or> has_key key k rows"
  by (auto simp: insert_or_ignore_def has_key_def)

section \<open>What a run of ingestions brings in\<close>

text \<open>
  Of some envelopes, those that are new and pass the checks, the rows they become, and the
  events that announce them.
\<close>

definition fresh :: "ext \<Rightarrow> y7id \<Rightarrow> app \<Rightarrow> message_envelope list \<Rightarrow> message_envelope list" where
  "fresh E y s es =
     filter (\<lambda>e. ingestable E s y e \<and> \<not> has_key mr_id (env_message_id e) (messages_of s)) es"

definition ingested_row :: "ext \<Rightarrow> y7id \<Rightarrow> app \<Rightarrow> message_envelope \<Rightarrow> message_row" where
  "ingested_row E y s e = message_new_row (os_now (db_os (app_db s)))
     (stored_as (conversation_between E y (my_y7_id s)) (my_pubkey s) e)"

definition announces :: "ext \<Rightarrow> y7id \<Rightarrow> app \<Rightarrow> message_envelope \<Rightarrow> app_event \<Rightarrow> bool" where
  "announces E y s e ev \<longleftrightarrow>
     (\<exists>body. opened E s e (Text body) \<and> ev = received_event E (conversation_between E y (my_y7_id s)) y e body)"

text \<open>From \<open>s\<close>, exactly these were stored and announced, in this order.\<close>

definition brought :: "ext \<Rightarrow> y7id \<Rightarrow> app \<Rightarrow> message_envelope list \<Rightarrow> app \<Rightarrow> bool" where
  "brought E y s es t \<longleftrightarrow>
     (\<exists>evs w. list_all2 (announces E y s) (fresh E y s es) evs \<and>
        t = s\<lparr>app_db := (app_db s)\<lparr>db_tables := (db_tables (app_db s))\<lparr>t_messages :=
                messages_of s @ map (ingested_row E y s) (fresh E y s es)\<rparr>\<rparr>,
              app_events := app_events s @ evs, app_wire := app_wire s @ w\<rparr>)"

lemma mr_id_ingested [simp]: "mr_id (ingested_row E y s e) = env_message_id e"
  by (simp add: ingested_row_def message_new_row_def stored_as_def message_id_from_bytes_def)

lemma has_key_ingested:
  "has_key mr_id i (rows @ map (ingested_row E y s) es) \<longleftrightarrow> has_key mr_id i rows \<or> i \<in> env_message_id ` set es"
  by (simp add: has_key_def image_Un image_image)

lemma fresh_append [simp]: "fresh E y s (es @ fs) = fresh E y s es @ fresh E y s fs"
  by (simp add: fresh_def)

lemma brought_nothing: "brought E y s [] (s\<lparr>app_wire := app_wire s @ w\<rparr>)"
  unfolding brought_def
  by (rule exI [of _ "[]"], rule exI [of _ w]) (simp add: fresh_def messages_of_def)

lemma brought_gate:
  assumes "brought E y s es t"
  shows "same_gate s t" "fresh E y t fs = filter (\<lambda>f. env_message_id f \<notin> env_message_id ` set (fresh E y s es)) (fresh E y s fs)"
    "ingested_row E y t = ingested_row E y s" "announces E y t = announces E y s"
proof -
  show gate: "same_gate s t"
    using assms by (auto simp: brought_def same_gate_def)
  have "has_key mr_id i (messages_of t) \<longleftrightarrow> has_key mr_id i (messages_of s) \<or> i \<in> env_message_id ` set (fresh E y s es)" for i
    using assms has_key_ingested [of i "messages_of s" E y s "fresh E y s es"]
    by (auto simp: brought_def messages_of_def)
  then show "fresh E y t fs = filter (\<lambda>f. env_message_id f \<notin> env_message_id ` set (fresh E y s es)) (fresh E y s fs)"
    using same_gate_ingestable [OF gate] by (auto simp: fresh_def intro: filter_cong)
  show "ingested_row E y t = ingested_row E y s"
    using assms by (auto simp: brought_def ingested_row_def fun_eq_iff)
  have "my_y7_id t = my_y7_id s" "opened E t e k = opened E s e k" for e k
    using gate open_from_peer_cong [of t s E] by (simp_all add: same_gate_def opened_def)
  then show "announces E y t = announces E y s"
    by (simp add: announces_def fun_eq_iff)
qed

text \<open>Two runs one after the other, of envelopes with different ids.\<close>

lemma brought_trans:
  assumes s: "brought E y s es u" and u: "brought E y u fs t" and "distinct (map env_message_id (es @ fs))"
  shows "brought E y s (es @ fs) t" "fresh E y u fs = fresh E y s fs"
proof -
  note g = brought_gate [OF s]
  have "set (fresh E y s es) \<subseteq> set es" "set (fresh E y s fs) \<subseteq> set fs"
    by (auto simp: fresh_def)
  then show fresh: "fresh E y u fs = fresh E y s fs"
    unfolding g(2) using assms(3) by (subst filter_id_conv) auto
  obtain ev w where 1: "list_all2 (announces E y s) (fresh E y s es) ev"
    "u = s\<lparr>app_db := (app_db s)\<lparr>db_tables := (db_tables (app_db s))\<lparr>t_messages :=
        messages_of s @ map (ingested_row E y s) (fresh E y s es)\<rparr>\<rparr>,
      app_events := app_events s @ ev, app_wire := app_wire s @ w\<rparr>"
    using s unfolding brought_def by blast
  obtain ev' w' where 2: "list_all2 (announces E y s) (fresh E y s fs) ev'"
    "t = u\<lparr>app_db := (app_db u)\<lparr>db_tables := (db_tables (app_db u))\<lparr>t_messages :=
        messages_of u @ map (ingested_row E y s) (fresh E y s fs)\<rparr>\<rparr>,
      app_events := app_events u @ ev', app_wire := app_wire u @ w'\<rparr>"
    using u unfolding brought_def g(3,4) fresh by blast
  show "brought E y s (es @ fs) t"
    unfolding brought_def
    by (rule exI [of _ "ev @ ev'"], rule exI [of _ "w @ w'"])
      (use 1 2 in \<open>simp add: list_all2_appendI messages_of_def\<close>)
qed

lemma ingest_brings:
  assumes "ingest_synced_envelope E y e s = (r, t)"
  shows "brought E y s [e] t" "(if r = Inr True then [e] else []) = fresh E y s [e]"
proof -
  have "brought E y s [e] t \<and> (if r = Inr True then [e] else []) = fresh E y s [e]"
    using assms
  proof (cases rule: ingest_cases)
    case unchanged
    then have "fresh E y s [e] = fresh E y s []"
      by (simp add: fresh_def)
    with unchanged show ?thesis
      using brought_nothing [of E y s "[]"] by (simp add: brought_def fresh_def)
  next
    case (inserted b d body)
    note i = messages_insert_Inr(2,3) [OF inserted(3)]
    have b: "b \<longleftrightarrow> \<not> has_key mr_id (env_message_id e) (messages_of s)"
      using i(1) by (simp add: stored_as_def message_id_from_bytes_def messages_of_def)
    have "d = (app_db s)\<lparr>db_tables := (db_tables (app_db s))\<lparr>t_messages :=
        messages_of s @ (if b then [ingested_row E y s e] else [])\<rparr>\<rparr>"
      using i(2) b by (auto simp: insert_or_ignore_def messages_of_def simp flip: ingested_row_def)
    then show ?thesis
      using inserted b unfolding brought_def
      by (intro conjI exI [of _ "if b then [received_event E (conversation_between E y (my_y7_id s)) y e body] else []"]
          exI [of _ "[]"]) (auto simp: fresh_def announces_def)
  qed
  then show "brought E y s [e] t" "(if r = Inr True then [e] else []) = fresh E y s [e]"
    by simp_all
qed

text \<open>A page is never cut short by an envelope that fails.\<close>

lemma ingest_page_total: "\<exists>ids t. ingest_page E y es s = (Inr ids, t)"
proof (induction es arbitrary: s)
  case (Cons e es)
  obtain r t where "ingest_synced_envelope E y e s = (r, t)"
    by fastforce
  with Cons.IH [of t] show ?case
    by (auto simp: andThen_def attempt_def)
qed simp

lemma keeps_ingest_page: "(\<And>e. keeps P (ingest_synced_envelope E y e)) \<Longrightarrow> keeps P (ingest_page E y es)"
  by (induction es) (auto intro!: keeps_intros)

lemma ingest_page_brings:
  assumes "ingest_page E y es s = (Inr ids, t)" "distinct (map env_message_id es)"
  shows "brought E y s es t" "ids = map env_message_id (fresh E y s es)"
proof -
  have "brought E y s es t \<and> ids = map env_message_id (fresh E y s es)"
    using assms
  proof (induction es arbitrary: s ids)
    case Nil
    then show ?case
      using brought_nothing [of E y s "[]"] by (simp add: fresh_def)
  next
    case (Cons e es)
    obtain r u where u: "ingest_synced_envelope E y e s = (r, u)"
      by fastforce
    obtain rest t' where rest: "ingest_page E y es u = (Inr rest, t')"
      using ingest_page_total by blast
    have run: "t' = t" "ids = (if r = Inr True then env_message_id e # rest else rest)"
      using Cons.prems(1) u rest by (auto simp: andThen_def attempt_def split: if_splits)
    note one = ingest_brings [OF u]
    have ih: "brought E y u es t" "rest = map env_message_id (fresh E y u es)"
      using Cons.IH [of u rest] rest run(1) Cons.prems(2) by simp_all
    have d: "distinct (map env_message_id ([e] @ es))"
      using Cons.prems(2) by simp
    have "fresh E y s (e # es) = (if r = Inr True then [e] else []) @ fresh E y s es"
      using fresh_append [of E y s "[e]" es] one(2) by simp
    then show ?case
      using brought_trans [OF one(1) ih(1) d] ih(2) run(2) by simp
  qed
  then show "brought E y s es t" "ids = map env_message_id (fresh E y s es)"
    by simp_all
qed

lemma run_send_sync:
  "attempt (send_sync p req) s = (Inr (ne_sync (app_net s) (app_wire s) p req),
     s\<lparr>app_wire := app_wire s @ [WSendSync p req]\<rparr>)"
  by (simp add: send_sync_def net_call_def attempt_def)

lemma andThen_send_sync:
  "andThen (attempt (send_sync p req)) f s =
     f (ne_sync (app_net s) (app_wire s) p req) (s\<lparr>app_wire := app_wire s @ [WSendSync p req]\<rparr>)"
  by (simp add: andThen_def run_send_sync)

lemma ingest_page_wire: "app_wire (snd (ingest_page E y es s)) = app_wire (s :: app)"
proof (induction es arbitrary: s)
  case (Cons e es)
  obtain r u where u: "ingest_synced_envelope E y e s = (r, u)"
    by fastforce
  then have "app_wire u = app_wire s"
    by (cases rule: ingest_cases) (use messages_insert_Inr in auto)
  moreover obtain ids t where t: "ingest_page E y es u = (Inr ids, t)"
    using ingest_page_total by blast
  ultimately show ?case
    using u Cons.IH [of u] by (auto simp: andThen_def attempt_def)
qed simp

text \<open>
  C35. The pull loop always comes to an end and returns the new ids: whatever the peer answers,
  at most as many requests go out as pages are left, and no answer and no failing envelope makes
  it fail.
\<close>

theorem pull_pages_returns:
  "\<exists>ids t w. pull_pages E y p conv n since newly s = (Inr ids, t) \<and>
     app_wire t = app_wire s @ w \<and> length w \<le> n"
proof (induction n arbitrary: since newly s)
  case (Suc n)
  let ?req = "SyncPull (conv_bytes conv) since sync_pull_limit"
  let ?s = "s\<lparr>app_wire := app_wire s @ [WSendSync p ?req]\<rparr>"
  show ?case
  proof (cases "\<exists>es full. ne_sync (app_net s) (app_wire s) p ?req = Inr (SyncPullResp es full) \<and> es \<noteq> []")
    case False
    then have "pull_pages E y p conv (Suc n) since newly s = (Inr newly, ?s)"
      by (auto simp: andThen_send_sync split: sum.splits sync_resp.splits)
    then show ?thesis
      by simp
  next
    case True
    then obtain es full where r: "ne_sync (app_net s) (app_wire s) p ?req = Inr (SyncPullResp es full)" "es \<noteq> []"
      by blast
    obtain ids u where u: "ingest_page E y es ?s = (Inr ids, u)"
      using ingest_page_total by blast
    then have wire: "app_wire u = app_wire s @ [WSendSync p ?req]"
      using ingest_page_wire [of E y es ?s] by simp
    have "andThen (ingest_page E y es) f ?s = f ids u" for f :: "bytes list \<Rightarrow> (app, bytes list) action"
      using u by (simp add: andThen_def)
    then have run: "pull_pages E y p conv (Suc n) since newly s =
        (if \<not> full then (Inr (newly @ ids), u)
         else pull_pages E y p conv n (Some (env_message_id (last es))) (newly @ ids) u)"
      using r by (simp add: andThen_send_sync)
    obtain ids' t w where rest: "pull_pages E y p conv n (Some (env_message_id (last es))) (newly @ ids) u = (Inr ids', t)"
      "app_wire t = app_wire u @ w" "length w \<le> n"
      using Suc.IH by blast
    show ?thesis
    proof (cases full)
      case True
      with run rest wire show ?thesis
        by (intro exI [of _ ids'] exI [of _ t] exI [of _ "WSendSync p ?req # w"]) simp
    next
      case False
      with run wire show ?thesis
        by simp
    qed
  qed
qed simp

lemma pull_pages_brings:
  assumes "\<And>h x. ne_sync (app_net s) h p (SyncPull (conv_bytes conv) x sync_pull_limit) =
      Inr (SyncPullResp (fst (serve x)) (snd (serve x)))"
    and "distinct (map env_message_id (pulled serve env_message_id n since))"
    and "pull_pages E y p conv n since newly s = (r, t)"
  shows "brought E y s (pulled serve env_message_id n since) t \<and>
    r = Inr (newly @ map env_message_id (fresh E y s (pulled serve env_message_id n since)))"
  using assms
proof (induction n arbitrary: since newly s)
  case 0
  then show ?case
    using brought_nothing [of E y s "[]"] by (simp add: fresh_def)
next
  case (Suc n)
  obtain es full where es: "serve since = (es, full)"
    by fastforce
  let ?req = "SyncPull (conv_bytes conv) since sync_pull_limit"
  let ?s = "s\<lparr>app_wire := app_wire s @ [WSendSync p ?req]\<rparr>"
  let ?tail = "pulled serve env_message_id n (Some (env_message_id (last es)))"
  have sent: "brought E y s [] ?s"
    by (rule brought_nothing)
  show ?case
  proof (cases "es = []")
    case True
    with Suc.prems(1,3) es sent show ?thesis
      by (auto simp: andThen_send_sync fresh_def)
  next
    case False
    obtain ids u where u: "ingest_page E y es ?s = (Inr ids, u)"
      using ingest_page_total by blast
    have "andThen (ingest_page E y es) f ?s = f ids u" for f :: "bytes list \<Rightarrow> (app, bytes list) action"
      using u by (simp add: andThen_def)
    then have run: "(if \<not> full then (Inr (newly @ ids), u)
         else pull_pages E y p conv n (Some (env_message_id (last es))) (newly @ ids) u) = (r, t)"
      using Suc.prems(1,3) es False by (cases full) (simp_all add: andThen_send_sync)
    have all: "pulled serve env_message_id (Suc n) since = es @ (if full then ?tail else [])"
      using es False by simp
    have d: "distinct (map env_message_id ([] @ es))"
      using Suc.prems(2) unfolding all by simp
    note page = ingest_page_brings [OF u d [unfolded append_Nil]]
    have here: "brought E y s es u" "ids = map env_message_id (fresh E y s es)"
      using brought_trans [OF sent page(1) d] page(2) by simp_all
    show ?thesis
    proof (cases full)
      case False
      then show ?thesis
        using run here unfolding all by simp
    next
      case True
      have gate: "same_gate s u"
        by (rule brought_gate(1) [OF here(1)])
      have rest: "brought E y u ?tail t \<and> r = Inr ((newly @ ids) @ map env_message_id (fresh E y u ?tail))"
        using run True Suc.prems(1,2) gate unfolding all by (intro Suc.IH) (simp_all add: same_gate_def)
      have "distinct (map env_message_id (es @ ?tail))"
        using Suc.prems(2) True unfolding all by simp
      from brought_trans [OF here(1) _ this] rest True here(2) show ?thesis
        unfolding all by auto
    qed
  qed
qed

text \<open>
  C15. Completeness of synchronisation between two sides: when the peer's answers are the pages
  that its \<open>handle_sync\<close> serves from tables \<open>t\<close>, the pull loop brings in, up to the bound of 64
  pages of 50, exactly those of the peer's own rows after \<open>since\<close> that are new to us and pass
  our checks: each is stored once, after what was there, in ascending order of the ids, and announced once in
  that order, and their ids are what the loop returns. So every row that passes is
  stored afterwards.
\<close>

theorem sync_pull_complete:
  assumes "keys_distinct mr_id (t_messages t)"
    and "\<And>h x. ne_sync (app_net s) h p (SyncPull (conv_bytes conv) x sync_pull_limit) =
      Inr (SyncPullResp (fst (serve_page t conv k x)) (snd (serve_page t conv k x)))"
    and "pull_pages E y p conv sync_max_pull_pages since [] s = (r, s')"
    and "theirs = take 3200 (rows_after env_message_id since (served t conv k))"
    and "new = filter (\<lambda>e. ingestable E s y e \<and> \<not> has_key mr_id (env_message_id e) (messages_of s)) theirs"
  shows "messages_of s' = messages_of s @ map (ingested_row E y s) new \<and>
    sorted_wrt (<) (map env_message_id new) \<and>
    (\<exists>evs. app_events s' = app_events s @ evs \<and> list_all2 (announces E y s) new evs) \<and>
    r = Inr (map env_message_id new) \<and>
    (\<forall>e \<in> set theirs. ingestable E s y e \<longrightarrow> has_key mr_id (env_message_id e) (messages_of s'))"
proof -
  have "distinct (map mr_id (outbound_rows conv k None t))"
    using assms(1) by (simp add: outbound_rows_def keys_distinct_def distinct_map_filter)
  then have "distinct (map mr_id (order_by mr_id (outbound_rows conv k None t)))"
    by (simp add: order_by_def distinct_map)
  then have sorted: "sorted_wrt (<) (map env_message_id (served t conv k))"
    using sorted_order_by [of mr_id "outbound_rows conv k None t"]
    by (simp add: served_def strict_sorted_iff o_def)
  have pulled: "pulled (serve_page t conv k) env_message_id sync_max_pull_pages since = theirs"
    using own_rows.pulled_all [OF sorted] by (simp add: sync_max_pull_pages_def sync_pull_limit_def assms(4))
  have theirs: "sorted_wrt (<) (map env_message_id theirs)"
    using sorted by (simp add: assms(4) rows_after_def sorted_wrt_map sorted_wrt_filter sorted_wrt_take)
  then have "distinct (map env_message_id theirs)"
    by (simp add: strict_sorted_iff)
  then have main: "brought E y s theirs s'" "r = Inr (map env_message_id (fresh E y s theirs))"
    using pull_pages_brings [OF assms(2) _ assms(3), unfolded pulled] by simp_all
  have new: "fresh E y s theirs = new"
    by (simp add: fresh_def assms(5))
  have rows: "messages_of s' = messages_of s @ map (ingested_row E y s) new"
    using main(1) by (auto simp: brought_def new messages_of_def)
  then have "has_key mr_id (env_message_id e) (messages_of s')" if "e \<in> set theirs" "ingestable E s y e" for e
    using that by (auto simp: assms(5) has_key_ingested)
  moreover have "sorted_wrt (<) (map env_message_id new)"
    using theirs by (simp add: assms(5) sorted_wrt_map sorted_wrt_filter)
  moreover have "\<exists>evs. app_events s' = app_events s @ evs \<and> list_all2 (announces E y s) new evs"
    using main(1) by (auto simp: brought_def new)
  ultimately show ?thesis
    using rows main(2) new by simp
qed

section \<open>Concrete synchronisations\<close>

text \<open>The row that holds the second party's text on its own side, and on ours when we wrote it.\<close>

definition pair_conv :: conversation_id where
  "pair_conv = conversation_between sample_ext bob_y7 (Y7Id (public_of sample_ext alice))"

definition text_row :: "bytes \<Rightarrow> message_envelope \<Rightarrow> message_row" where
  "text_row recipient e =
     \<lparr>mr_id = env_message_id e, mr_conv = conv_bytes pair_conv, mr_sender = env_sender_pub e,
      mr_recipient = recipient, mr_timestamp = env_timestamp_ms e, mr_status = 0,
      mr_payload = env_ciphertext e, mr_nonce = env_nonce e, mr_sig = env_sig e,
      mr_inserted_at = 1\<rparr>"

definition bob_tables :: tables where
  "bob_tables = empty_tables\<lparr>t_messages := [text_row (public_of sample_ext alice) bob_text]\<rparr>"

text \<open>The first party, on a network where the second one answers from those tables.\<close>

definition syncs_with_bob :: app where
  "syncs_with_bob = (knows_bob Accepted)\<lparr>app_net := sample_net\<lparr>ne_sync := (\<lambda>_ _ req.
     case req of
       SyncPull _ since _ \<Rightarrow>
         (case serve_page bob_tables pair_conv (replicate 32 2) since of
            (es, full) \<Rightarrow> Inr (SyncPullResp es full))
     | _ \<Rightarrow> Inr SyncAckResp)\<rparr>\<rparr>"

lemma bob_serves: "served bob_tables pair_conv (replicate 32 2) = [bob_text]"
  by (simp add: served_def bob_tables_def outbound_rows_def text_row_def order_by_def empty_tables_def
      row_envelope_def bob_text_def bob_seals_def)

lemma bob_text_ingestable: "ingestable sample_ext syncs_with_bob bob_y7 bob_text"
proof -
  have "opened sample_ext syncs_with_bob bob_text (Text ''hi'')"
    using bob_text_opens open_from_peer_cong [of syncs_with_bob "knows_bob PendingOut" sample_ext]
    by (simp add: opened_def syncs_with_bob_def knows_bob_def alice_app_def)
  moreover have "\<exists>x. fst (sessions_get sample_ext bob_y7 (app_db syncs_with_bob)) = Inr (Some x)"
    using knows_bob_reads(1) by (simp add: syncs_with_bob_def)
  ultimately show ?thesis
    using bob_y7_ok(2) by (auto simp: ingestable_def bob_text_def bob_seals_def max_message_bytes_def
        syncs_with_bob_def knows_bob_def alice_app_def sample_db_def)
qed

theorem sync_pull_complete_witness:
  "\<exists>s'. pull_pages sample_ext bob_y7 bob_peer pair_conv sync_max_pull_pages None [] syncs_with_bob =
       (Inr [env_message_id bob_text], s') \<and>
     messages_of s' = [ingested_row sample_ext bob_y7 syncs_with_bob bob_text] \<and> length (app_events s') = 1"
proof -
  have "keys_distinct mr_id (t_messages bob_tables)"
    by (simp add: bob_tables_def keys_distinct_def)
  moreover have "ne_sync (app_net syncs_with_bob) h bob_peer (SyncPull (conv_bytes pair_conv) x sync_pull_limit) =
      Inr (SyncPullResp (fst (serve_page bob_tables pair_conv (replicate 32 2) x))
        (snd (serve_page bob_tables pair_conv (replicate 32 2) x)))" for h x
    by (simp add: syncs_with_bob_def split: prod.splits)
  moreover obtain r s' where run: "pull_pages sample_ext bob_y7 bob_peer pair_conv sync_max_pull_pages None [] syncs_with_bob = (r, s')"
    by fastforce
  moreover have "messages_of syncs_with_bob = []" "app_events syncs_with_bob = []"
    by (simp_all add: syncs_with_bob_def knows_bob_def alice_app_def messages_of_def empty_tables_def)
  moreover have "filter (\<lambda>e. ingestable sample_ext syncs_with_bob bob_y7 e \<and>
      \<not> has_key mr_id (env_message_id e) (messages_of syncs_with_bob)) [bob_text] = [bob_text]"
    using bob_text_ingestable by (simp add: has_key_def \<open>messages_of syncs_with_bob = []\<close>)
  moreover have "take 3200 (rows_after env_message_id None (served bob_tables pair_conv (replicate 32 2))) = [bob_text]"
    by (simp add: bob_serves rows_after_def)
  ultimately have "messages_of s' = [ingested_row sample_ext bob_y7 syncs_with_bob bob_text] \<and>
      (\<exists>evs. app_events s' = evs \<and> list_all2 (announces sample_ext bob_y7 syncs_with_bob) [bob_text] evs) \<and>
      r = Inr [env_message_id bob_text]"
    using sync_pull_complete [of bob_tables syncs_with_bob bob_peer pair_conv "replicate 32 2" sample_ext bob_y7 None r s'
        "[bob_text]" "[bob_text]"]
    by (simp del: pull_pages.simps)
  then show ?thesis
    using run list_all2_lengthD by fastforce
qed

text \<open>The first party's own row in that conversation, asked for by the second one.\<close>

definition wrote_to_bob :: app where
  "wrote_to_bob = (knows_bob Accepted)\<lparr>app_db := (app_db (knows_bob Accepted))\<lparr>db_tables :=
     (db_tables (app_db (knows_bob Accepted)))\<lparr>t_messages :=
       [text_row (replicate 32 2) (bob_text\<lparr>env_sender_pub := public_of sample_ext alice\<rparr>)]\<rparr>\<rparr>\<rparr>"

lemma handle_sync_passes:
  assumes "limiter allow_sync p s = (Inr True, t)" "y7_id_from_peer_id E p = Some y"
    and "fst (contacts_get E y (app_db s)) = Inr c" "map_option contact_state c \<noteq> Some Blocked"
  shows "handle_sync E p req ch s =
      andThen (answer_sync (conversation_between E (my_y7_id s) y) (my_pubkey s) req) (respond_sync ch) t"
proof -
  obtain rl where t: "t = s\<lparr>app_limiter := rl\<rparr>"
    using assms(1) by (auto simp: run_limiter split: prod.splits)
  have "andThen (limiter allow_sync p) f s = f True t" for f :: "bool \<Rightarrow> (app, unit) action"
    using assms(1) by (simp add: andThen_def)
  then show ?thesis
    using assms(2-) by (auto simp: handle_sync_def t andThen_read)
qed

lemma wrote_to_bob_limiter:
  "limiter allow_sync bob_peer wrote_to_bob =
     (Inr True, wrote_to_bob\<lparr>app_limiter := snd (allow_sync bob_peer 0 default_limits)\<rparr>)"
proof -
  have "fst (allow_sync bob_peer 0 default_limits)"
    by code_simp
  then show ?thesis
    by (cases "allow_sync bob_peer 0 default_limits")
      (simp add: run_limiter wrote_to_bob_def knows_bob_def alice_app_def sample_db_def sample_os_def)
qed

lemma wrote_to_bob_decodes:
  "\<exists>m. message_decode (text_row (replicate 32 2) (bob_text\<lparr>env_sender_pub := public_of sample_ext alice\<rparr>)) = Inr m"
proof -
  have "case message_decode (text_row (replicate 32 2) (bob_text\<lparr>env_sender_pub := public_of sample_ext alice\<rparr>)) of
      Inr _ \<Rightarrow> True | Inl _ \<Rightarrow> False"
    by code_simp
  then show ?thesis
    by (auto split: sum.splits)
qed

lemma wrote_to_bob_answers:
  "answer_sync pair_conv (public_of sample_ext alice) (SyncPull (conv_bytes pair_conv) None 50)
     (wrote_to_bob\<lparr>app_limiter := rl\<rparr>) =
   (Inr (SyncPullResp [bob_text\<lparr>env_sender_pub := public_of sample_ext alice\<rparr>] False),
    wrote_to_bob\<lparr>app_limiter := rl\<rparr>)"
proof -
  let ?row = "text_row (replicate 32 2) (bob_text\<lparr>env_sender_pub := public_of sample_ext alice\<rparr>)"
  obtain m where m: "message_decode ?row = Inr m"
    using wrote_to_bob_decodes by blast
  have rows: "limit_rows 50 (order_by mr_id (outbound_rows pair_conv (public_of sample_ext alice) None
      (db_tables (app_db wrote_to_bob)))) = [?row]"
    by (simp add: wrote_to_bob_def outbound_rows_def order_by_def limit_rows_def)
      (simp add: text_row_def)
  have fault: "db_fault (app_db wrote_to_bob) = (\<lambda>_. None)"
    by (simp add: wrote_to_bob_def knows_bob_def alice_app_def sample_db_def)
  have "row_envelope ?row = bob_text\<lparr>env_sender_pub := public_of sample_ext alice\<rparr>"
    by (simp add: row_envelope_def text_row_def)
  then show ?thesis
    by (simp add: answer_sync_def answer_pull_def andThen_def run_on_db messages_pull_run fault rows m
        decoded_envelope [OF m])
qed


section \<open>A gap is not seen\<close>

text \<open>
  The reconcile takes the peer's highest inbound id as proof that every earlier row of ours has
  arrived: a row that the peer never received, but whose id is below one it did receive, becomes
  \<open>Synced\<close> and leaves the retry queue.
\<close>

definition gap_digest :: conversation_digest where
  "gap_digest = \<lparr>cd_conversation_id = conv_bytes pair_conv, cd_highest_outbound = None,
     cd_highest_inbound = Some (replicate 16 255)\<rparr>"

definition wrote_and_queued :: app where
  "wrote_and_queued = wrote_to_bob\<lparr>app_db := (app_db wrote_to_bob)\<lparr>db_tables :=
     (db_tables (app_db wrote_to_bob))\<lparr>t_queue :=
       [\<lparr>qr_message = env_message_id bob_text, qr_target = to_uri sample_ext bob_y7, qr_attempts = 1,
         qr_next_retry_at = 1\<rparr>]\<rparr>\<rparr>\<rparr>"

lemma promotes_gap:
  "messages_promote_outbound_synced pair_conv (public_of sample_ext alice) (MessageId (replicate 16 255))
     (app_db wrote_and_queued) =
   (Inr [MessageId (env_message_id bob_text)],
    (app_db wrote_and_queued)\<lparr>db_tables := (db_tables (app_db wrote_and_queued))\<lparr>t_messages :=
      [(text_row (replicate 32 2) (bob_text\<lparr>env_sender_pub := public_of sample_ext alice\<rparr>))
         \<lparr>mr_status := message_status_as_i64 Synced\<rparr>]\<rparr>\<rparr>)"
proof -
  have "db_fault (app_db wrote_and_queued) = (\<lambda>_. None)"
    "t_messages (db_tables (app_db wrote_and_queued)) =
       [text_row (replicate 32 2) (bob_text\<lparr>env_sender_pub := public_of sample_ext alice\<rparr>)]"
    by (simp_all add: wrote_and_queued_def wrote_to_bob_def knows_bob_def alice_app_def sample_db_def)
  moreover have "promotable pair_conv (public_of sample_ext alice) (MessageId (replicate 16 255))
      (text_row (replicate 32 2) (bob_text\<lparr>env_sender_pub := public_of sample_ext alice\<rparr>))"
    by code_simp
  moreover have "mr_id (text_row k e) = env_message_id e" for k e
    by (simp add: text_row_def)
  moreover have "try_msg_id (env_message_id bob_text) = Inr (MessageId (env_message_id bob_text))"
    by (simp add: try_msg_id_def try_bytes_def bob_text_def bob_seals_def)
  ultimately show ?thesis
    by (simp add: messages_promote_outbound_synced_def stmt_def andThen_def update_where_def)
qed

lemma reconcile_assumes_no_gap:
  "map mr_status (messages_of wrote_and_queued) = [0]" "length (queue_of wrote_and_queued) = 1"
  "\<exists>s'. reconcile sample_ext bob_y7 bob_peer pair_conv (public_of sample_ext alice) None gap_digest
       wrote_and_queued = (Inr (), s') \<and>
     map mr_status (messages_of s') = [message_status_as_i64 Synced] \<and> queue_of s' = []"
proof -
  have "db_fault (app_db wrote_and_queued) = (\<lambda>_. None)"
    by (simp add: wrote_and_queued_def wrote_to_bob_def knows_bob_def alice_app_def sample_db_def)
  moreover have "t_queue (db_tables (app_db wrote_and_queued)) =
      [\<lparr>qr_message = env_message_id bob_text, qr_target = to_uri sample_ext bob_y7, qr_attempts = 1,
         qr_next_retry_at = 1\<rparr>]"
    by (simp add: wrote_and_queued_def)
  ultimately show "\<exists>s'. reconcile sample_ext bob_y7 bob_peer pair_conv (public_of sample_ext alice) None gap_digest
       wrote_and_queued = (Inr (), s') \<and>
     map mr_status (messages_of s') = [message_status_as_i64 Synced] \<and> queue_of s' = []"
    by (simp add: reconcile_def gap_digest_def need_pull_def message_id_from_bytes_def seqA_def andThen_def
        run_on_db promotes_gap drop_promoted_def ignore_def queue_remove_def execute_def stmt_def
        messages_of_def queue_of_def delete_where_def queue_key_def)
qed (simp_all add: messages_of_def queue_of_def wrote_and_queued_def wrote_to_bob_def text_row_def)

text \<open>
  An acknowledgement is scoped to the conversation it names, the ids in it are not: a message of
  any conversation and any recipient becomes \<open>Synced\<close>.
\<close>

lemma ack_reaches_any_conversation:
  assumes "db_fault (app_db s) ''messages.update_status'' = None" "r \<in> set (messages_of s)"
  shows "r\<lparr>mr_status := message_status_as_i64 Synced\<rparr> \<in>
    set (messages_of (snd (answer_ack c (conv_bytes c) [mr_id r] s)))"
proof -
  have "messages_of (snd (answer_ack c (conv_bytes c) [mr_id r] s)) =
      update_where (\<lambda>q. mr_id q = mr_id r) (\<lambda>q. q\<lparr>mr_status := message_status_as_i64 Synced\<rparr>) (messages_of s)"
    using assms(1)
    by (simp add: answer_ack_def messages_update_status_def execute_def stmt_def run_on_db message_id_from_bytes_def messages_of_def
        action_simps)
  then show ?thesis
    using update_where_hit [OF assms(2), of "\<lambda>q. mr_id q = mr_id r"] by simp
qed

end
