(* ===== verification/Connections.thy ===== *)
theory Connections
  imports Outbox Schema Multiaddr Sync
begin

text \<open>
  The connection events of the swarm (\<open>dispatch\<close> in \<open>event_loop.rs\<close>): a peer that was discovered,
  a connection that opens, is upgraded to a direct one, fails to, or closes, and the results of
  the reachability probes. The connections of a peer are listed by their ids in the order in
  which they were recorded.
\<close>

section \<open>The handlers\<close>

definition dcutr_failure_ring :: nat where
  "dcutr_failure_ring = 5"

text \<open>What every event that makes a peer reachable ends with.\<close>

definition resume_peer :: "ext \<Rightarrow> y7id \<Rightarrow> peer \<Rightarrow> (app, unit) action" where
  "resume_peer E y p =
     seqA (drain_queue_for_peer E y p False)
       (seqA (flush_pending_delete E y p) (spawn_kick_sync y p))"

definition peer_discovered ::
  "ext \<Rightarrow> peer \<Rightarrow> maddr list \<Rightarrow> y7id option \<Rightarrow> (app, unit) action" where
  "peer_discovered E p addrs y7_id =
     (case y7_id of
        None \<Rightarrow> ret ()
      | Some y \<Rightarrow>
          seqA
            (if addrs = [] then ret ()
             else
               andThen (on_db (contacts_get E y)) (\<lambda>contact.
                 if contact = None then ret ()
                 else
                   (case json_strings E (map (maddr_show E) addrs) of
                      Inl _ \<Rightarrow> ret ()
                    | Inr json \<Rightarrow> ignore (on_db (peer_state_upsert_seen E y (Some json))))))
            (resume_peer E y p))"

definition meta_of_endpoint :: "connection_kind \<Rightarrow> maddr \<Rightarrow> connection_meta" where
  "meta_of_endpoint kind addr =
     \<lparr>cm_via_host = extract_relay_via_host addr, cm_transport = extract_transport addr,
      cm_ip_version = extract_ip_version addr, cm_origin = classify_origin kind addr\<rparr>"

definition conns_of :: "y7id \<Rightarrow> app \<Rightarrow> conns" where
  "conns_of y s = (case connections s y of Some cs \<Rightarrow> cs | None \<Rightarrow> [])"

text \<open>An entry that is there is modified, keeping the provenance of an upgrade; else it is inserted.\<close>

definition record_connection ::
  "connection_id \<Rightarrow> connection_kind \<Rightarrow> connection_meta \<Rightarrow> int \<Rightarrow> conns \<Rightarrow> conns" where
  "record_connection cid kind meta now cs =
     AList.update cid
       (case map_of cs cid of
          Some e \<Rightarrow>
            (if cm_origin (ce_meta e) = DcutrUpgrade
             then e\<lparr>ce_kind := kind, ce_meta := meta\<lparr>cm_origin := DcutrUpgrade\<rparr>\<rparr>
             else e\<lparr>ce_kind := kind, ce_meta := meta\<rparr>)
        | None \<Rightarrow> \<lparr>ce_kind = kind, ce_meta = meta, ce_opened_at = now\<rparr>) cs"

definition update_conns :: "y7id \<Rightarrow> (int \<Rightarrow> conns \<Rightarrow> conns) \<Rightarrow> (app, unit) action" where
  "update_conns y f =
     andThen instant_now (\<lambda>now. modify (\<lambda>s.
       s\<lparr>connections := (connections s)(y \<mapsto> f now (conns_of y s))\<rparr>))"

text \<open>Recompute the presence of a peer, record the transition, announce it.\<close>

definition publish_presence :: "ext \<Rightarrow> y7id \<Rightarrow> (app, unit) action \<Rightarrow> (app, unit) action" where
  "publish_presence E y between =
     andThen (refresh_presence y) (\<lambda>(best, tr, ip, origin).
       seqA between
         (seqA (record_transition E y best tr ip origin) (emit_presence E y (best, tr, ip, origin))))"

definition connection_established ::
  "ext \<Rightarrow> peer \<Rightarrow> connection_id \<Rightarrow> connection_kind \<Rightarrow> maddr \<Rightarrow> (app, unit) action" where
  "connection_established E p cid kind addr =
     (case y7_id_from_peer_id E p of
        None \<Rightarrow> ret ()
      | Some y \<Rightarrow>
          seqA (update_conns y (record_connection cid kind (meta_of_endpoint kind addr)))
            (seqA
               (publish_presence E y
                  (modify (\<lambda>s. s\<lparr>reconnect_backoff := (reconnect_backoff s)(y := None)\<rparr>)))
               (resume_peer E y p)))"

text \<open>The upgrade relabels the entry of its connection, creating it when it came first.\<close>

definition relabel_upgraded :: "connection_id \<Rightarrow> connection_kind \<Rightarrow> int \<Rightarrow> conns \<Rightarrow> conns" where
  "relabel_upgraded cid kind now cs =
     (let e = (case map_of cs cid of
                 Some e \<Rightarrow> e
               | None \<Rightarrow> \<lparr>ce_kind = kind, ce_meta = meta_default, ce_opened_at = now\<rparr>)
      in AList.update cid (e\<lparr>ce_kind := kind, ce_meta := (ce_meta e)\<lparr>cm_origin := DcutrUpgrade\<rparr>\<rparr>) cs)"

definition connection_upgraded ::
  "ext \<Rightarrow> peer \<Rightarrow> connection_id \<Rightarrow> connection_kind \<Rightarrow> (app, unit) action" where
  "connection_upgraded E p cid kind =
     seqA (modify (\<lambda>s. s\<lparr>dcutr_attempts := dcutr_attempts s + 1,
                        dcutr_successes := dcutr_successes s + 1\<rparr>))
       (case y7_id_from_peer_id E p of
          None \<Rightarrow> ret ()
        | Some y \<Rightarrow>
            seqA (modify (\<lambda>s. s\<lparr>upgrade_backoff := (upgrade_backoff s)(y := None)\<rparr>))
              (seqA (update_conns y (relabel_upgraded cid kind))
                 (seqA (publish_presence E y (ret ())) (drain_queue_for_peer E y p False))))"

definition connection_upgrade_failed :: "ext \<Rightarrow> peer \<Rightarrow> string \<Rightarrow> (app, unit) action" where
  "connection_upgrade_failed E p error =
     modify (\<lambda>s. s\<lparr>dcutr_attempts := dcutr_attempts s + 1, dcutr_failures := dcutr_failures s + 1,
       dcutr_recent_failures :=
         ring_push dcutr_failure_ring (dcutr_recent_failures s) (peer_show E p @ '': '' @ error)\<rparr>)"

text \<open>Only the connection that closed is removed; the last one takes the peer's entry with it.\<close>

definition drop_connection :: "y7id \<Rightarrow> connection_id \<Rightarrow> (app, bool) action" where
  "drop_connection y cid s =
     (case connections s y of
        None \<Rightarrow> (Inr True, s)
      | Some cs \<Rightarrow>
          (let left = AList.delete cid cs
           in (Inr (left = []),
               s\<lparr>connections := (connections s)(y := if left = [] then None else Some left)\<rparr>)))"

definition connection_closed :: "ext \<Rightarrow> peer \<Rightarrow> connection_id \<Rightarrow> (app, unit) action" where
  "connection_closed E p cid =
     (case y7_id_from_peer_id E p of
        None \<Rightarrow> ret ()
      | Some y \<Rightarrow>
          andThen (drop_connection y cid) (\<lambda>fully_gone.
            seqA (modify (\<lambda>s. s\<lparr>upgrade_backoff := (upgrade_backoff s)(y := None)\<rparr>))
              (seqA
                 (if fully_gone then modify (\<lambda>s. s\<lparr>app_limiter := rl_forget p (app_limiter s)\<rparr>)
                  else ret ())
                 (publish_presence E y (ret ())))))"

text \<open>The verdict on our reachability, from one probe.\<close>

definition nat_step :: "bool \<Rightarrow> nat_status_state \<Rightarrow> nat_status_state" where
  "nat_step reachable st =
     (if reachable then st\<lparr>nat_verdict := Public, nat_failures := 0\<rparr>
      else
        (let failures = sat_inc32 (nat_failures st);
             st' = st\<lparr>nat_failures := failures\<rparr>
         in if nat_verdict st' = NatUnknown \<or> (nat_verdict st' = Public \<and> failures \<ge> 3)
            then st'\<lparr>nat_verdict := Private\<rparr>
            else st'))"

definition handle_nat_status :: "ext \<Rightarrow> maddr \<Rightarrow> peer \<Rightarrow> bool \<Rightarrow> (app, unit) action" where
  "handle_nat_status E tested_addr server reachable =
     andThen (asks (\<lambda>s. nat_verdict (nat_status s))) (\<lambda>previous.
     seqA (modify (\<lambda>s. s\<lparr>nat_status := nat_step reachable (nat_status s),
                         nat_probe_detail := Some (maddr_show E tested_addr, peer_show E server)\<rparr>))
       (andThen (asks (\<lambda>s. nat_verdict (nat_status s))) (\<lambda>now.
          if previous = now then ret ()
          else
            seqA (emit (NatStatusChanged now))
              (if now = Public
               then modify (\<lambda>s. s\<lparr>upgrade_backoff := Map.empty, wake_pending := True\<rparr>)
               else ret ()))))"

section \<open>Invariants of the caches\<close>

text \<open>
  A predicate over the caches: it does not look at the wire, the events, the tasks, the rate
  limiter and its counters, and of the database at most at whether it is well typed. Everything
  that only works on those keeps it.
\<close>

locale cache_predicate =
  fixes P :: "app \<Rightarrow> bool"
  assumes db: "P s \<Longrightarrow> (store_typed (app_db s) \<Longrightarrow> store_typed d) \<Longrightarrow> P (s\<lparr>app_db := d\<rparr>)"
    and wire: "P s \<Longrightarrow> P (s\<lparr>app_wire := w\<rparr>)"
    and events: "P s \<Longrightarrow> P (s\<lparr>app_events := es\<rparr>)"
    and tasks: "P s \<Longrightarrow> P (s\<lparr>app_tasks := ts\<rparr>)"
    and limiter: "P s \<Longrightarrow> P (s\<lparr>app_limiter := rl\<rparr>)"
    and drops: "P s \<Longrightarrow> P (s\<lparr>rl_drops_handshake := a\<rparr>)" "P s \<Longrightarrow> P (s\<lparr>rl_drops_msg := b\<rparr>)"
      "P s \<Longrightarrow> P (s\<lparr>rl_drops_sync := c\<rparr>)"
    and syncing: "P s \<Longrightarrow> P (s\<lparr>syncing := ys\<rparr>)"
begin

lemmas frame = wire events tasks limiter drops syncing

lemma keeps_store: "keeps store_typed m \<Longrightarrow> keeps P (on_db m)"
  by (rule keepsI) (simp add: run_on_db db keepsD)

lemma keeps_entropy: "keeps P (app_os n)"
  unfolding app_os_def by (intro keeps_store keeps_on_os) (simp add: store_typed_tables)

lemma keeps_effects:
  "keeps P (emit e)" "keeps P (spawn t)" "keeps P (net_call w' f)"
  "keeps P (net_command w')" "keeps P (send_msg p e')" "keeps P (send_sync p q)"
  unfolding net_command_def send_msg_def send_sync_def
  by (intro keeps_intros frame; assumption)+

lemmas keeps_primitives = keeps_store keeps_entropy keeps_effects typed_db

lemma keeps_drain: "keeps P (drain_queue_for_peer E y p respect)"
  unfolding drain_queue_for_peer_def drain_entry_def
  by (intro keeps_intros keeps_primitives)

lemma keeps_flush: "keeps P (flush_pending_delete E y p)"
  unfolding flush_pending_delete_def
  by (intro keeps_intros keeps_primitives)

lemma keeps_resume: "keeps P (resume_peer E y p)"
  unfolding resume_peer_def spawn_kick_sync_def
  by (intro keeps_intros keeps_primitives keeps_drain keeps_flush frame)

lemma keeps_discovered: "keeps P (peer_discovered E p addrs y7)"
  unfolding peer_discovered_def
  by (intro keeps_intros keeps_primitives keeps_resume)

lemma keeps_limiter: "keeps P (limiter allow p)"
  by (rule keepsI) (auto simp: run_limiter limiter split: prod.splits)

lemma keeps_pull_pages: "keeps P (pull_pages E y p conv n since newly)"
proof (induction n arbitrary: since newly)
  case (Suc n)
  have "keeps P (ingest_page E y es)" for es
    unfolding ingest_synced_envelope_def
    by (rule keeps_ingest_page)
      (auto simp: ingest_synced_envelope_def open_from_peer_def Let_def
        intro!: keeps_intros keeps_primitives split: plaintext_kind.splits)
  then show ?case
    by (auto intro!: keeps_intros keeps_primitives Suc.IH split: sum.splits sync_resp.splits)
qed (auto intro!: keeps_intros)

lemma keeps_kick_sync: "keeps P (run_kick_sync E y p)"
proof -
  have "keeps P (reconcile E y p conv pk mine their)" for conv pk mine their
    unfolding reconcile_def drop_promoted_def
    by (intro keeps_intros keeps_primitives keeps_pull_pages)
  then have "keeps P (kick_sync_for_peer E y p)"
    unfolding kick_sync_for_peer_def Let_def
    by (auto intro!: keeps_intros keeps_primitives split: sum.splits sync_resp.splits)
  then show ?thesis
    unfolding run_kick_sync_def
    by (intro keeps_intros frame)
qed

lemma keeps_handle_handshake: "keeps P (handle_handshake E p request ch)"
proof -
  have "keeps P (ensure_incoming_request E y g)" for y g
    unfolding ensure_incoming_request_def
    by (intro keeps_intros keeps_primitives frame)
  then show ?thesis
    unfolding handle_handshake_def refuse_handshake_def Let_def
    by (intro keeps_intros keeps_primitives keeps_limiter frame)
qed

lemma keeps_handle_sync: "keeps P (handle_sync E p req ch)"
proof -
  have "keeps P (answer_digests c k cds)" for c k cds
    by (simp add: keeps_def)
  then have "keeps P (answer_sync c k req)" for c k
    unfolding answer_sync_def answer_pull_def answer_ack_def
    by (auto intro!: keeps_intros keeps_primitives split: sync_req.splits)
  then show ?thesis
    unfolding handle_sync_def respond_sync_def
    by (intro keeps_intros keeps_primitives keeps_limiter frame)
qed

text \<open>A message may delete a conversation, with the peer's entries in the caches.\<close>

lemma keeps_handle_msg:
  assumes "\<And>y s. P s \<Longrightarrow> P (forget_peer y s)"
  shows "keeps P (handle_msg E p e ch)"
proof -
  have pending: "keeps P (resolve_pending_of E y res (ret ()))" "keeps P (resolve_pending_of E y res (emit ev))" for y res ev
    unfolding resolve_pending_of_def
    by (intro keeps_intros keeps_primitives frame; assumption)+
  have "keeps P (handle_control E y ctrl)" "keeps P (promote_pending_out E y)" for y ctrl
    unfolding handle_control_def promote_pending_out_def wipe_conversation_def
    by (cases ctrl) (auto intro!: keeps_intros keeps_primitives pending frame assms)
  then have "keeps P (deliver E y conv e ch kind)" for y conv kind
    unfolding deliver_def ack_msg_def
    by (cases kind) (auto intro!: keeps_intros keeps_primitives frame)
  then show ?thesis
    unfolding handle_msg_def ack_msg_def open_from_peer_def Let_def
    by (intro keeps_intros keeps_primitives keeps_limiter frame)
qed

end

text \<open>The counters of the upgrades, and the verdict on reachability.\<close>

definition dcutr_ok :: "app \<Rightarrow> bool" where
  "dcutr_ok s \<longleftrightarrow>
     dcutr_attempts s = dcutr_successes s + dcutr_failures s \<and>
     length (dcutr_recent_failures s) = min dcutr_failure_ring (dcutr_failures s)"

definition nat_ok :: "nat_status_state \<Rightarrow> bool" where
  "nat_ok st \<longleftrightarrow>
     (nat_verdict st = NatUnknown \<longrightarrow> nat_failures st = 0) \<and>
     (nat_verdict st = Public \<longrightarrow> nat_failures st < 3) \<and>
     (nat_verdict st = Private \<longrightarrow> 0 < nat_failures st)"

definition counters_ok :: "app \<Rightarrow> bool" where
  "counters_ok s \<longleftrightarrow> ring_ok s \<and> dcutr_ok s \<and> nat_ok (nat_status s)"

definition caches_ok :: "app \<Rightarrow> bool" where
  "caches_ok s \<longleftrightarrow> presence_ok s \<and> counters_ok s"

text \<open>The presence caches of every peer but one.\<close>

definition presence_but :: "y7id \<Rightarrow> app \<Rightarrow> bool" where
  "presence_but y s \<longleftrightarrow>
     (\<forall>z. z \<noteq> y \<longrightarrow> presence_at z s) \<and> distinct (map fst (presence s)) \<and> conns_ok s"

lemmas cache_defs = caches_ok_def counters_ok_def dcutr_ok_def ring_ok_def presence_ok_def
  presence_at_def presence_but_def best_of_def conns_ok_def

interpretation caches: cache_predicate caches_ok
  by unfold_locales (simp_all add: cache_defs)

lemma presence_ok_but: "presence_ok s \<Longrightarrow> presence_but y s"
  by (simp add: presence_ok_def presence_but_def)

lemma record_transition_caches: "keeps caches_ok (record_transition E y to tr ip origin)"
proof (rule keepsI)
  fix s
  assume s: "caches_ok s"
  have "keeps dcutr_ok (record_transition E y to tr ip origin)"
    "keeps (\<lambda>t. nat_ok (nat_status t)) (record_transition E y to tr ip origin)"
    unfolding record_transition_def
    by (auto intro!: keeps_intros simp: dcutr_ok_def Let_def)
  then show "caches_ok (snd (record_transition E y to tr ip origin s))"
    using s record_transition_ok record_transition_presence
    by (simp add: caches_ok_def counters_ok_def keeps_def)
qed

text \<open>Publishing the presence of a peer restores the invariant for it.\<close>

lemma publish_presence_caches:
  assumes "presence_but y s" "counters_ok s" "keeps caches_ok between"
  shows "caches_ok (snd (publish_presence E y between s))"
proof -
  obtain best tr ip origin t where r: "refresh_presence y s = (Inr (best, tr, ip, origin), t)"
    by (cases "best_of y s") (simp add: refresh_presence_run)
  have "presence_ok t"
    using refresh_presence_ok [of y s] assms(1) r by (simp add: presence_but_def)
  moreover have "counters_ok t"
    using assms(2) r
    by (cases "best_of y s") (auto simp: refresh_presence_run counters_ok_def ring_ok_def dcutr_ok_def)
  ultimately have t: "caches_ok t"
    by (simp add: caches_ok_def)
  let ?rest = "seqA between (seqA (record_transition E y best tr ip origin) (emit_presence E y (best, tr, ip, origin)))"
  have "keeps caches_ok ?rest"
    unfolding emit_presence_def
    by (intro keeps_intros assms(3) record_transition_caches caches.keeps_primitives)
  then have "caches_ok (snd (?rest t))"
    using t by (rule keepsD)
  then show ?thesis
    using r by (simp add: publish_presence_def andThen_def)
qed

lemma keeps_then:
  assumes "\<And>s. P s \<Longrightarrow> fst (m s) = Inr ()" "\<And>s. P s \<Longrightarrow> Q (snd (m s))"
    and "\<And>s. Q s \<Longrightarrow> P (snd (k s))"
  shows "keeps P (seqA m k)"
proof (rule keepsI)
  fix s assume "P s"
  then show "P (snd (seqA m k s))"
    using assms by (cases "m s") (fastforce simp: seqA_def andThen_def)
qed

lemma distinct_update_fst: "distinct (map fst cs) \<Longrightarrow> distinct (map fst (AList.update k v cs))"
  by (rule distinct_update)

text \<open>A change of one peer's connections leaves the presence of every other one right.\<close>

lemma update_conns_run:
  "update_conns y f s =
     (Inr (), s\<lparr>connections := (connections s)(y \<mapsto> f (os_instant (db_os (app_db s))) (conns_of y s))\<rparr>)"
  by (simp add: update_conns_def andThen_def)

lemma update_conns_but:
  assumes "caches_ok s" "\<And>now cs. distinct (map fst cs) \<Longrightarrow> distinct (map fst (f now cs)) \<and> f now cs \<noteq> []"
  shows "fst (update_conns y f s) = Inr () \<and> presence_but y (snd (update_conns y f s)) \<and>
    counters_ok (snd (update_conns y f s))"
proof -
  have "distinct (map fst (conns_of y s))"
    using assms(1) by (auto simp: caches_ok_def presence_ok_def conns_ok_def conns_of_def split: option.splits)
  then show ?thesis
    using assms by (auto simp: update_conns_run cache_defs)
qed

lemma recorded_conns:
  "distinct (map fst cs) \<Longrightarrow> distinct (map fst (record_connection cid kind meta now cs)) \<and>
     record_connection cid kind meta now cs \<noteq> []"
  "distinct (map fst cs) \<Longrightarrow> distinct (map fst (relabel_upgraded cid kind now cs)) \<and>
     relabel_upgraded cid kind now cs \<noteq> []"
  by (simp_all add: record_connection_def relabel_upgraded_def distinct_update Let_def update_nonempty)

lemma change_then_publish:
  assumes "\<And>s. caches_ok s \<Longrightarrow>
      fst (m s) = Inr () \<and> presence_but y (snd (m s)) \<and> counters_ok (snd (m s))"
    and "keeps caches_ok between" "keeps caches_ok rest"
  shows "keeps caches_ok (seqA m (seqA (publish_presence E y between) rest))"
proof (rule keeps_then)
  show "caches_ok s \<Longrightarrow> fst (m s) = Inr ()" for s
    using assms(1) by blast
  show "caches_ok s \<Longrightarrow> presence_but y (snd (m s)) \<and> counters_ok (snd (m s))" for s
    using assms(1) by blast
  fix s assume "presence_but y s \<and> counters_ok s"
  then have "caches_ok (snd (publish_presence E y between s))"
    using publish_presence_caches assms(2) by blast
  then show "caches_ok (snd (seqA (publish_presence E y between) rest s))"
    using keepsD [OF assms(3)] by (auto simp: seqA_def andThen_def split: prod.splits sum.splits)
qed

lemma keeps_reset_backoffs:
  "keeps caches_ok (modify (\<lambda>s. s\<lparr>reconnect_backoff := f s\<rparr>))"
  "keeps caches_ok (modify (\<lambda>s. s\<lparr>upgrade_backoff := g s\<rparr>))"
  by (intro keeps_intros; simp add: cache_defs)+

lemma established_caches: "keeps caches_ok (connection_established E p cid kind addr)"
  unfolding connection_established_def
  by (intro keeps_case_option keeps_ret change_then_publish keeps_reset_backoffs caches.keeps_resume)
    (rule update_conns_but [OF _ recorded_conns(1)])

lemma upgraded_caches: "keeps caches_ok (connection_upgraded E p cid kind)"
proof -
  have "keeps caches_ok (modify (\<lambda>s. s\<lparr>dcutr_attempts := dcutr_attempts s + 1,
      dcutr_successes := dcutr_successes s + 1\<rparr>) :: (app, unit) action)"
    by (intro keeps_intros) (simp add: cache_defs)
  moreover have "keeps caches_ok (seqA (update_conns y (relabel_upgraded cid kind))
      (seqA (publish_presence E y (ret ())) (drain_queue_for_peer E y p False)))" for y
    by (intro change_then_publish keeps_ret caches.keeps_drain)
      (rule update_conns_but [OF _ recorded_conns(2)])
  ultimately show ?thesis
    unfolding connection_upgraded_def
    by (intro keeps_seqA [of _ "modify _"] keeps_case_option keeps_ret keeps_reset_backoffs)
qed

lemma upgrade_failed_caches: "keeps caches_ok (connection_upgrade_failed E p error)"
  unfolding connection_upgrade_failed_def
  by (intro keeps_intros) (auto simp: cache_defs length_ring_push dcutr_failure_ring_def)

lemma drop_connection_but:
  assumes "caches_ok s" "drop_connection y cid s = (r, t)"
  shows "(\<exists>gone. r = Inr gone) \<and> presence_but y t \<and> counters_ok t"
proof (cases "connections s y")
  case None
  then show ?thesis
    using assms by (auto simp: drop_connection_def caches_ok_def presence_ok_but)
next
  case (Some cs)
  then have "distinct (map fst (AList.delete cid cs))"
    using assms(1) by (auto simp: caches_ok_def presence_ok_def conns_ok_def distinct_delete)
  moreover have "t = s\<lparr>connections := (connections s)(y :=
      if AList.delete cid cs = [] then None else Some (AList.delete cid cs))\<rparr>" "\<exists>gone. r = Inr gone"
    using assms(2) Some by (auto simp: drop_connection_def Let_def)
  moreover have "presence_ok s" "counters_ok s"
    using assms(1) by (simp_all add: caches_ok_def)
  ultimately show ?thesis
    by (simp add: presence_but_def presence_ok_def presence_at_def best_of_def conns_ok_def counters_ok_def
        ring_ok_def dcutr_ok_def)
qed

lemma closed_caches: "keeps caches_ok (connection_closed E p cid)"
proof (rule keepsI)
  fix s assume s: "caches_ok s"
  show "caches_ok (snd (connection_closed E p cid s))"
  proof (cases "y7_id_from_peer_id E p")
    case (Some y)
    obtain r t where d: "drop_connection y cid s = (r, t)"
      by fastforce
    then obtain gone where r: "r = Inr gone" and t: "presence_but y t" "counters_ok t"
      using drop_connection_but [OF s d] by blast
    let ?rl = "if gone then rl_forget p (app_limiter t) else app_limiter t"
    let ?u = "t\<lparr>upgrade_backoff := (upgrade_backoff t)(y := None), app_limiter := ?rl\<rparr>"
    have "connection_closed E p cid s = publish_presence E y (ret ()) ?u"
      using d r by (simp add: connection_closed_def Some andThen_def seqA_def)
    moreover have "presence_but y ?u" "counters_ok ?u"
      using t by (simp_all add: cache_defs)
    ultimately show ?thesis
      using publish_presence_caches [of y ?u "ret ()" E] by (simp add: keeps_ret)
  qed (use s in \<open>simp add: connection_closed_def\<close>)
qed

lemma nat_step_ok: "nat_ok st \<Longrightarrow> nat_ok (nat_step reachable st)"
  by (cases "nat_verdict st") (auto simp: nat_ok_def nat_step_def sat_inc32_def Let_def)

lemma nat_status_caches: "keeps caches_ok (handle_nat_status E addr server reachable)"
  unfolding handle_nat_status_def
  by (intro keeps_intros caches.keeps_primitives; auto simp: cache_defs nat_step_ok)

lemma forget_peer_caches: "caches_ok s \<Longrightarrow> caches_ok (forget_peer y s)"
  by (simp add: caches_ok_def counters_ok_def dcutr_ok_def ring_ok_def presence_ok_def presence_at_def
      best_of_def conns_ok_def forget_peer_def delete_conv' distinct_delete)

section \<open>The verdict on reachability\<close>

text \<open>
  What the verdict means, on the history of the probes since the start, the latest one last:
  unknown before the first probe; public from a successful probe until three failures in a row;
  private otherwise.
\<close>

definition misses :: "bool list \<Rightarrow> nat" where
  "misses hist = length (takeWhile Not (rev hist))"

definition nat_spec :: "bool list \<Rightarrow> nat_reachability" where
  "nat_spec hist =
     (if hist = [] then NatUnknown
      else if True \<in> set hist \<and> misses hist < 3 then Public
      else Private)"

text \<open>The verdicts of a history that differ from the one before.\<close>

fun nat_changes :: "bool list \<Rightarrow> bool list \<Rightarrow> nat_reachability list" where
  "nat_changes hist [] = []"
| "nat_changes hist (r # rs) =
     (if nat_spec (hist @ [r]) = nat_spec hist then [] else [nat_spec (hist @ [r])]) @
     nat_changes (hist @ [r]) rs"

definition nat_tracks :: "bool list \<Rightarrow> nat_status_state \<Rightarrow> bool" where
  "nat_tracks hist st \<longleftrightarrow> nat_verdict st = nat_spec hist \<and> nat_failures st = min (misses hist) (2 ^ 32 - 1)"

lemma misses_snoc: "misses (hist @ [r]) = (if r then 0 else misses hist + 1)"
  by (simp add: misses_def)

lemma nat_step_tracks: "nat_tracks hist st \<Longrightarrow> nat_tracks (hist @ [r]) (nat_step r st)"
  by (auto simp: nat_tracks_def nat_spec_def nat_step_def misses_snoc sat_inc32_def Let_def
      split: if_splits)

lemma run_nat_status:
  "handle_nat_status E addr server r s =
     (let st = nat_step r (nat_status s); changed = nat_verdict st \<noteq> nat_verdict (nat_status s) in
      (Inr (), s\<lparr>nat_status := st, nat_probe_detail := Some (maddr_show E addr, peer_show E server),
         app_events := app_events s @ (if changed then [NatStatusChanged (nat_verdict st)] else []),
         upgrade_backoff := (if changed \<and> nat_verdict st = Public then Map.empty else upgrade_backoff s),
         wake_pending := (wake_pending s \<or> changed \<and> nat_verdict st = Public)\<rparr>))"
  by (simp add: handle_nat_status_def andThen_def seqA_def Let_def)

definition absorb_probes :: "ext \<Rightarrow> (maddr \<times> peer \<times> bool) list \<Rightarrow> (app, unit) action" where
  "absorb_probes E probes = forA probes (\<lambda>(addr, server, r). handle_nat_status E addr server r)"

text \<open>
  C38. Equivalence of the verdict with its specification: after any sequence of probes, however
  long, the state machine of \<open>handle_nat_status\<close> holds the verdict that the whole history
  determines (public from a success until three failures in a row), and the user interface was
  told of each change once, in order, and of nothing else.
\<close>

theorem nat_verdict_refines:
  assumes "nat_tracks hist (nat_status s)"
  shows "\<exists>t. absorb_probes E probes s = (Inr (), t) \<and>
    nat_verdict (nat_status t) = nat_spec (hist @ map (\<lambda>(_, _, r). r) probes) \<and>
    app_events t = app_events s @ map NatStatusChanged (nat_changes hist (map (\<lambda>(_, _, r). r) probes))"
  using assms
proof (induction probes arbitrary: s hist)
  case Nil
  then show ?case
    by (simp add: absorb_probes_def nat_tracks_def)
next
  case (Cons q probes)
  obtain addr server r where q: "q = (addr, server, r)"
    by (cases q) auto
  obtain u where u: "handle_nat_status E addr server r s = (Inr (), u)"
    by (simp add: run_nat_status Let_def)
  then have st: "nat_status u = nat_step r (nat_status s)"
    and ev: "app_events u = app_events s @ map NatStatusChanged
      (if nat_verdict (nat_status u) = nat_verdict (nat_status s) then [] else [nat_verdict (nat_status u)])"
    by (auto simp: run_nat_status Let_def)
  have track: "nat_tracks (hist @ [r]) (nat_status u)"
    unfolding st by (rule nat_step_tracks [OF Cons.prems])
  obtain t where "absorb_probes E probes u = (Inr (), t)"
    "nat_verdict (nat_status t) = nat_spec ((hist @ [r]) @ map (\<lambda>(_, _, r). r) probes)"
    "app_events t = app_events u @ map NatStatusChanged (nat_changes (hist @ [r]) (map (\<lambda>(_, _, r). r) probes))"
    using Cons.IH [OF track] by blast
  then show ?case
    using u ev track Cons.prems
    by (auto simp: q absorb_probes_def seqA_def andThen_def nat_tracks_def)
qed

theorem nat_verdict_refines_witness:
  "\<exists>t. absorb_probes sample_ext [([], [], False), ([], [], True), ([], [], False), ([], [], False), ([], [], False)]
      (alice_app sample_db) = (Inr (), t) \<and>
     app_events t = [NatStatusChanged Private, NatStatusChanged Public, NatStatusChanged Private]"
proof -
  have "nat_tracks [] (nat_status (alice_app sample_db))"
    by (simp add: nat_tracks_def alice_app_def nat_status_default_def nat_spec_def misses_def)
  moreover have "nat_changes [] [False, True, False, False, False] = [Private, Public, Private]"
    by code_simp
  ultimately show ?thesis
    using nat_verdict_refines [of "[]" "alice_app sample_db" sample_ext
        "[([], [], False), ([], [], True), ([], [], False), ([], [], False), ([], [], False)]"]
    by (auto simp: alice_app_def)
qed

section \<open>A connection that closes hides no other\<close>

lemma publish_keeps_connections:
  "keeps (\<lambda>t. connections t = c) between \<Longrightarrow> keeps (\<lambda>t. connections t = c) (publish_presence E y between)"
  unfolding publish_presence_def emit_presence_def record_transition_def refresh_presence_def
  by (auto intro!: keeps_intros simp: Let_def)

lemma best_conn_ge: "(i, e) \<in> set cs \<Longrightarrow> ce_kind e \<le> fst (best_conn cs)"
  by (rule best_conn_some [of cs]) auto

text \<open>
  C26. Closing one connection of a peer hides no other one: in a state whose caches are right,
  the peer stays present with a kind at least as good as that of every connection that is left,
  whatever kind the closed one had; and the invariant of the caches holds again.
\<close>

theorem close_keeps_survivors:
  assumes "caches_ok s" "y7_id_from_peer_id E p = Some y"
    and "connections s y = Some cs" "(other, e) \<in> set cs" "other \<noteq> cid" "ce_kind e \<noteq> Offline"
    and "connection_closed E p cid s = (r, t)"
  shows "caches_ok t \<and> (\<exists>k. map_of (presence t) y = Some k \<and> ce_kind e \<le> k)"
proof -
  let ?left = "AList.delete cid cs"
  have left: "(other, e) \<in> set ?left"
    using assms(4,5) by (auto simp: AList.delete_eq)
  then have "?left \<noteq> []"
    by auto
  let ?u = "s\<lparr>connections := (connections s)(y \<mapsto> ?left), upgrade_backoff := (upgrade_backoff s)(y := None)\<rparr>"
  have "connection_closed E p cid s = publish_presence E y (ret ()) ?u"
    using assms(2,3) \<open>?left \<noteq> []\<close>
    by (simp add: connection_closed_def drop_connection_def Let_def andThen_def seqA_def)
  then have "connections t = connections ?u"
    using assms(7) keepsD [OF publish_keeps_connections [of "connections ?u" "ret ()" E y]]
    by (metis keeps_ret snd_conv)
  then have conns: "connections t y = Some ?left"
    by simp
  have ok: "caches_ok t"
    using keepsD [OF closed_caches assms(1)] assms(7) by (metis snd_conv)
  then have "presence_at y t"
    by (simp add: caches_ok_def presence_ok_def)
  moreover have "ce_kind e \<le> fst (best_of y t)"
    using best_conn_ge [OF left] conns by (simp add: best_of_def)
  moreover have "fst (best_of y t) \<noteq> Offline"
    using \<open>ce_kind e \<le> fst (best_of y t)\<close> assms(6)
    by (cases "ce_kind e") (auto simp: less_eq_connection_kind_def)
  ultimately show ?thesis
    using ok by (auto simp: presence_at_def)
qed

text \<open>Two connections to the second party, a relayed and a direct one; the direct one closes.\<close>

definition path_entry :: "connection_kind \<Rightarrow> conn_entry" where
  "path_entry kind = \<lparr>ce_kind = kind, ce_meta = meta_default, ce_opened_at = 0\<rparr>"

definition two_paths :: app where
  "two_paths = (alice_app sample_db)\<lparr>
     connections := [bob_y7 \<mapsto> [(1, path_entry Relayed), (2, path_entry Direct)]],
     presence := [(bob_y7, Direct)], connection_meta_of := [bob_y7 \<mapsto> meta_default]\<rparr>"

lemma fresh_caches: "caches_ok (alice_app d)"
  by (simp add: cache_defs alice_app_def nat_ok_def nat_status_default_def)

lemma two_paths_ok: "caches_ok two_paths"
proof -
  have "best_conn [(1, path_entry Relayed), (2, path_entry Direct)] = (Direct, meta_default)"
    by code_simp
  then show ?thesis
    using fresh_caches [of sample_db] by (simp add: cache_defs two_paths_def alice_app_def)
qed

theorem close_keeps_survivors_witness:
  "\<exists>r t. connection_closed sample_ext bob_peer 2 two_paths = (r, t) \<and>
     (\<exists>k. map_of (presence t) bob_y7 = Some k \<and> Relayed \<le> k)"
proof -
  obtain r t where run: "connection_closed sample_ext bob_peer 2 two_paths = (r, t)"
    by fastforce
  have "y7_id_from_peer_id sample_ext bob_peer = Some bob_y7"
    by code_simp
  from close_keeps_survivors [OF two_paths_ok this _ _ _ _ run, of _ 1 "path_entry Relayed"] run show ?thesis
    by (simp add: two_paths_def path_entry_def)
qed

end
