(* ===== verification/Discovery.thy ===== *)
theory Discovery
  imports Frames Multiaddr Config
begin

text \<open>
  The discovery chain (\<open>dial_with_discovery\<close> in \<open>app/contacts.rs\<close>): the swarm's address book, the
  cached addresses of an earlier session, a lookup in the DHT, the address book again, and the
  circuits over the configured relays. Each step says whether it ended the chain.
\<close>

section \<open>The chain\<close>

definition effective_mode :: "ext \<Rightarrow> (app, dial_mode) action" where
  "effective_mode E =
     andThen (attempt (on_db (settings_get E))) (\<lambda>r.
       ret (case r of Inr st \<Rightarrow> dial_mode st | Inl _ \<Rightarrow> dial_mode_default))"

text \<open>The cached addresses of a peer as they were written, and when it was last seen.\<close>

definition cached_addrs :: "ext \<Rightarrow> y7id \<Rightarrow> (app, (string list \<times> int option) option) action" where
  "cached_addrs E y =
     andThen (attempt (on_db (peer_state_get E y))) (\<lambda>r.
       ret (case r of
              Inr (Some state) \<Rightarrow>
                (case ps_last_addrs_json state of
                   Some json \<Rightarrow>
                     (case unjson_strings E json of
                        Inr addrs \<Rightarrow> Some (addrs, ps_last_seen_at state)
                      | Inl _ \<Rightarrow> None)
                 | None \<Rightarrow> None)
            | _ \<Rightarrow> None))"

definition parse_addrs :: "ext \<Rightarrow> string list \<Rightarrow> maddr list" where
  "parse_addrs E addrs =
     concat (map (\<lambda>a. case maddr_parse E a of Inr m \<Rightarrow> [m] | Inl _ \<Rightarrow> []) addrs)"

definition peer_has_lan_addr :: "ext \<Rightarrow> y7id \<Rightarrow> (app, bool) action" where
  "peer_has_lan_addr E y =
     andThen (cached_addrs E y) (\<lambda>c.
       ret (case c of
              Some (addrs, _) \<Rightarrow> list_ex multiaddr_is_lan (parse_addrs E addrs)
            | None \<Rightarrow> False))"

definition swarm_step :: "y7id \<Rightarrow> (app, bool) action" where
  "swarm_step y = andThen (attempt (net_dial y)) (\<lambda>r. ret (r = Inr True))"

definition dial_address :: "maddr \<Rightarrow> (app, bool) action" where
  "dial_address m = andThen (attempt (net_command (WDialAddress m))) (\<lambda>r. ret (r = Inr ()))"

text \<open>Dial in order until one dial is accepted.\<close>

fun dial_first :: "maddr list \<Rightarrow> (app, bool) action" where
  "dial_first [] = ret False"
| "dial_first (m # ms) = andThen (dial_address m) (\<lambda>ok. if ok then ret True else dial_first ms)"

definition cached_step :: "ext \<Rightarrow> y7id \<Rightarrow> dial_mode \<Rightarrow> (app, bool) action" where
  "cached_step E y mode =
     andThen (cached_addrs E y) (\<lambda>c.
       case c of
         None \<Rightarrow> ret False
       | Some (addrs, last_seen) \<Rightarrow>
           andThen app_now_ms (\<lambda>now.
             let stale = circuit_cache_is_stale last_seen now;
                 kept = filter (\<lambda>a. \<not> (stale \<and> contains_text ''/p2p-circuit'' a)) addrs
             in dial_first (filter_addrs_for_mode (sort_addrs_for_dial (parse_addrs E kept)) mode)))"

definition kad_step :: "ext \<Rightarrow> y7id \<Rightarrow> dial_mode \<Rightarrow> (app, bool) action" where
  "kad_step E y mode =
     andThen (attempt (find_peer y)) (\<lambda>r.
       case r of
         Inr addrs \<Rightarrow> dial_first (filter_addrs_for_mode (sort_addrs_for_dial addrs) mode)
       | Inl _ \<Rightarrow> ret False)"

definition circuit_via :: "maddr \<Rightarrow> peer \<Rightarrow> maddr" where
  "circuit_via relay target = relay @ [P2pCircuit, P2p target]"

definition relay_step :: "ext \<Rightarrow> y7id \<Rightarrow> (app, unit) action" where
  "relay_step E y =
     (case peer_id_from_y7 E y of
        Inl _ \<Rightarrow> ret ()
      | Inr target \<Rightarrow>
          andThen (on_db (load_bootstraps E)) (\<lambda>relays.
            forA relays (\<lambda>relay. ignore (dial_address (circuit_via relay target)))))"

text \<open>Go on with the chain unless the step ended it.\<close>

definition unless_done :: "(app, bool) action \<Rightarrow> (app, unit) action \<Rightarrow> (app, unit) action" where
  "unless_done step rest = andThen step (\<lambda>finished. if finished then ret () else rest)"

definition dial_with_discovery :: "ext \<Rightarrow> y7id \<Rightarrow> (app, unit) action" where
  "dial_with_discovery E y =
     andThen (effective_mode E) (\<lambda>mode.
     andThen (if mode = LanOnly then peer_has_lan_addr E y else ret True) (\<lambda>swarm_dial_ok.
       unless_done (if swarm_dial_ok then swarm_step y else ret False)
         (unless_done (cached_step E y mode)
            (if mode = LanOnly then ret ()
             else
               unless_done (kad_step E y mode)
                 (unless_done (swarm_step y) (relay_step E y))))))"

section \<open>What the steps do\<close>

text \<open>Every step returns; what it changes is the wire.\<close>

definition dials_only :: "(wire \<Rightarrow> bool) \<Rightarrow> (app, 'a) action \<Rightarrow> bool" where
  "dials_only ok m \<longleftrightarrow>
     (\<forall>s. \<exists>x w. m s = (Inr x, s\<lparr>app_wire := app_wire s @ w\<rparr>) \<and> list_all ok w)"

lemma dials_onlyE:
  assumes "dials_only ok m"
  obtains x w where "m s = (Inr x, s\<lparr>app_wire := app_wire s @ w\<rparr>)" "list_all ok w"
  using assms unfolding dials_only_def by blast

lemma dials_only_read:
  assumes "\<And>s. \<exists>x. m s = (Inr x, s)"
  shows "dials_only ok m"
  unfolding dials_only_def
proof
  fix s
  obtain x where "m s = (Inr x, s)"
    using assms by blast
  then show "\<exists>x w. m s = (Inr x, s\<lparr>app_wire := app_wire s @ w\<rparr>) \<and> list_all ok w"
    by (intro exI [of _ x] exI [of _ "[]"]) simp
qed

lemma dials_only_ret: "dials_only ok (ret x)"
  by (rule dials_only_read) simp

lemma dials_only_andThen:
  assumes "dials_only ok m" "\<And>x. dials_only ok (f x)"
  shows "dials_only ok (andThen m f)"
  unfolding dials_only_def
proof
  fix s
  obtain x w where m: "m s = (Inr x, s\<lparr>app_wire := app_wire s @ w\<rparr>)" "list_all ok w"
    by (rule dials_onlyE [OF assms(1)])
  obtain y v where f: "f x (s\<lparr>app_wire := app_wire s @ w\<rparr>) =
      (Inr y, s\<lparr>app_wire := app_wire s @ w @ v\<rparr>)" "list_all ok v"
    by (rule dials_onlyE [OF assms(2), of x "s\<lparr>app_wire := app_wire s @ w\<rparr>"]) simp
  with m show "\<exists>x w. andThen m f s = (Inr x, s\<lparr>app_wire := app_wire s @ w\<rparr>) \<and> list_all ok w"
    by (intro exI [of _ y] exI [of _ "w @ v"]) (simp add: andThen_def)
qed

lemma dials_only_unless: "dials_only ok m \<Longrightarrow> dials_only ok k \<Longrightarrow> dials_only ok (unless_done m k)"
  unfolding unless_done_def by (intro dials_only_andThen) (simp_all add: dials_only_ret)

lemma dials_only_call: "ok w \<Longrightarrow> dials_only ok (attempt (net_call w f))"
  by (simp add: dials_only_def attempt_def net_call_def) (metis list.pred_inject)

lemma dials_only_dial_address: "ok (WDialAddress m) \<Longrightarrow> dials_only ok (dial_address m)"
  unfolding dial_address_def net_command_def
  by (intro dials_only_andThen dials_only_call) (simp_all add: dials_only_ret)

lemma dials_only_dial_first:
  "(\<And>m. m \<in> set ms \<Longrightarrow> ok (WDialAddress m)) \<Longrightarrow> dials_only ok (dial_first ms)"
proof (induction ms)
  case (Cons m ms)
  then have "dials_only ok (dial_address m)" "dials_only ok (dial_first ms)"
    by (simp_all add: dials_only_dial_address)
  then show ?case
    by (auto intro!: dials_only_andThen simp: dials_only_ret)
qed (simp add: dials_only_ret)

lemma dials_only_cached_addrs: "dials_only ok (cached_addrs E y)"
  by (rule dials_only_read) (simp add: cached_addrs_def andThen_def attempt_read)

lemma dials_only_read_of: "(\<And>s. snd (m s) = s) \<Longrightarrow> dials_only ok (attempt m)"
  by (rule dials_only_read) (simp add: attempt_read)

lemma dials_only_swarm_step: "ok (WDial y) \<Longrightarrow> dials_only ok (swarm_step y)"
  unfolding swarm_step_def net_dial_def
  by (intro dials_only_andThen dials_only_call) (simp_all add: dials_only_ret)

lemma dials_only_has_lan: "dials_only ok (peer_has_lan_addr E y)"
  unfolding peer_has_lan_addr_def
  by (intro dials_only_andThen dials_only_cached_addrs) (simp add: dials_only_ret)

lemma dials_only_cached_step:
  assumes "\<And>m. mode = LanOnly \<longrightarrow> multiaddr_is_lan m \<Longrightarrow> ok (WDialAddress m)"
  shows "dials_only ok (cached_step E y mode)"
proof -
  have "dials_only ok (dial_first (filter_addrs_for_mode ms mode))" for ms
    using assms by (intro dials_only_dial_first) (auto simp: filter_addrs_for_mode_def split: dial_mode.splits)
  moreover have "dials_only ok app_now_ms"
    by (rule dials_only_read) simp
  ultimately show ?thesis
    unfolding cached_step_def Let_def
    by (intro dials_only_andThen dials_only_cached_addrs)
      (auto split: option.splits intro!: dials_only_andThen simp: dials_only_ret)
qed

lemma run_effective_mode:
  "effective_mode E s =
     (Inr (case fst (settings_get E (app_db s)) of Inr st \<Rightarrow> dial_mode st | Inl _ \<Rightarrow> dial_mode_default), s)"
  by (simp add: effective_mode_def andThen_def attempt_read)

section \<open>The cached addresses\<close>

text \<open>What the database caches for a peer, and the addresses of it that are dialled, in dial order.\<close>

definition cache_of :: "ext \<Rightarrow> y7id \<Rightarrow> db \<Rightarrow> (string list \<times> int option) option" where
  "cache_of E y d =
     (case fst (peer_state_get E y d) of
        Inr (Some state) \<Rightarrow>
          (case ps_last_addrs_json state of
             Some json \<Rightarrow>
               (case unjson_strings E json of Inr addrs \<Rightarrow> Some (addrs, ps_last_seen_at state) | Inl _ \<Rightarrow> None)
           | None \<Rightarrow> None)
      | _ \<Rightarrow> None)"

definition cached_dials :: "ext \<Rightarrow> y7id \<Rightarrow> db \<Rightarrow> maddr list" where
  "cached_dials E y d =
     (case cache_of E y d of
        None \<Rightarrow> []
      | Some (addrs, last_seen) \<Rightarrow>
          sort_addrs_for_dial (parse_addrs E (filter (\<lambda>a.
            \<not> (circuit_cache_is_stale last_seen (os_now (db_os d)) \<and> contains_text ''/p2p-circuit'' a)) addrs)))"

definition lan_cached :: "ext \<Rightarrow> y7id \<Rightarrow> db \<Rightarrow> bool" where
  "lan_cached E y d \<longleftrightarrow>
     (case cache_of E y d of Some (addrs, _) \<Rightarrow> list_ex multiaddr_is_lan (parse_addrs E addrs) | None \<Rightarrow> False)"

lemma run_cached_addrs: "cached_addrs E y s = (Inr (cache_of E y (app_db s)), s)"
  by (simp add: cached_addrs_def cache_of_def andThen_def attempt_read)

lemma run_has_lan: "peer_has_lan_addr E y s = (Inr (lan_cached E y (app_db s)), s)"
  by (simp add: peer_has_lan_addr_def lan_cached_def andThen_def run_cached_addrs)

lemma run_cached_step:
  "cached_step E y mode s = dial_first (filter_addrs_for_mode (cached_dials E y (app_db s)) mode) s"
  by (auto simp: cached_step_def cached_dials_def andThen_def run_cached_addrs Let_def filter_addrs_for_mode_def
      sort_addrs_for_dial_def split: option.splits dial_mode.splits)

lemma set_sort_addrs [simp]: "set (sort_addrs_for_dial ms) = set ms"
  by (simp add: sort_addrs_for_dial_def)

lemma set_parse_addrs: "m \<in> set (parse_addrs E addrs) \<longleftrightarrow> (\<exists>a \<in> set addrs. maddr_parse E a = Inr m)"
  by (force simp: parse_addrs_def split: sum.splits)

text \<open>Of the cached addresses only circuits are left out, and only when they are stale.\<close>

lemma cached_dials_complete:
  assumes "cache_of E y d = Some (addrs, seen)" "a \<in> set addrs" "maddr_parse E a = Inr m"
    and "\<not> contains_text ''/p2p-circuit'' a \<or> \<not> circuit_cache_is_stale seen (os_now (db_os d))"
  shows "m \<in> set (cached_dials E y d)"
  using assms by (auto simp: cached_dials_def set_parse_addrs)

lemma lan_cachedI:
  assumes "m \<in> set (cached_dials E y d)" "multiaddr_is_lan m"
  shows "lan_cached E y d"
proof (cases "cache_of E y d")
  case None
  with assms show ?thesis
    by (simp add: cached_dials_def)
next
  case (Some c)
  obtain addrs seen where "c = (addrs, seen)"
    by fastforce
  with Some assms have "m \<in> set (parse_addrs E addrs)"
    by (auto simp: cached_dials_def set_parse_addrs)
  with Some \<open>c = (addrs, seen)\<close> assms(2) show ?thesis
    by (auto simp: lan_cached_def list_ex_iff)
qed

section \<open>Dialling\<close>

text \<open>No dial is accepted.\<close>

definition refusing :: "net_env \<Rightarrow> y7id \<Rightarrow> bool" where
  "refusing n y \<longleftrightarrow> (\<forall>h. ne_dial n h y \<noteq> Inr True) \<and> (\<forall>h m. ne_command n h (WDialAddress m) \<noteq> None)"

lemma run_dial_address:
  "dial_address m s = (Inr (ne_command (app_net s) (app_wire s) (WDialAddress m) = None),
     s\<lparr>app_wire := app_wire s @ [WDialAddress m]\<rparr>)"
  by (simp add: dial_address_def andThen_def attempt_def run_net_command split: option.splits)

lemma run_swarm_step:
  "swarm_step y s = (Inr (ne_dial (app_net s) (app_wire s) y = Inr True), s\<lparr>app_wire := app_wire s @ [WDial y]\<rparr>)"
  by (simp add: swarm_step_def net_dial_def net_call_def andThen_def attempt_def)

text \<open>Addresses are dialled in order, and all of them while none is accepted.\<close>

lemma dial_first_prefix:
  "\<exists>n ok. dial_first ms s = (Inr ok, s\<lparr>app_wire := app_wire s @ map WDialAddress (take n ms)\<rparr>) \<and>
     (\<not> ok \<longrightarrow> n = length ms) \<and> (refusing (app_net s) y \<longrightarrow> \<not> ok)"
proof (induction ms arbitrary: s)
  case (Cons m ms)
  let ?s = "s\<lparr>app_wire := app_wire s @ [WDialAddress m]\<rparr>"
  show ?case
  proof (cases "ne_command (app_net s) (app_wire s) (WDialAddress m)")
    case None
    then show ?thesis
      by (intro exI [of _ 1] exI [of _ True]) (auto simp: andThen_def run_dial_address refusing_def)
  next
    case (Some e)
    obtain n ok where "dial_first ms ?s = (Inr ok, ?s\<lparr>app_wire := app_wire ?s @ map WDialAddress (take n ms)\<rparr>)"
      "\<not> ok \<longrightarrow> n = length ms" "refusing (app_net ?s) y \<longrightarrow> \<not> ok"
      using Cons.IH [of ?s] by blast
    with Some show ?thesis
      by (intro exI [of _ "Suc n"] exI [of _ ok]) (simp add: andThen_def run_dial_address)
  qed
qed auto

lemma dial_first_refused:
  assumes "refusing (app_net s) y"
  shows "dial_first ms s = (Inr False, s\<lparr>app_wire := app_wire s @ map WDialAddress ms\<rparr>)"
  using dial_first_prefix [of ms s y] assms by auto

section \<open>LAN-only mode\<close>


section \<open>Internet mode: no path is left out\<close>

lemma run_circuits:
  "forA relays (\<lambda>relay. ignore (dial_address (circuit_via relay target))) s =
     (Inr (), s\<lparr>app_wire := app_wire s @ map (\<lambda>r. WDialAddress (circuit_via r target)) relays\<rparr>)"
  by (induction relays arbitrary: s) (simp_all add: seqA_def andThen_def ignore_def run_dial_address)

lemma run_relay_step:
  assumes "peer_id_from_y7 E y = Inr target" "fst (load_bootstraps E (app_db s)) = Inr relays"
  shows "relay_step E y s =
    (Inr (), s\<lparr>app_wire := app_wire s @ map (\<lambda>r. WDialAddress (circuit_via r target)) relays\<rparr>)"
  using assms by (simp add: relay_step_def andThen_read snd_on_db_read run_circuits)

text \<open>The addresses that a lookup in the DHT finds, in dial order.\<close>

definition found_dials :: "net_env \<Rightarrow> wire list \<Rightarrow> y7id \<Rightarrow> maddr list" where
  "found_dials n h y = (case ne_find n h y of Inr addrs \<Rightarrow> sort_addrs_for_dial addrs | Inl _ \<Rightarrow> [])"

lemma kad_step_refused:
  assumes "refusing (app_net s) y"
  shows "kad_step E y InternetMode s = (Inr False,
    s\<lparr>app_wire := app_wire s @ WFindPeer y # map WDialAddress (found_dials (app_net s) (app_wire s) y)\<rparr>)"
proof -
  let ?s = "s\<lparr>app_wire := app_wire s @ [WFindPeer y]\<rparr>"
  have "attempt (find_peer y) s = (Inr (ne_find (app_net s) (app_wire s) y), ?s)"
    by (simp add: find_peer_def net_call_def attempt_def)
  then show ?thesis
    using dial_first_refused [of ?s y] assms
    by (simp add: kad_step_def andThen_def found_dials_def filter_addrs_for_mode_def split: sum.splits)
qed

text \<open>
  C22. Internet mode leaves no path out, and relays come last: while no dial is accepted, a
  discovery asks for the peer in the address book, dials its cached addresses, looks it up in the DHT, dials
  the addresses that were found, asks for the address book once more, dials the peer over the
  circuit of every bootstrap that is configured, and returns; this is all it does, in this
  order. Every cached address that can be read is among the dialled ones, unless it is a stale circuit.
\<close>

theorem discovery_exhausts_paths:
  assumes "refusing (app_net s) y"
    and "fst (settings_get E (app_db s)) = Inr st" "dial_mode st = InternetMode"
    and "peer_id_from_y7 E y = Inr target" "fst (load_bootstraps E (app_db s)) = Inr relays"
    and "h = app_wire s @ WDial y # map WDialAddress (cached_dials E y (app_db s))"
  shows "dial_with_discovery E y s = (Inr (), s\<lparr>app_wire := h @
      WFindPeer y # map WDialAddress (found_dials (app_net s) h y) @
      WDial y # map (\<lambda>r. WDialAddress (circuit_via r target)) relays\<rparr>) \<and>
    (\<forall>addrs seen a m. cache_of E y (app_db s) = Some (addrs, seen) \<and> a \<in> set addrs \<and> maddr_parse E a = Inr m \<and>
       (\<not> contains_text ''/p2p-circuit'' a \<or> \<not> circuit_cache_is_stale seen (os_now (db_os (app_db s)))) \<longrightarrow>
       m \<in> set (cached_dials E y (app_db s)))"
proof (rule conjI)
  let ?chain = "unless_done (swarm_step y) (unless_done (cached_step E y InternetMode)
      (unless_done (kad_step E y InternetMode) (unless_done (swarm_step y) (relay_step E y))))"
  have no: "ne_dial (app_net s) w y \<noteq> Inr True" for w
    using assms(1) by (simp add: refusing_def)
  have "dial_with_discovery E y s = ?chain s"
    using assms(2,3) by (simp add: dial_with_discovery_def andThen_def [of "effective_mode E"]
        andThen_def [of "ret True"] run_effective_mode)
  then show "dial_with_discovery E y s = (Inr (), s\<lparr>app_wire := h @
      WFindPeer y # map WDialAddress (found_dials (app_net s) h y) @
      WDial y # map (\<lambda>r. WDialAddress (circuit_via r target)) relays\<rparr>)"
    using assms no
    by (simp add: unless_done_def andThen_def run_swarm_step run_cached_step filter_addrs_for_mode_def
        dial_first_refused kad_step_refused run_relay_step)
qed (use cached_dials_complete in blast)

section \<open>Concrete discoveries\<close>

text \<open>
  The second party was seen before, on the local network and at a public address; no dial of it
  is accepted now.
\<close>

definition seen_before :: "dial_mode \<Rightarrow> app" where
  "seen_before mode = (alice_app (sample_db\<lparr>db_tables := empty_tables
     \<lparr>t_settings := Some (toy_json_settings \<lparr>dial_mode = mode, extra_bootstraps = []\<rparr>),
      t_peer_state := [\<lparr>pr_peer = to_uri sample_ext bob_y7, pr_addrs_json = Some (toy_json_strings
          [''/ip4/8.8.8.8/tcp/1'', ''/ip4/10.0.0.2/tcp/1'']),
        pr_last_seen_at = Some 1, pr_highest_seen = None, pr_highest_sent = None\<rparr>]\<rparr>\<rparr>))
     \<lparr>app_net := sample_net\<lparr>ne_dial := (\<lambda>_ _. Inr False), ne_command := (\<lambda>_ _. Some NotFound)\<rparr>\<rparr>"

abbreviation lan_addr :: maddr where
  "lan_addr \<equiv> [Ip4 10 0 0 2, Tcp 1]"

abbreviation public_addr_of_bob :: maddr where
  "public_addr_of_bob \<equiv> [Ip4 8 8 8 8, Tcp 1]"

lemma seen_before_settings:
  "fst (settings_get sample_ext (app_db (seen_before LanOnly))) = Inr \<lparr>dial_mode = LanOnly, extra_bootstraps = []\<rparr>"
  "fst (settings_get sample_ext (app_db (seen_before InternetMode))) = Inr \<lparr>dial_mode = InternetMode, extra_bootstraps = []\<rparr>"
  by code_simp+

lemma seen_before_cache:
  "cache_of sample_ext bob_y7 (app_db (seen_before mode)) =
     Some ([''/ip4/8.8.8.8/tcp/1'', ''/ip4/10.0.0.2/tcp/1''], Some 1)"
proof -
  have "parse sample_ext (to_uri sample_ext bob_y7) = Inr bob_y7"
    by (rule parse_to_uri [OF sample_b58]) code_simp
  moreover have "unjson_strings sample_ext (toy_json_strings as) = Inr as" for as
    using sample_json by (simp add: json_law_def sample_ext_def)
  ultimately show ?thesis
    by (simp add: cache_of_def peer_state_get_def query_def stmt_def andThen_def seen_before_def alice_app_def
        sample_db_def transposeR_def peer_state_decode_def bindR_def opt_msg_id_def)
qed

lemma seen_before_addrs:
  "parse_addrs sample_ext [''/ip4/8.8.8.8/tcp/1'', ''/ip4/10.0.0.2/tcp/1''] = [public_addr_of_bob, lan_addr]"
  "sort_addrs_for_dial [public_addr_of_bob, lan_addr] = [public_addr_of_bob, lan_addr]"
  "filter multiaddr_is_lan [public_addr_of_bob, lan_addr] = [lan_addr]"
  "multiaddr_is_lan lan_addr" "\<not> contains_text ''/p2p-circuit'' ''/ip4/8.8.8.8/tcp/1''"
  "\<not> contains_text ''/p2p-circuit'' ''/ip4/10.0.0.2/tcp/1''"
  by code_simp+

lemma seen_before_cached:
  "cached_dials sample_ext bob_y7 (app_db (seen_before mode)) = [public_addr_of_bob, lan_addr]"
  "lan_cached sample_ext bob_y7 (app_db (seen_before mode))"
  using seen_before_addrs(1,2,4-6)
  by (simp_all add: cached_dials_def lan_cached_def seen_before_cache del: multiaddr_is_lan.simps)

lemma seen_before_refusing: "refusing (app_net (seen_before mode)) bob_y7" "app_wire (seen_before mode) = []"
  by (simp_all add: refusing_def seen_before_def alice_app_def)


lemma load_bootstraps_total: "\<exists>rs. fst (load_bootstraps E d) = Inr rs"
  by (simp add: load_bootstraps_def load_user_sources_def attempt_def andThen_def Let_def
      split: prod.splits sum.splits)

theorem discovery_exhausts_paths_witness:
  "\<exists>relays. fst (load_bootstraps sample_ext (app_db (seen_before InternetMode))) = Inr relays \<and>
     app_wire (snd (dial_with_discovery sample_ext bob_y7 (seen_before InternetMode))) =
       [WDial bob_y7, WDialAddress public_addr_of_bob, WDialAddress lan_addr, WFindPeer bob_y7, WDial bob_y7] @
       map (\<lambda>r. WDialAddress (circuit_via r bob_peer)) relays"
proof -
  obtain relays where relays: "fst (load_bootstraps sample_ext (app_db (seen_before InternetMode))) = Inr relays"
    using load_bootstraps_total by blast
  have "peer_id_from_y7 sample_ext bob_y7 = Inr bob_peer"
    by code_simp
  moreover have "found_dials (app_net (seen_before InternetMode)) h bob_y7 = []" for h
    by (simp add: found_dials_def seen_before_def sample_net_def sort_addrs_for_dial_def)
  ultimately show ?thesis
    using discovery_exhausts_paths [OF seen_before_refusing(1) seen_before_settings(2) _ _ relays refl,
        THEN conjunct1] relays seen_before_refusing(2)
    by (simp add: seen_before_cached(1))
qed

text \<open>
  The mode falls open: when the stored settings cannot be read, the chain runs in the default
  mode, which is the internet mode, whatever the user chose.
\<close>

lemma mode_falls_open:
  "db_fault (app_db s) ''settings.get'' = Some e \<Longrightarrow> effective_mode E s = (Inr InternetMode, s)"
  by (simp add: run_effective_mode settings_get_def query_def stmt_def andThen_def dial_mode_default_def)

end
