(* ===== verification/Contact_Commands.thy ===== *)
theory Contact_Commands
  imports Inbound Discovery
begin

text \<open>
  The commands on contacts and requests (\<open>app/contacts.rs\<close>): asking a peer for contact, answering
  or cancelling a request, deleting a contact, and the views the user interface reads.
\<close>

section \<open>Views\<close>

record contact_view =
  cvw_y7_id :: string
  cvw_nickname :: "string option"
  cvw_status :: contact_status
  cvw_added_at :: int
  cvw_presence :: connection_kind
  cvw_transport :: "transport option"
  cvw_ip_version :: "ip_version option"
  cvw_origin :: connection_origin

record request_view =
  rvw_id :: int
  rvw_direction :: string
  rvw_peer_y7_id :: string
  rvw_initial_text :: "string option"
  rvw_created_at :: int

definition list_contacts :: "ext \<Rightarrow> (app, contact_view list) action" where
  "list_contacts E =
     andThen (on_db (contacts_list E)) (\<lambda>rows. andThen (asks presence) (\<lambda>presence_map.
     andThen (asks connection_meta_of) (\<lambda>meta.
       ret (map (\<lambda>c.
         \<lparr>cvw_y7_id = to_uri E (contact_id c), cvw_nickname = contact_nickname c,
          cvw_status = contact_state c, cvw_added_at = contact_added_at c,
          cvw_presence = (case map_of presence_map (contact_id c) of Some k \<Rightarrow> k | None \<Rightarrow> Offline),
          cvw_transport = (case meta (contact_id c) of Some m \<Rightarrow> cm_transport m | None \<Rightarrow> None),
          cvw_ip_version = (case meta (contact_id c) of Some m \<Rightarrow> cm_ip_version m | None \<Rightarrow> None),
          cvw_origin = (case meta (contact_id c) of Some m \<Rightarrow> cm_origin m | None \<Rightarrow> OriginUnknown)\<rparr>)
         rows))))"

definition list_pending_requests :: "ext \<Rightarrow> (app, request_view list) action" where
  "list_pending_requests E =
     andThen (on_db (requests_list_pending E None)) (\<lambda>rows.
       ret (map (\<lambda>r.
         \<lparr>rvw_id = req_id r, rvw_direction = direction_as_str (req_direction r),
          rvw_peer_y7_id = to_uri E (req_peer r), rvw_initial_text = req_text r,
          rvw_created_at = req_created_at r\<rparr>) rows))"

section \<open>Asking for contact\<close>

text \<open>A contact that is not there is inserted as one whose acceptance is awaited.\<close>

definition ensure_contact_out :: "ext \<Rightarrow> y7id \<Rightarrow> (app, unit) action" where
  "ensure_contact_out E y =
     andThen (on_db (contacts_get E y)) (\<lambda>contact.
       if contact \<noteq> None then ret ()
       else discard (on_db (contacts_insert E
              \<lparr>nc_id = y, nc_pub = pubkey y, nc_nickname = None, nc_status = PendingOut\<rparr>)))"

definition initiate_handshake :: "ext \<Rightarrow> y7id \<Rightarrow> peer \<Rightarrow> string option \<Rightarrow> (app, unit) action" where
  "initiate_handshake E y p greeting =
     andThen (asks app_me) (\<lambda>me. andThen (asks my_pubkey) (\<lambda>pk.
     andThen (app_os (open_initiator E me pk (pubkey y) greeting)) (\<lambda>(req, eph).
     andThen (send_handshake p req) (\<lambda>resp.
     andThen (lift_res (finalize_initiator E eph pk (pubkey y) resp)) (\<lambda>_.
       on_db (sessions_upsert E y))))))"

definition send_contact_request :: "ext \<Rightarrow> y7id \<Rightarrow> string option \<Rightarrow> (app, unit) action" where
  "send_contact_request E y greeting =
     andThen (asks my_y7_id) (\<lambda>me.
       if y = me then throw (InvalidInput ''cannot add yourself as a contact'')
       else
         andThen (lift_res (peer_id_from_y7 E y)) (\<lambda>p.
         andThen (on_db (sessions_get E y)) (\<lambda>session.
           if session \<noteq> None then ensure_contact_out E y
           else
             andThen (on_db (requests_list_pending E (Some Outgoing))) (\<lambda>outgoing.
             seqA
               (if \<exists>r \<in> set outgoing. req_peer r = y then ret ()
                else discard (on_db (requests_insert E
                       \<lparr>nr_direction = Outgoing, nr_peer = y, nr_text = greeting\<rparr>)))
               (seqA (ensure_contact_out E y)
                  (seqA (dial_with_discovery E y) (initiate_handshake E y p greeting)))))))"

section \<open>Control payloads\<close>

text \<open>The session is looked up and the payload sealed; every failure ends it silently.\<close>

definition has_session :: "ext \<Rightarrow> y7id \<Rightarrow> (app, bool) action" where
  "has_session E y =
     andThen (attempt (on_db (sessions_get E y))) (\<lambda>r.
       ret (case r of Inr (Some _) \<Rightarrow> True | _ \<Rightarrow> False))"

definition seal_for :: "ext \<Rightarrow> y7id \<Rightarrow> control_payload \<Rightarrow> (app, message_envelope option) action" where
  "seal_for E y payload =
     andThen (asks app_me) (\<lambda>me. andThen (asks my_pubkey) (\<lambda>pk. andThen (asks my_y7_id) (\<lambda>my_id.
       case derive_conv_key E me (pubkey y) (conv_bytes (conversation_between E my_id y)) of
         Inl _ \<Rightarrow> ret None
       | Inr conv_key \<Rightarrow>
           andThen (attempt (app_os (seal_control E me pk conv_key payload))) (\<lambda>sealed.
             ret (case sealed of Inr (_, envelope, _) \<Rightarrow> Some envelope | Inl _ \<Rightarrow> None)))))"

definition send_control :: "ext \<Rightarrow> y7id \<Rightarrow> control_payload \<Rightarrow> (app, unit) action" where
  "send_control E y payload =
     andThen (has_session E y) (\<lambda>established.
       if \<not> established then ret ()
       else
         andThen (seal_for E y payload) (\<lambda>sealed.
           case (sealed, peer_id_from_y7 E y) of
             (Some envelope, Inr p) \<Rightarrow> ignore (with_timeout (send_msg p envelope))
           | _ \<Rightarrow> ret ()))"

section \<open>Answering requests\<close>

definition find_request :: "ext \<Rightarrow> int \<Rightarrow> (app, request) action" where
  "find_request E i =
     andThen (on_db (requests_list_pending E None)) (\<lambda>pending.
       case List.find (\<lambda>r. req_id r = i) pending of
         Some r \<Rightarrow> ret r
       | None \<Rightarrow> throw NotFound)"

definition accept_request :: "ext \<Rightarrow> int \<Rightarrow> (app, unit) action" where
  "accept_request E i =
     andThen (find_request E i) (\<lambda>pending.
       let peer = req_peer pending in
       seqA (on_db (requests_resolve i ResAccepted))
         (seqA (on_db (contacts_update_status E peer Accepted))
            (seqA (send_control E peer AcceptedRequest)
               (seqA (emit (RequestResolved (to_uri E peer) ResAccepted))
                  (emit (ContactAdded (to_uri E peer)))))))"

definition reject_request :: "ext \<Rightarrow> int \<Rightarrow> (app, unit) action" where
  "reject_request E i =
     andThen (find_request E i) (\<lambda>pending.
       let peer = req_peer pending in
       seqA (on_db (requests_resolve i ResRejected))
         (seqA (on_db (contacts_update_status E peer Blocked))
            (seqA (send_control E peer RejectedRequest)
               (emit (RequestResolved (to_uri E peer) ResRejected)))))"

definition cancel_request :: "ext \<Rightarrow> int \<Rightarrow> (app, unit) action" where
  "cancel_request E i =
     andThen (find_request E i) (\<lambda>pending.
       if req_direction pending \<noteq> Outgoing then
         throw (InvalidInput ''only outgoing requests can be cancelled'')
       else
         seqA (on_db (requests_resolve i ResCancelled))
           (seqA (on_db (contacts_update_status E (req_peer pending) Removed))
              (emit (RequestResolved (to_uri E (req_peer pending)) ResCancelled))))"

section \<open>Deleting a contact\<close>

definition enqueue_chat_deleted :: "ext \<Rightarrow> y7id \<Rightarrow> (app, unit) action" where
  "enqueue_chat_deleted E y =
     andThen (has_session E y) (\<lambda>established.
       if \<not> established then ret ()
       else
         andThen (seal_for E y ChatDeleted) (\<lambda>sealed.
           case sealed of
             None \<Rightarrow> ret ()
           | Some envelope \<Rightarrow>
               (case json_envelope E envelope of
                  Inl _ \<Rightarrow> ret ()
                | Inr bytes \<Rightarrow>
                    andThen app_now_ms (\<lambda>now. ignore (on_db (deletes_enqueue E y bytes now))))))"

definition delete_contact :: "ext \<Rightarrow> y7id \<Rightarrow> (app, unit) action" where
  "delete_contact E y =
     seqA (enqueue_chat_deleted E y)
       (seqA (wipe_conversation E y)
          (seqA (emit (ContactRemoved (to_uri E y)))
             (case peer_id_from_y7 E y of
                Inl _ \<Rightarrow> ret ()
              | Inr p \<Rightarrow> spawn (FlushAndDisconnect y p))))"

text \<open>The spawned task: deliver the deletion if the peer is there, then drop the socket.\<close>

definition run_flush_and_disconnect :: "ext \<Rightarrow> y7id \<Rightarrow> peer \<Rightarrow> (app, unit) action" where
  "run_flush_and_disconnect E y p =
     seqA (ignore (flush_pending_delete E y p)) (ignore (net_command (WDisconnect y)))"

section \<open>What a decision on a request does\<close>

definition requests_of :: "app \<Rightarrow> request_row list" where
  "requests_of s = t_requests (db_tables (app_db s))"

text \<open>
  The request with this id was pending; it is resolved, and the status of its peer, and of no
  other contact, is what the decision says.
\<close>

definition decided ::
  "ext \<Rightarrow> int \<Rightarrow> request_resolution \<Rightarrow> contact_status \<Rightarrow> request_row \<Rightarrow> app \<Rightarrow> app \<Rightarrow> bool" where
  "decided E i res st r s s' \<longleftrightarrow>
     r \<in> set (requests_of s) \<and> rr_id r = i \<and> rr_resolved_at r = None \<and>
     requests_of s' =
       update_where (\<lambda>r. rr_id r = i \<and> rr_resolved_at r = None)
         (\<lambda>r. r\<lparr>rr_resolved_at := Some (os_now (db_os (app_db s))),
                rr_resolution := Some (resolution_as_str res)\<rparr>) (requests_of s) \<and>
     (\<exists>y. rr_peer r = to_uri E y \<and> status_in E s' y = Some st \<and>
        (\<forall>z. to_uri E z \<noteq> to_uri E y \<longrightarrow> status_in E s' z = status_in E s z))"

lemma keeps_send_control:
  assumes "\<And>s os. P s \<Longrightarrow> P (s\<lparr>app_db := (app_db s)\<lparr>db_os := os\<rparr>\<rparr>)"
    and "\<And>s w. P s \<Longrightarrow> P (s\<lparr>app_wire := w\<rparr>)"
  shows "keeps P (send_control E y payload)"
proof -
  have "keeps P (attempt (on_db (sessions_get E y)))"
    by (intro keeps_intros keeps_db)
  moreover have "keeps P (app_os m)" for m :: "(os, message_id \<times> message_envelope \<times> int) action"
    using assms(1) by (rule keeps_app_os)
  moreover have "keeps P (send_msg p e)" for p e
    unfolding send_msg_def by (intro keeps_intros assms(2))
  ultimately show ?thesis
    unfolding send_control_def has_session_def seal_for_def
    by (auto intro!: keeps_intros split: sum.splits option.splits)
qed

lemma list_pending_run:
  "fst (requests_list_pending E None d) =
     (case db_fault d ''requests.list_pending'' of
        Some e \<Rightarrow> Inl (storage_error ''requests.list_pending'' e)
      | None \<Rightarrow> traverseR (request_decode E (db_dek d))
                  (order_by rr_created_at (filter (\<lambda>r. rr_resolved_at r = None) (t_requests (db_tables d)))))"
  by (simp add: requests_list_pending_def query_def stmt_def andThen_def split: option.splits)

lemma find_request_Inr:
  assumes "find_request E i s = (Inr q, t)"
  shows "t = s \<and> (\<exists>r \<in> set (requests_of s). rr_id r = i \<and> rr_resolved_at r = None \<and>
     parse E (rr_peer r) = Inr (req_peer q) \<and> direction_parse (rr_direction r) = Inr (req_direction q))"
proof -
  let ?rows = "order_by rr_created_at (filter (\<lambda>r. rr_resolved_at r = None) (requests_of s))"
  obtain qs where qs: "traverseR (request_decode E (db_dek (app_db s))) ?rows = Inr qs"
    "List.find (\<lambda>r. req_id r = i) qs = Some q" "t = s"
    using assms
    by (auto simp: find_request_def andThen_read list_pending_run requests_of_def split: option.splits sum.splits)
  then obtain r where "r \<in> set ?rows" "request_decode E (db_dek (app_db s)) r = Inr q" "req_id q = i"
    using traverseR_in [OF qs(1)] find_SomeD [OF qs(2)] by blast
  then show ?thesis
    using qs(3) by (auto simp: request_decode_def bindR_Inr_iff intro!: bexI [of _ r])
qed

lemma decision_runs:
  assumes "seqA (on_db (requests_resolve i res)) (seqA (on_db (contacts_update_status E y st)) tail) s = (Inr (), s')"
    and "r \<in> set (requests_of s)" "rr_id r = i" "rr_resolved_at r = None" "rr_peer r = to_uri E y"
    and tail: "\<And>t. keeps (\<lambda>u. requests_of u = requests_of t \<and>
        t_contacts (db_tables (app_db u)) = t_contacts (db_tables (app_db t))) tail"
  shows "decided E i res st r s s'"
proof -
  obtain d where d: "requests_resolve i res (app_db s) = (Inr (), d)"
    using assms(1) by (cases "requests_resolve i res (app_db s)"; cases "fst (requests_resolve i res (app_db s))")
      (auto simp: seqA_def andThen_def run_on_db)
  obtain e where e: "contacts_update_status E y st d = (Inr (), e)"
    using assms(1) d by (cases "contacts_update_status E y st d"; cases "fst (contacts_update_status E y st d)")
      (auto simp: seqA_def andThen_def run_on_db)
  let ?t = "s\<lparr>app_db := e\<rparr>"
  have "tail ?t = (Inr (), s')"
    using assms(1) d e by (simp add: seqA_def andThen_def run_on_db)
  then have same: "requests_of s' = requests_of ?t"
    "t_contacts (db_tables (app_db s')) = t_contacts (db_tables (app_db ?t))"
    using keepsD [OF tail [of ?t], of ?t] by simp_all
  note rd = requests_resolve_Inr(3) [OF d] and ce = contacts_update_status_Inr [OF e]
  have "find_row cr_y7_id (to_uri E y) (t_contacts (db_tables d)) \<noteq> None"
    using ce(2) by (simp add: find_row_None_iff)
  then have "status_of E y (db_tables e) = Some st"
    using find_row_SomeD [of cr_y7_id "to_uri E y"]
    by (auto simp: status_of_def ce(3) find_row_update_where res_opt_def split: option.splits)
  moreover have "status_of E z (db_tables e) = status_in E s z" if "to_uri E z \<noteq> to_uri E y" for z
    using contacts_update_effect [of E z y st d] that e by (simp add: rd status_of_def)
  moreover have "status_in E s' z = status_of E z (db_tables e)" for z
    using same(2) by (simp add: status_of_def)
  ultimately show ?thesis
    using assms(2-5) same(1) by (auto simp: decided_def requests_of_def rd ce(3))
qed

lemma found_request:
  assumes "b58_law E" "andThen (find_request E i) k s = (Inr (), s')"
  obtains q r where "r \<in> set (requests_of s)" "rr_id r = i" "rr_resolved_at r = None"
    "rr_peer r = to_uri E (req_peer q)" "direction_parse (rr_direction r) = Inr (req_direction q)"
    "k q s = (Inr (), s')"
proof -
  obtain rq t where f: "find_request E i s = (rq, t)"
    by fastforce
  then obtain q where q: "rq = Inr q" "k q t = (Inr (), s')"
    using assms(2) by (cases rq) (auto simp: andThen_def)
  with find_request_Inr f show ?thesis
    using that parse_Inr_iff [OF assms(1)] by blast
qed

lemma keeps_rows_quiet:
  "keeps (\<lambda>u. requests_of u = requests_of t \<and> t_contacts (db_tables (app_db u)) = t_contacts (db_tables (app_db t)))
     (send_control E y payload)"
  "keeps (\<lambda>u. requests_of u = requests_of t \<and> t_contacts (db_tables (app_db u)) = t_contacts (db_tables (app_db t)))
     (emit ev)"
  by (intro keeps_send_control keeps_intros; simp add: requests_of_def)+

lemma accept_decides:
  assumes "b58_law E" "accept_request E i s = (Inr (), s')"
  shows "\<exists>r. decided E i ResAccepted Accepted r s s'"
proof -
  obtain q :: request and r where r: "r \<in> set (requests_of s)" "rr_id r = i" "rr_resolved_at r = None"
    "rr_peer r = to_uri E (req_peer q)"
    and run: "seqA (on_db (requests_resolve i ResAccepted)) (seqA (on_db (contacts_update_status E (req_peer q) Accepted))
      (seqA (send_control E (req_peer q) AcceptedRequest)
        (seqA (emit (RequestResolved (to_uri E (req_peer q)) ResAccepted))
          (emit (ContactAdded (to_uri E (req_peer q))))))) s = (Inr (), s')"
    by (rule found_request [OF assms(1) assms(2) [unfolded accept_request_def Let_def]])
  show ?thesis
    by (rule exI, rule decision_runs [OF run r]) (intro keeps_intros keeps_rows_quiet)
qed

lemma reject_decides:
  assumes "b58_law E" "reject_request E i s = (Inr (), s')"
  shows "\<exists>r. decided E i ResRejected Blocked r s s'"
proof -
  obtain q :: request and r where r: "r \<in> set (requests_of s)" "rr_id r = i" "rr_resolved_at r = None"
    "rr_peer r = to_uri E (req_peer q)"
    and run: "seqA (on_db (requests_resolve i ResRejected)) (seqA (on_db (contacts_update_status E (req_peer q) Blocked))
      (seqA (send_control E (req_peer q) RejectedRequest)
        (emit (RequestResolved (to_uri E (req_peer q)) ResRejected)))) s = (Inr (), s')"
    by (rule found_request [OF assms(1) assms(2) [unfolded reject_request_def Let_def]])
  show ?thesis
    by (rule exI, rule decision_runs [OF run r]) (intro keeps_intros keeps_rows_quiet)
qed

lemma cancel_decides:
  assumes "b58_law E" "cancel_request E i s = (Inr (), s')"
  shows "\<exists>r. decided E i ResCancelled Removed r s s' \<and> rr_direction r = ''outgoing''"
proof -
  obtain q :: request and r where r: "r \<in> set (requests_of s)" "rr_id r = i" "rr_resolved_at r = None"
    "rr_peer r = to_uri E (req_peer q)" and dir: "direction_parse (rr_direction r) = Inr (req_direction q)"
    and run: "(if req_direction q \<noteq> Outgoing then throw (InvalidInput ''only outgoing requests can be cancelled'')
      else seqA (on_db (requests_resolve i ResCancelled)) (seqA (on_db (contacts_update_status E (req_peer q) Removed))
        (emit (RequestResolved (to_uri E (req_peer q)) ResCancelled)))) s = (Inr (), s')"
    by (rule found_request [OF assms(1) assms(2) [unfolded cancel_request_def]])
  have out: "req_direction q = Outgoing"
    using run by (auto split: if_splits)
  then have "decided E i ResCancelled Removed r s s'"
    using run by (intro decision_runs [OF _ r]) (auto intro!: keeps_intros keeps_rows_quiet)
  then show ?thesis
    using dir out by (intro exI [of _ r]) (auto simp: direction_parse_def split: if_splits)
qed

text \<open>
  C37. Decisions on requests: a command that succeeds resolved exactly one pending request, the
  one named, with the outcome of the command, and set the status of its peer accordingly
  (accepted, blocked, removed), of nobody else; only an outgoing request is cancelled.
\<close>

theorem requests_decided:
  assumes "b58_law E"
  shows "(accept_request E i s = (Inr (), s') \<longrightarrow> (\<exists>r. decided E i ResAccepted Accepted r s s')) \<and>
    (reject_request E i s = (Inr (), s') \<longrightarrow> (\<exists>r. decided E i ResRejected Blocked r s s')) \<and>
    (cancel_request E i s = (Inr (), s') \<longrightarrow>
       (\<exists>r. decided E i ResCancelled Removed r s s' \<and> rr_direction r = ''outgoing''))"
  using accept_decides [OF assms] reject_decides [OF assms] cancel_decides [OF assms] by blast

text \<open>The second party has asked the first one for contact.\<close>

definition asked_by_bob :: app where
  "asked_by_bob = alice_app (sample_db\<lparr>db_tables := empty_tables
     \<lparr>t_contacts := [\<lparr>cr_y7_id = to_uri sample_ext bob_y7, cr_pub = public_of sample_ext bob,
         cr_nickname = None, cr_added_at = 1, cr_status = ''pending_in''\<rparr>],
      t_requests := [\<lparr>rr_id = 1, rr_direction = ''incoming'', rr_peer = to_uri sample_ext bob_y7,
         rr_text_enc = None, rr_text_nonce = None, rr_created_at = 1, rr_resolved_at = None,
         rr_resolution = None\<rparr>], t_requests_seq := 1\<rparr>\<rparr>)"

lemma asked_by_bob_accepts: "fst (accept_request sample_ext 1 asked_by_bob) = Inr ()"
  by code_simp

theorem requests_decided_witness:
  "\<exists>r s'. accept_request sample_ext 1 asked_by_bob = (Inr (), s') \<and>
     decided sample_ext 1 ResAccepted Accepted r asked_by_bob s'"
proof -
  obtain s' where run: "accept_request sample_ext 1 asked_by_bob = (Inr (), s')"
    using asked_by_bob_accepts by (metis prod.collapse)
  then show ?thesis
    using requests_decided [OF sample_b58, of 1 asked_by_bob s'] by blast
qed

section \<open>What is sealed for a peer opens there\<close>

text \<open>The local identity as \<open>boot\<close> sets it up, and a clock that UUIDv7 can carry.\<close>

definition identity_ok :: "ext \<Rightarrow> app \<Rightarrow> bool" where
  "identity_ok E s \<longleftrightarrow>
     signing_key_ok (app_me s) \<and> my_pubkey s = public_of E (app_me s) \<and> my_y7_id s = Y7Id (my_pubkey s)"

definition clock_ok :: "app \<Rightarrow> bool" where
  "clock_ok s \<longleftrightarrow> 0 \<le> os_now (db_os (app_db s)) \<and> os_now (db_os (app_db s)) < 2 ^ 48"

text \<open>The peer with key \<open>b\<close> opens the envelope with the key it derives itself.\<close>

definition opens_at :: "ext \<Rightarrow> signing_key \<Rightarrow> app \<Rightarrow> message_envelope \<Rightarrow> plaintext_kind \<Rightarrow> bool" where
  "opens_at E b s e kind \<longleftrightarrow>
     env_sender_pub e = my_pubkey s \<and>
     (\<exists>k. derive_conv_key E b (my_pubkey s)
            (conv_bytes (conversation_between E (my_y7_id s) (Y7Id (public_of E b)))) = Inr k \<and>
          open_envelope E e (VerifyingKey (my_pubkey s)) k = Inr kind)"

lemma sealed_envelope_ok:
  assumes "ext_laws E" "signing_key_ok me"
    and "seal_kind E me (public_of E me) k p os = (Inr (m, e, ts), os')"
  shows "envelope_ok e"
proof -
  note f = seal_kind_Inr [OF assms(3)]
  have "is_i64 ts"
    using f(2) is_i64_wrap64 by (auto simp: timestamp_ms_def split: option.splits prod.splits)
  moreover have "length (uuid_v7 E i t) = 16" "length (rng_bytes E i n) = n" for i t n
    using ext_lawsD(7,8) [OF assms(1)] by (simp_all add: uuid_law_def rng_law_def)
  ultimately show ?thesis
    using f assms by (simp add: envelope_ok_def length_public_of length_sign ext_lawsD nonce_len_def)
qed

lemma run_app_os:
  "app_os m s = (fst (m (db_os (app_db s))), s\<lparr>app_db := (app_db s)\<lparr>db_os := snd (m (db_os (app_db s)))\<rparr>\<rparr>)"
  by (simp add: app_os_def run_on_db on_os_def os_in_db.zoom_state zoom_result)

lemma seal_for_opens:
  assumes "ext_laws E" "identity_ok E s" "signing_key_ok b"
    and "seal_for E (Y7Id (public_of E b)) payload s = (Inr (Some e), t)"
  shows "envelope_ok e" "opens_at E b s e (Control payload)"
proof -
  let ?conv = "conv_bytes (conversation_between E (my_y7_id s) (Y7Id (public_of E b)))"
  have id: "signing_key_ok (app_me s)" "my_pubkey s = public_of E (app_me s)"
    using assms(2) by (simp_all add: identity_ok_def)
  obtain k where k: "derive_conv_key E (app_me s) (public_of E b) ?conv = Inr (SymmetricKey k)"
    by (rule derive_conv_key_ok [OF assms(1,3)])
  obtain m ts os' where sealed: "seal_control E (app_me s) (public_of E (app_me s)) (SymmetricKey k) payload
      (db_os (app_db s)) = (Inr (m, e, ts), os')"
    using assms(4) k id
    by (cases "seal_control E (app_me s) (public_of E (app_me s)) (SymmetricKey k) payload (db_os (app_db s))")
      (auto simp: seal_for_def andThen_def attempt_def run_app_os split: sum.splits)
  then obtain j where j: "json_control E payload = Inr j"
    "seal_kind E (app_me s) (public_of E (app_me s)) (SymmetricKey k) (tag_control # j) (db_os (app_db s)) = (Inr (m, e, ts), os')"
    by (auto simp: seal_control_def split: sum.splits)
  show "envelope_ok e"
    by (rule sealed_envelope_ok [OF assms(1) id(1) j(2)])
  have "derive_conv_key E b (my_pubkey s) ?conv = Inr (SymmetricKey k)"
    using derive_conv_key_sym [OF assms(1) id(1) assms(3)] k id(2) by simp
  moreover have "open_envelope E e (VerifyingKey (my_pubkey s)) (SymmetricKey k) = Inr (Control payload)"
    using seal_control_opens [OF assms(1) id(1) sealed] id(2) by simp
  ultimately show "opens_at E b s e (Control payload)"
    using seal_kind_Inr(5) [OF j(2)] id(2) by (auto simp: opens_at_def)
qed

lemma seal_for_total:
  assumes "ext_laws E" "signing_key_ok b" "clock_ok s"
    and "json_control E payload = Inr j" "length j + 1 < 2 ^ 38 - 64"
  shows "\<exists>e os. seal_for E (Y7Id (public_of E b)) payload s =
    (Inr (Some e), s\<lparr>app_db := (app_db s)\<lparr>db_os := os\<rparr>\<rparr>)"
proof -
  let ?conv = "conv_bytes (conversation_between E (my_y7_id s) (Y7Id (public_of E b)))"
  obtain k where k: "derive_conv_key E (app_me s) (public_of E b) ?conv = Inr (SymmetricKey k)"
    by (rule derive_conv_key_ok [OF assms(1,2)])
  have "length (tag_control # j) < 2 ^ 38 - 64"
    using assms(5) by simp
  then obtain m e ts os' where "seal_kind E (app_me s) (my_pubkey s) (SymmetricKey k) (tag_control # j)
      (db_os (app_db s)) = (Inr (m, e, ts), os')"
    using seal_kind_total [OF assms(1)] assms(3) unfolding clock_ok_def by metis
  with k assms(4) show ?thesis
    by (simp add: seal_for_def andThen_def attempt_def run_app_os seal_control_def) blast
qed

section \<open>Deleting a contact\<close>

lemma run_wipe_conversation:
  assumes "\<And>l. db_fault (app_db s) l = None"
  shows "wipe_conversation E y s =
    (Inr (), forget_peer y (s\<lparr>app_db := (app_db s)\<lparr>db_tables :=
       wiped E y (conversation_between E (my_y7_id s) y) (db_tables (app_db s))\<rparr>\<rparr>))"
  using wipe_peer_ok [OF assms]
  by (simp add: wipe_conversation_def seqA_def andThen_def run_on_db forget_peer_def)

text \<open>What the outbox of deletions holds for a peer.\<close>

definition deletion_for :: "ext \<Rightarrow> y7id \<Rightarrow> app \<Rightarrow> message_envelope option" where
  "deletion_for E y s =
     (case find_row dr_peer (to_uri E y) (t_deletes (db_tables (app_db s))) of
        None \<Rightarrow> None
      | Some r \<Rightarrow> (case unjson_envelope E (dr_envelope r) of Inr e \<Rightarrow> Some e | Inl _ \<Rightarrow> None))"

lemma enqueue_chat_deleted_queues:
  assumes laws: "ext_laws E" and "identity_ok E s" "signing_key_ok b" "clock_ok s"
    and fault: "\<And>l. db_fault (app_db s) l = None"
    and session: "fst (sessions_get E (Y7Id (public_of E b)) (app_db s)) = Inr (Some x)"
    and "json_control E ChatDeleted = Inr j" "length j + 1 < 2 ^ 38 - 64"
  shows "\<exists>e t. enqueue_chat_deleted E (Y7Id (public_of E b)) s = (Inr (), t) \<and>
    deletion_for E (Y7Id (public_of E b)) t = Some e \<and> opens_at E b s e (Control ChatDeleted) \<and>
    (\<exists>os ds. t = s\<lparr>app_db := (app_db s)\<lparr>db_os := os,
       db_tables := (db_tables (app_db s))\<lparr>t_deletes := ds\<rparr>\<rparr>\<rparr>)"
proof -
  let ?y = "Y7Id (public_of E b)"
  obtain e os where sf: "seal_for E ?y ChatDeleted s = (Inr (Some e), s\<lparr>app_db := (app_db s)\<lparr>db_os := os\<rparr>\<rparr>)"
    using seal_for_total [OF laws assms(3,4,7,8)] by blast
  note opens = seal_for_opens [OF laws assms(2,3) sf]
  obtain bytes where js: "json_envelope E e = Inr bytes" "unjson_envelope E bytes = Inr e"
    using ext_lawsD(9) [OF laws] opens(1) unfolding json_law_def by blast
  have "has_session E ?y s = (Inr True, s)"
    using session by (simp add: has_session_def andThen_def attempt_read)
  then show ?thesis
    using sf js opens(2) fault
    by (simp add: enqueue_chat_deleted_def andThen_def ignore_def run_on_db deletes_enqueue_def
        execute_def stmt_def deletion_for_def delete_rows.find_upsert delete_merge_def
        split: option.splits) blast
qed

definition forgotten :: "y7id \<Rightarrow> app \<Rightarrow> bool" where
  "forgotten y s \<longleftrightarrow>
     y \<notin> fst ` set (presence s) \<and> connections s y = None \<and> connection_meta_of s y = None \<and>
     upgrade_backoff s y = None \<and> reconnect_backoff s y = None"

lemma forget_peer_forgotten: "forgotten y (forget_peer y s)"
  by (simp add: forgotten_def forget_peer_def delete_notin_dom)

text \<open>
  C21. Deleting a contact, on a store that works: the tables are those before with every row of
  the peer and of the conversation gone and nothing else touched but the outbox of deletions; no
  cache knows the peer; nothing has been sent. And when there was a session, the outbox holds an
  envelope for the peer which the peer opens, with the key it derives itself, as the order to
  delete the conversation on its side; the task that delivers it is spawned.
\<close>

theorem delete_contact_both_sides:
  assumes "ext_laws E" "identity_ok E s" "signing_key_ok b" "clock_ok s"
    and "\<And>l. db_fault (app_db s) l = None"
    and "fst (sessions_get E (Y7Id (public_of E b)) (app_db s)) = Inr (Some x)"
    and "json_control E ChatDeleted = Inr j" "length j + 1 < 2 ^ 38 - 64"
  shows "\<exists>t e ds. delete_contact E (Y7Id (public_of E b)) s = (Inr (), t) \<and>
    db_tables (app_db t) = (wiped E (Y7Id (public_of E b))
      (conversation_between E (my_y7_id s) (Y7Id (public_of E b))) (db_tables (app_db s)))\<lparr>t_deletes := ds\<rparr> \<and>
    forgotten (Y7Id (public_of E b)) t \<and> app_wire t = app_wire s \<and>
    deletion_for E (Y7Id (public_of E b)) t = Some e \<and> opens_at E b s e (Control ChatDeleted) \<and>
    (\<exists>p. app_tasks t = app_tasks s @ [FlushAndDisconnect (Y7Id (public_of E b)) p])"
proof -
  let ?y = "Y7Id (public_of E b)"
  obtain e os ds where q: "enqueue_chat_deleted E ?y s = (Inr (), s\<lparr>app_db := (app_db s)\<lparr>db_os := os,
      db_tables := (db_tables (app_db s))\<lparr>t_deletes := ds\<rparr>\<rparr>\<rparr>)"
    "deletion_for E ?y (s\<lparr>app_db := (app_db s)\<lparr>db_os := os,
      db_tables := (db_tables (app_db s))\<lparr>t_deletes := ds\<rparr>\<rparr>\<rparr>) = Some e"
    "opens_at E b s e (Control ChatDeleted)"
    using enqueue_chat_deleted_queues [OF assms] by blast
  let ?s = "s\<lparr>app_db := (app_db s)\<lparr>db_os := os, db_tables := (db_tables (app_db s))\<lparr>t_deletes := ds\<rparr>\<rparr>\<rparr>"
  let ?w = "forget_peer ?y (?s\<lparr>app_db := (app_db ?s)\<lparr>db_tables :=
      wiped E ?y (conversation_between E (my_y7_id ?s) ?y) (db_tables (app_db ?s))\<rparr>\<rparr>)"
  have w: "wipe_conversation E ?y ?s = (Inr (), ?w)"
    using assms(5) by (intro run_wipe_conversation) simp
  obtain p where p: "peer_id_from_y7 E ?y = Inr p"
    using peer_id_from_y7_total [OF ext_lawsD(10) [OF assms(1)], of ?y]
      ed_public_ok [OF ext_lawsD(3) [OF assms(1)], of "secret_bytes b"] assms(3)
    by (simp add: public_of_def verifying_key_def signing_key_ok_def)
  let ?t = "?w\<lparr>app_events := app_events ?w @ [ContactRemoved (to_uri E ?y)],
      app_tasks := app_tasks ?w @ [FlushAndDisconnect ?y p]\<rparr>"
  have run: "delete_contact E ?y s = (Inr (), ?t)"
    using q(1) w p by (simp add: delete_contact_def seqA_def andThen_def)
  have "deletion_for E ?y ?t = Some e"
    using q(2) by (simp add: deletion_for_def forget_peer_def wiped_def Let_def)
  moreover have "forgotten ?y ?t"
    using forget_peer_forgotten [of ?y] by (simp add: forgotten_def)
  ultimately show ?thesis
    using run q(3) by (intro exI [of _ ?t] exI [of _ e] exI [of _ ds])
      (simp add: forget_peer_def wiped_def Let_def)
qed

theorem delete_contact_both_sides_witness:
  "\<exists>t e. delete_contact sample_ext bob_y7 (knows_bob Accepted) = (Inr (), t) \<and>
     t_contacts (db_tables (app_db t)) = [] \<and> deletion_for sample_ext bob_y7 t = Some e \<and>
     opens_at sample_ext bob (knows_bob Accepted) e (Control ChatDeleted)"
proof -
  let ?s = "knows_bob Accepted"
  have id: "identity_ok sample_ext ?s" "clock_ok ?s" "\<And>l. db_fault (app_db ?s) l = None"
    by (simp_all add: identity_ok_def knows_bob_def alice_app_def alice_bob_ok clock_ok_def
        sample_db_def sample_os_def)
  obtain x where "fst (sessions_get sample_ext bob_y7 (app_db ?s)) = Inr (Some x)"
    using knows_bob_reads(1) by blast
  moreover have "json_control sample_ext ChatDeleted = Inr (as_bytes ''chat_deleted'')"
    by (simp add: sample_ext_def)
  moreover have "length (as_bytes ''chat_deleted'') + 1 < 2 ^ 38 - 64"
    by simp
  ultimately have "\<exists>t e ds. delete_contact sample_ext bob_y7 ?s = (Inr (), t) \<and>
    db_tables (app_db t) = (wiped sample_ext bob_y7 (conversation_between sample_ext (my_y7_id ?s) bob_y7)
      (db_tables (app_db ?s)))\<lparr>t_deletes := ds\<rparr> \<and>
    forgotten bob_y7 t \<and> app_wire t = app_wire ?s \<and> deletion_for sample_ext bob_y7 t = Some e \<and>
    opens_at sample_ext bob ?s e (Control ChatDeleted) \<and>
    (\<exists>p. app_tasks t = app_tasks ?s @ [FlushAndDisconnect bob_y7 p])"
    unfolding bob_y7_def
    by (rule delete_contact_both_sides [OF sample_ext_laws id(1) alice_bob_ok(2) id(2,3)])
  then show ?thesis
    by (auto simp: wiped_def knows_bob_def alice_app_def Let_def)
qed

end
