(* ===== verification/Settings_Commands.thy ===== *)
theory Settings_Commands
  imports Contact_Commands
begin

text \<open>
  The commands on settings and diagnostics (\<open>app/settings.rs\<close>): reading and changing the settings
  with what a change of mode entails, the list of bootstraps and their round-trip times, and the
  snapshots that the user interface shows.
\<close>

section \<open>Snapshots\<close>

definition get_settings :: "ext \<Rightarrow> (app, settings) action" where
  "get_settings E = on_db (settings_get E)"

definition get_dcutr_stats :: "app \<Rightarrow> dcutr_stats" where
  "get_dcutr_stats s =
     \<lparr>ds_attempts = dcutr_attempts s, ds_successes = dcutr_successes s, ds_failures = dcutr_failures s\<rparr>"

definition get_nat_status :: "app \<Rightarrow> nat_reachability" where
  "get_nat_status s = nat_verdict (nat_status s)"

definition get_diagnostics_detail :: "app \<Rightarrow> diagnostics_detail" where
  "get_diagnostics_detail s =
     \<lparr>dd_recent_dcutr_failures = dcutr_recent_failures s,
      dd_recent_transitions = transition_ring s,
      dd_rate_limit_drops =
        \<lparr>rld_handshake = rl_drops_handshake s, rld_msg = rl_drops_msg s, rld_sync = rl_drops_sync s\<rparr>,
      dd_nat_detail =
        \<lparr>nd_verdict = nat_verdict (nat_status s), nd_consecutive_failures = nat_failures (nat_status s),
         nd_last_tested_addr = map_option fst (nat_probe_detail s),
         nd_last_probe_server = map_option snd (nat_probe_detail s)\<rparr>\<rparr>"

text \<open>The peers that are reachable and are contacts; an unreadable table counts as empty.\<close>

definition connection_view_of :: "ext \<Rightarrow> app \<Rightarrow> y7id \<times> connection_kind \<Rightarrow> connection_view" where
  "connection_view_of E s = (\<lambda>(y, kind).
     let m = (case connection_meta_of s y of Some m \<Rightarrow> m | None \<Rightarrow> meta_default) in
     \<lparr>cv_y7_id = to_uri E y, cv_kind = kind, cv_via_host = cm_via_host m,
      cv_transport = cm_transport m, cv_ip_version = cm_ip_version m, cv_origin = cm_origin m\<rparr>)"

definition list_active_connections :: "ext \<Rightarrow> (app, connection_view list) action" where
  "list_active_connections E =
     andThen (attempt (on_db (contacts_list E))) (\<lambda>r.
       let contact_ids = (case r of Inr rows \<Rightarrow> set (map contact_id rows) | Inl _ \<Rightarrow> {}) in
       asks (\<lambda>s. map (connection_view_of E s)
         (filter (\<lambda>(y, kind). kind \<noteq> Offline \<and> y \<in> contact_ids) (presence s))))"

section \<open>Changing the settings\<close>

text \<open>Strip the circuits from every cached list of addresses; a row that fails is skipped.\<close>

definition swept_json :: "ext \<Rightarrow> string list \<Rightarrow> string option" where
  "swept_json E addrs =
     (let kept = filter (\<lambda>a. \<not> contains_text ''/p2p-circuit'' a) addrs in
      if kept = [] then None
      else (case json_strings E kept of Inr json \<Rightarrow> Some json | Inl _ \<Rightarrow> None))"

definition sweep_peer :: "ext \<Rightarrow> peer_state \<Rightarrow> (db, unit) action" where
  "sweep_peer E ps =
     (case ps_last_addrs_json ps of
        None \<Rightarrow> ret ()
      | Some json \<Rightarrow>
          (case unjson_strings E json of
             Inl _ \<Rightarrow> ret ()
           | Inr addrs \<Rightarrow> ignore (peer_state_upsert_seen E (ps_peer ps) (swept_json E addrs))))"

definition sweep_stale_relay_addrs :: "ext \<Rightarrow> (db, unit) action" where
  "sweep_stale_relay_addrs E = andThen (peer_state_list_all E) (\<lambda>peers. forA peers (sweep_peer E))"

definition republish_contacts :: "ext \<Rightarrow> (app, unit) action" where
  "republish_contacts E =
     andThen (attempt (on_db (contacts_list E))) (\<lambda>r.
       case r of
         Inl _ \<Rightarrow> ret ()
       | Inr contacts \<Rightarrow>
           forA contacts (\<lambda>c. andThen (refresh_presence (contact_id c)) (emit_presence E (contact_id c))))"

definition apply_mode_change :: "ext \<Rightarrow> dial_mode \<Rightarrow> (app, unit) action" where
  "apply_mode_change E mode =
     seqA (ignore (net_command (WApplyDialMode mode)))
       (seqA (republish_contacts E)
          (seqA (modify (\<lambda>s. s\<lparr>upgrade_backoff := Map.empty, wake_pending := True\<rparr>))
             (if mode = LanOnly then ignore (on_db (sweep_stale_relay_addrs E)) else ret ())))"

definition update_settings :: "ext \<Rightarrow> settings \<Rightarrow> (app, unit) action" where
  "update_settings E st =
     andThen (attempt (on_db (settings_get E))) (\<lambda>prev.
     seqA (on_db (settings_update E st))
       (andThen (on_db (load_bootstraps E)) (\<lambda>addrs.
        seqA (ignore (net_command (WUpdateBootstraps addrs)))
          (seqA
             (if (case prev of Inr p \<Rightarrow> dial_mode p \<noteq> dial_mode st | Inl _ \<Rightarrow> True)
              then apply_mode_change E (dial_mode st)
              else ret ())
             (emit SettingsChanged)))))"

section \<open>Bootstraps\<close>

definition make_entry :: "string \<Rightarrow> bool \<Rightarrow> (string \<rightharpoonup> ping_state) \<Rightarrow> bootstrap_entry" where
  "make_entry addr is_default pings =
     (let state = (case pings addr of Some p \<Rightarrow> p | None \<Rightarrow> ping_default) in
      \<lparr>be_multiaddr = addr, be_is_default = is_default, be_last_ping_ms = ping_last_ms state,
       be_last_ping_failed = ping_last_failed state\<rparr>)"

definition user_bootstraps :: "settings \<Rightarrow> string list" where
  "user_bootstraps st = filter (\<lambda>a. a \<noteq> default_relay_bootstrap) (extra_bootstraps st)"

definition list_bootstraps :: "ext \<Rightarrow> (app, bootstrap_entry list) action" where
  "list_bootstraps E =
     andThen (on_db (settings_get E)) (\<lambda>st. andThen (asks bootstrap_pings) (\<lambda>pings.
       ret (make_entry default_relay_bootstrap True pings #
            map (\<lambda>a. make_entry a False pings) (user_bootstraps st))))"

text \<open>The first expansion that is an address; its host and TCP port are probed.\<close>

fun first_parsed :: "ext \<Rightarrow> string list \<Rightarrow> maddr option" where
  "first_parsed E [] = None"
| "first_parsed E (a # as) = (case maddr_parse E a of Inr m \<Rightarrow> Some m | Inl _ \<Rightarrow> first_parsed E as)"

definition ping_failed :: ping_state where
  "ping_failed = \<lparr>ping_last_ms = None, ping_last_failed = True\<rparr>"

definition ping_one :: "ext \<Rightarrow> string \<Rightarrow> (app, ping_state) action" where
  "ping_one E addr =
     (case Option.bind (first_parsed E (expand_bootstrap addr)) host_port_from_multiaddr of
        None \<Rightarrow> ret ping_failed
      | Some (host, port) \<Rightarrow>
          asks (\<lambda>s.
            case ne_tcp (app_net s) (app_wire s) (host @ '':'' @ show_nat (unat port)) of
              Some rtt \<Rightarrow> \<lparr>ping_last_ms = Some rtt, ping_last_failed = False\<rparr>
            | None \<Rightarrow> ping_failed))"

fun ping_each :: "ext \<Rightarrow> string list \<Rightarrow> (app, (string \<times> ping_state) list) action" where
  "ping_each E [] = ret []"
| "ping_each E (a # as) =
     andThen (ping_one E a) (\<lambda>state. andThen (ping_each E as) (\<lambda>rest. ret ((a, state) # rest)))"

definition ping_all_bootstraps :: "ext \<Rightarrow> (app, bootstrap_entry list) action" where
  "ping_all_bootstraps E =
     andThen (on_db (settings_get E)) (\<lambda>st.
       let addrs = default_relay_bootstrap # user_bootstraps st in
       andThen (ping_each E addrs) (\<lambda>results.
       seqA (modify (\<lambda>s. s\<lparr>bootstrap_pings := foldl (\<lambda>m (a, p). m(a \<mapsto> p)) (bootstrap_pings s) results\<rparr>))
         (andThen (asks bootstrap_pings) (\<lambda>pings.
            ret (map (\<lambda>(i, a). make_entry a (i = 0) pings) (enumerate 0 addrs))))))"

text \<open>A later entry replaces the best one only when it is strictly faster.\<close>

definition faster :: "(string \<times> nat) option \<Rightarrow> bootstrap_entry \<Rightarrow> (string \<times> nat) option" where
  "faster best e =
     (if be_last_ping_failed e then best
      else
        (case be_last_ping_ms e of
           None \<Rightarrow> best
         | Some rtt \<Rightarrow>
             (case best of
                Some (_, cur) \<Rightarrow> if cur \<le> rtt then best else Some (be_multiaddr e, rtt)
              | None \<Rightarrow> Some (be_multiaddr e, rtt))))"

definition select_best_bootstrap :: "ext \<Rightarrow> (app, string option) action" where
  "select_best_bootstrap E =
     andThen (attempt (ping_all_bootstraps E)) (\<lambda>r.
       case r of
         Inl _ \<Rightarrow> ret (Some default_relay_bootstrap)
       | Inr entries \<Rightarrow>
           ret (Some (case foldl faster None entries of
                        Some (a, _) \<Rightarrow> a
                      | None \<Rightarrow> default_relay_bootstrap)))"

section \<open>The sweep of the cached circuits\<close>

definition peers_of :: "app \<Rightarrow> peer_state_row list" where
  "peers_of s = t_peer_state (db_tables (app_db s))"

text \<open>What the sweep makes of one row.\<close>

definition swept_row :: "ext \<Rightarrow> int \<Rightarrow> peer_state_row \<Rightarrow> peer_state_row" where
  "swept_row E now r =
     (case pr_addrs_json r of
        None \<Rightarrow> r
      | Some json \<Rightarrow>
          (case unjson_strings E json of
             Inl _ \<Rightarrow> r
           | Inr addrs \<Rightarrow> r\<lparr>pr_addrs_json := swept_json E addrs, pr_last_seen_at := Some now\<rparr>))"

lemma swept_row_key [simp]: "pr_peer (swept_row E now r) = pr_peer r"
  by (simp add: swept_row_def split: option.splits sum.splits)

lemma peer_state_decode_Inr_iff:
  "peer_state_decode E r = Inr ps \<Longrightarrow>
     parse E (pr_peer r) = Inr (ps_peer ps) \<and> ps_last_addrs_json ps = pr_addrs_json r"
  by (auto simp: peer_state_decode_def bindR_Inr_iff)

text \<open>Sweeping one decoded row rewrites that row and no other one.\<close>

lemma sweep_peer_run:
  assumes "b58_law E" "db_fault d = (\<lambda>_. None)" "peer_state_decode E r = Inr ps"
    and "has_key pr_peer (pr_peer r) (t_peer_state (db_tables d))"
    and "\<And>q. q \<in> set (t_peer_state (db_tables d)) \<Longrightarrow> pr_peer q = pr_peer r \<Longrightarrow> q = r"
  shows "sweep_peer E ps d =
     (Inr (), d\<lparr>db_tables := (db_tables d)\<lparr>t_peer_state :=
        update_where (\<lambda>q. pr_peer q = pr_peer r) (swept_row E (os_now (db_os d))) (t_peer_state (db_tables d))\<rparr>\<rparr>)"
proof -
  let ?rows = "t_peer_state (db_tables d)"
  have ps: "ps_last_addrs_json ps = pr_addrs_json r" "to_uri E (ps_peer ps) = pr_peer r"
    using peer_state_decode_Inr_iff [OF assms(3)] by (simp_all add: parse_Inr_iff [OF assms(1)])
  have same: "update_where (\<lambda>q. pr_peer q = pr_peer r) f ?rows =
      update_where (\<lambda>q. pr_peer q = pr_peer r) g ?rows" if "f r = g r" for f g
    using assms(5) that by (auto simp: update_where_def)
  have id: "update_where (\<lambda>q. pr_peer q = pr_peer r) (\<lambda>q. q) ?rows = ?rows"
    by (simp add: update_where_def)
  consider (kept) "swept_row E (os_now (db_os d)) r = r" "sweep_peer E ps = ret ()"
    | (swept) addrs where "swept_row E (os_now (db_os d)) r =
          r\<lparr>pr_addrs_json := swept_json E addrs, pr_last_seen_at := Some (os_now (db_os d))\<rparr>"
        "sweep_peer E ps = ignore (peer_state_upsert_seen E (ps_peer ps) (swept_json E addrs))"
  proof (cases "pr_addrs_json r")
    case (Some json)
    then show ?thesis
      using that by (cases "unjson_strings E json") (simp_all add: swept_row_def sweep_peer_def ps(1))
  qed (simp add: swept_row_def sweep_peer_def ps(1) that)
  then show ?thesis
  proof cases
    case kept
    then show ?thesis
      using same [of "swept_row E (os_now (db_os d))" "\<lambda>q. q"] id by simp
  next
    case swept
    let ?new = "(empty_peer_row (pr_peer r))\<lparr>pr_addrs_json := swept_json E addrs,
        pr_last_seen_at := Some (os_now (db_os d))\<rparr>"
    have "upsert pr_peer seen_merge ?new ?rows =
        update_where (\<lambda>q. pr_peer q = pr_peer r) (swept_row E (os_now (db_os d))) ?rows"
      using assms(4) same [of "seen_merge ?new" "swept_row E (os_now (db_os d))"] swept(1)
      by (simp add: upsert_def empty_peer_row_def seen_merge_def)
    then show ?thesis
      using swept(2) assms(2) ps(2)
      by (simp add: peer_state_upsert_seen_def execute_def stmt_def action_simps)
  qed
qed

text \<open>
  The loop over the decoded rows, each found again by its peer, is one pass over the table:
  the rows that are done are swept, the others untouched.
\<close>

lemma sweep_loop:
  assumes "b58_law E" "db_fault d = (\<lambda>_. None)" "keys_distinct pr_peer (pre @ rows)"
    and "traverseR (peer_state_decode E) rows = Inr peers"
    and "t_peer_state (db_tables d) = map (swept_row E (os_now (db_os d))) pre @ rows"
  shows "forA peers (sweep_peer E) d =
     (Inr (), d\<lparr>db_tables := (db_tables d)\<lparr>t_peer_state :=
        map (swept_row E (os_now (db_os d))) (pre @ rows)\<rparr>\<rparr>)"
  using assms(2-5)
proof (induction rows arbitrary: pre peers d)
  case (Cons r rows)
  let ?f = "swept_row E (os_now (db_os d))"
  obtain ps rest where p: "peers = ps # rest" "peer_state_decode E r = Inr ps"
    "traverseR (peer_state_decode E) rows = Inr rest"
    using Cons.prems(3) by (auto simp: bindR_Inr_iff)
  have keys: "pr_peer r \<notin> pr_peer ` set pre" "pr_peer r \<notin> pr_peer ` set rows"
    using Cons.prems(2) by (auto simp: keys_distinct_def)
  have other: "update_where (\<lambda>q. pr_peer q = pr_peer r) ?f qs = qs" if "pr_peer r \<notin> pr_peer ` set qs" for qs
  proof (rule update_where_none)
    show "filter (\<lambda>q. pr_peer q = pr_peer r) qs = []"
      using that unfolding filter_empty_conv by (metis image_eqI)
  qed
  have upd: "update_where (\<lambda>q. pr_peer q = pr_peer r) ?f (map ?f pre @ r # rows) = map ?f (pre @ [r]) @ rows"
    using keys other [of "map ?f pre"] other [of rows] by (simp add: update_where_def image_image)
  have only: "q = r" if "q \<in> set (map ?f pre @ r # rows)" "pr_peer q = pr_peer r" for q
  proof -
    have "pr_peer q \<in> pr_peer ` set pre" if "q \<in> set (map ?f pre)"
      using that by auto
    moreover have "pr_peer q \<in> pr_peer ` set rows" if "q \<in> set rows"
      using that by simp
    ultimately show ?thesis
      using that keys by auto
  qed
  have hit: "has_key pr_peer (pr_peer r) (t_peer_state (db_tables d))"
    by (simp add: Cons.prems(4) has_key_def)
  have "sweep_peer E ps d = (Inr (), d\<lparr>db_tables := (db_tables d)\<lparr>t_peer_state :=
      map ?f (pre @ [r]) @ rows\<rparr>\<rparr>)"
    using sweep_peer_run [OF assms(1) Cons.prems(1) p(2) hit only [folded Cons.prems(4)]]
    by (simp only: Cons.prems(4) upd)
  then show ?case
    using Cons.IH [of "d\<lparr>db_tables := (db_tables d)\<lparr>t_peer_state := map ?f (pre @ [r]) @ rows\<rparr>\<rparr>" "pre @ [r]" rest]
      Cons.prems(1,2) p
    by (simp add: seqA_Inr)
qed simp

lemma sweep_is_one_pass:
  assumes "b58_law E" "db_fault d = (\<lambda>_. None)" "keys_distinct pr_peer (t_peer_state (db_tables d))"
    and "peer_state_list_all E d = (Inr peers, d)"
  shows "sweep_stale_relay_addrs E d =
     (Inr (), d\<lparr>db_tables := (db_tables d)\<lparr>t_peer_state :=
        map (swept_row E (os_now (db_os d))) (t_peer_state (db_tables d))\<rparr>\<rparr>)"
proof -
  have "traverseR (peer_state_decode E) (t_peer_state (db_tables d)) = Inr peers"
    using assms(2,4) by (simp add: peer_state_list_all_def query_def stmt_def action_simps)
  then show ?thesis
    using sweep_loop [OF assms(1,2), of "[]"] assms(3,4)
    by (simp add: sweep_stale_relay_addrs_def andThen_Inr)
qed

text \<open>A swept row caches no circuit.\<close>

lemma swept_no_circuit:
  assumes "json_law E" "pr_addrs_json (swept_row E now r) = Some json" "unjson_strings E json = Inr addrs"
  shows "\<forall>a \<in> set addrs. \<not> contains_text ''/p2p-circuit'' a"
proof (cases "\<exists>old as. pr_addrs_json r = Some old \<and> unjson_strings E old = Inr as")
  case True
  then obtain old as where old: "pr_addrs_json r = Some old" "unjson_strings E old = Inr as"
    by blast
  let ?kept = "filter (\<lambda>a. \<not> contains_text ''/p2p-circuit'' a) as"
  obtain j where j: "json_strings E ?kept = Inr j" "unjson_strings E j = Inr ?kept"
    using assms(1) unfolding json_law_def by blast
  have "json = j"
    using assms(2) old j(1) by (auto simp: swept_row_def swept_json_def Let_def split: if_splits)
  then have "addrs = ?kept"
    using assms(3) j(2) by simp
  then show ?thesis
    by simp
next
  case False
  then have "swept_row E now r = r"
    by (auto simp: swept_row_def split: option.splits sum.splits)
  then show ?thesis
    using False assms(2,3) by auto
qed

section \<open>What an update of the settings does\<close>

lemma load_bootstraps_run: "\<exists>bs. load_bootstraps E d = (Inr bs, d)"
  using load_bootstraps_total by (metis load_bootstraps_state prod.collapse)

lemma andThen_attempt_read: "snd (m s) = s \<Longrightarrow> andThen (attempt m) f s = f (fst (m s)) s"
  by (simp add: attempt_read andThen_def)

lemma seqA_ignore: "seqA (ignore m) k s = k (snd (m s))"
  by (simp add: seqA_def andThen_def ignore_def)

lemma forA_total: "(\<And>x s. fst (f x s) = Inr ()) \<Longrightarrow> fst (forA xs f s) = Inr ()"
proof (induction xs arbitrary: s)
  case (Cons x xs)
  then show ?case
    by (cases "f x s") (metis Cons.prems fst_conv seqA_Inr forA.simps(2))
qed simp

lemma republish_total: "fst (republish_contacts E s) = Inr ()"
proof -
  have "fst (andThen (refresh_presence y) (emit_presence E y) u) = Inr ()" for y u
    by (cases "best_of y u") (simp add: andThen_def refresh_presence_run emit_presence_def)
  then show ?thesis
    by (auto simp: republish_contacts_def andThen_def attempt_def forA_total split: prod.splits sum.splits)
qed

definition republished :: "ext \<Rightarrow> dial_mode \<Rightarrow> app \<Rightarrow> app" where
  "republished E mode s =
     (snd (republish_contacts E (s\<lparr>app_wire := app_wire s @ [WApplyDialMode mode]\<rparr>)))
       \<lparr>upgrade_backoff := Map.empty, wake_pending := True\<rparr>"

lemma apply_mode_change_run:
  "apply_mode_change E mode s =
     (Inr (), if mode = LanOnly then snd (on_db (sweep_stale_relay_addrs E) (republished E mode s))
              else republished E mode s)"
proof -
  let ?u = "s\<lparr>app_wire := app_wire s @ [WApplyDialMode mode]\<rparr>"
  have "seqA (republish_contacts E) k ?u = k (snd (republish_contacts E ?u))" for k :: "(app, unit) action"
    using republish_total [of E ?u] by (metis prod.collapse seqA_Inr)
  then show ?thesis
    by (simp add: apply_mode_change_def seqA_ignore run_net_command republished_def seqA_def [of "modify f" for f]
        ignore_def)
qed

definition mode_changes :: "ext \<Rightarrow> settings \<Rightarrow> app \<Rightarrow> bool" where
  "mode_changes E st s \<longleftrightarrow>
     (case fst (settings_get E (app_db s)) of Inr p \<Rightarrow> dial_mode p \<noteq> dial_mode st | Inl _ \<Rightarrow> True)"

lemma update_settings_run:
  assumes "settings_update E st (app_db s) = (Inr (), d)"
  obtains bs where "load_bootstraps E d = (Inr bs, d)" "update_settings E st s =
     (Inr (), (let u = s\<lparr>app_db := d, app_wire := app_wire s @ [WUpdateBootstraps bs]\<rparr>;
                   v = (if mode_changes E st s then snd (apply_mode_change E (dial_mode st) u) else u)
               in v\<lparr>app_events := app_events v @ [SettingsChanged]\<rparr>))"
proof -
  obtain bs where bs: "load_bootstraps E d = (Inr bs, d)"
    using load_bootstraps_run by blast
  have m: "fst (apply_mode_change E (dial_mode st) u) = Inr ()" for u
    by (simp add: apply_mode_change_run)
  show ?thesis
    by (rule that [OF bs])
      (use assms bs in \<open>simp add: update_settings_def andThen_def seqA_def attempt_read run_on_db ignore_def
          run_net_command Let_def mode_changes_def apply_mode_change_run split: sum.splits\<close>)
qed

lemma update_settings_Inr:
  assumes "update_settings E st s = (Inr u, t)"
  obtains d where "settings_update E st (app_db s) = (Inr (), d)"
proof -
  show ?thesis
    using assms that
    by (cases "settings_update E st (app_db s)")
      (auto simp: update_settings_def attempt_read seqA_def andThen_def run_on_db split: sum.splits)
qed

text \<open>Publishing the presence again leaves the database alone.\<close>

lemma republished_db: "app_db (republished E mode s) = app_db s"
proof -
  have "keeps (\<lambda>u. app_db u = app_db s) (andThen (refresh_presence y) (emit_presence E y))" for y
    unfolding refresh_presence_def emit_presence_def by (intro keeps_intros) simp_all
  moreover have "keeps (\<lambda>u. app_db u = app_db s) (attempt (on_db (contacts_list E)))"
    by (simp add: keeps_def attempt_read snd_on_db_read)
  ultimately have "keeps (\<lambda>u. app_db u = app_db s) (republish_contacts E)"
    unfolding republish_contacts_def
    by (intro keeps_andThen [of _ "attempt m" for m] keeps_case_sum keeps_forA keeps_ret)
  then show ?thesis
    by (simp add: republished_def keeps_def)
qed

lemma settings_update_effect:
  assumes "settings_update E st d = (Inr (), d')"
  obtains json where "json_settings E st = Inr json"
    "d' = d\<lparr>db_tables := (db_tables d)\<lparr>t_settings := Some json\<rparr>\<rparr>"
  using assms that
  by (auto simp: settings_update_def execute_def stmt_def action_simps split: sum.splits option.splits)

lemma sweep_keeps_settings:
  "keeps (\<lambda>d. t_settings (db_tables d) = js \<and> db_fault d = f) (sweep_stale_relay_addrs E)"
  unfolding sweep_stale_relay_addrs_def sweep_peer_def
  by (intro keeps_intros keeps_db) simp_all

text \<open>
  Settings are kept: after an update that succeeds, the settings read back are the ones
  that were given, and the list of bootstraps is the built-in relay, marked as the default,
  followed by the user's descriptors in their order, none of which is the built-in one.
\<close>

theorem settings_are_kept:
  assumes "json_law E" "update_settings E st s = (Inr u, t)" "db_fault (app_db s) ''settings.get'' = None"
  shows "get_settings E t = (Inr st, t) \<and>
    (\<exists>es. list_bootstraps E t = (Inr es, t) \<and>
       map be_multiaddr es = default_relay_bootstrap # user_bootstraps st \<and>
       map be_is_default es = True # map (\<lambda>_. False) (user_bootstraps st))"
proof -
  obtain d where d: "settings_update E st (app_db s) = (Inr (), d)"
    by (rule update_settings_Inr [OF assms(2)])
  obtain js where js: "json_settings E st = Inr js"
    "d = (app_db s)\<lparr>db_tables := (db_tables (app_db s))\<lparr>t_settings := Some js\<rparr>\<rparr>"
    by (rule settings_update_effect [OF d])
  obtain bs where t: "update_settings E st s =
     (Inr (), (let u = s\<lparr>app_db := d, app_wire := app_wire s @ [WUpdateBootstraps bs]\<rparr>;
                   v = (if mode_changes E st s then snd (apply_mode_change E (dial_mode st) u) else u)
               in v\<lparr>app_events := app_events v @ [SettingsChanged]\<rparr>))"
    by (rule update_settings_run [OF d])
  let ?kept = "\<lambda>d. t_settings (db_tables d) = Some js \<and> db_fault d = db_fault (app_db s)"
  have swept: "?kept (snd (sweep_stale_relay_addrs E d))"
    using keepsD [OF sweep_keeps_settings, of d "Some js" "db_fault (app_db s)"] js(2) by simp
  have "?kept (app_db t)"
    using t assms(2) swept js(2)
    by (auto simp: Let_def apply_mode_change_run run_on_db republished_db)
  moreover have "unjson_settings E js = Inr st"
    using assms(1) js(1) unfolding json_law_def by (metis Inr_inject)
  ultimately have get: "fst (settings_get E (app_db t)) = Inr st"
    using assms(3) by (simp add: settings_get_def query_def stmt_def action_simps)
  moreover have "get_settings E t = (Inr st, t)"
    using get by (simp add: get_settings_def on_db_read)
  moreover have "list_bootstraps E t = (Inr (make_entry default_relay_bootstrap True (bootstrap_pings t) #
      map (\<lambda>a. make_entry a False (bootstrap_pings t)) (user_bootstraps st)), t)"
    using get by (simp add: list_bootstraps_def andThen_read)
  ultimately show ?thesis
    by (simp add: make_entry_def Let_def comp_def)
qed

text \<open>
  C40. Leaving the Internet mode forgets the relays: when an update switches to LAN-only mode, on
  a store that works, the table of cached addresses is the one before with every list swept, row
  by row and in place; so no list that can be read names a circuit any more, and every address
  that is not one is still there.
\<close>

theorem lan_switch_sweeps:
  assumes "b58_law E" "json_law E" "db_fault (app_db s) = (\<lambda>_. None)"
    and "fst (settings_get E (app_db s)) = Inr old" "dial_mode old \<noteq> LanOnly" "dial_mode st = LanOnly"
    and "keys_distinct pr_peer (peers_of s)" "fst (peer_state_list_all E (app_db s)) = Inr peers"
  shows "\<exists>t. update_settings E st s = (Inr (), t) \<and>
    peers_of t = map (swept_row E (os_now (db_os (app_db s)))) (peers_of s) \<and>
    (\<forall>r \<in> set (peers_of t). \<forall>json addrs.
       pr_addrs_json r = Some json \<longrightarrow> unjson_strings E json = Inr addrs \<longrightarrow>
       (\<forall>a \<in> set addrs. \<not> contains_text ''/p2p-circuit'' a))"
proof -
  let ?f = "swept_row E (os_now (db_os (app_db s)))"
  obtain js where "json_settings E st = Inr js"
    using assms(2) unfolding json_law_def by blast
  then obtain d where d: "settings_update E st (app_db s) = (Inr (), d)"
    "t_peer_state (db_tables d) = peers_of s" "db_os d = db_os (app_db s)" "db_fault d = (\<lambda>_. None)"
    using assms(3) by (simp add: settings_update_def execute_def stmt_def action_simps peers_of_def)
  have "fst (peer_state_list_all E d) = Inr peers"
    using assms(3,8) d(2-4) by (simp add: peer_state_list_all_def query_def stmt_def action_simps peers_of_def)
  then have "peer_state_list_all E d = (Inr peers, d)"
    by (metis peer_state_list_state prod.collapse)
  then have sweep: "sweep_stale_relay_addrs E d =
      (Inr (), d\<lparr>db_tables := (db_tables d)\<lparr>t_peer_state := map ?f (peers_of s)\<rparr>\<rparr>)"
    using sweep_is_one_pass [OF assms(1) d(4)] assms(7) d(2,3) by simp
  obtain bs where t: "update_settings E st s =
     (Inr (), (let u = s\<lparr>app_db := d, app_wire := app_wire s @ [WUpdateBootstraps bs]\<rparr>;
                   v = (if mode_changes E st s then snd (apply_mode_change E (dial_mode st) u) else u)
               in v\<lparr>app_events := app_events v @ [SettingsChanged]\<rparr>))"
    by (rule update_settings_run [OF d(1)])
  have "mode_changes E st s"
    using assms(4-6) by (simp add: mode_changes_def)
  then obtain t where t': "update_settings E st s = (Inr (), t)" "peers_of t = map ?f (peers_of s)"
    using t assms(6) sweep by (simp add: Let_def apply_mode_change_run run_on_db republished_db peers_of_def)
  moreover have "\<not> contains_text ''/p2p-circuit'' a"
    if "r \<in> set (peers_of t)" "pr_addrs_json r = Some json" "unjson_strings E json = Inr addrs" "a \<in> set addrs"
    for r json addrs a
    using that t'(2) swept_no_circuit [OF assms(2)] by auto
  ultimately show ?thesis
    by blast
qed

section \<open>Choosing a bootstrap\<close>

text \<open>What a probe of a descriptor yields; probes send nothing, so they do not affect each other.\<close>

definition probe :: "ext \<Rightarrow> app \<Rightarrow> string \<Rightarrow> ping_state" where
  "probe E s a = (case fst (ping_one E a s) of Inr p \<Rightarrow> p | Inl _ \<Rightarrow> ping_failed)"

lemma ping_one_run: "ping_one E a s = (Inr (probe E s a), s)"
  by (simp add: probe_def ping_one_def split: option.splits prod.splits)

lemma probe_failed_iff: "ping_last_failed (probe E s a) \<longleftrightarrow> ping_last_ms (probe E s a) = None"
  by (simp add: probe_def ping_one_def ping_failed_def split: option.splits prod.splits)

lemma ping_each_run: "ping_each E as s = (Inr (map (\<lambda>a. (a, probe E s a)) as), s)"
  by (induction as) (simp_all add: andThen_def ping_one_run)

lemma foldl_record:
  "foldl (\<lambda>m (a, p). m(a \<mapsto> p)) m0 (map (\<lambda>a. (a, f a)) as) b = (if b \<in> set as then Some (f b) else m0 b)"
  by (induction as arbitrary: m0) auto

definition probed_entries :: "ext \<Rightarrow> app \<Rightarrow> string list \<Rightarrow> bootstrap_entry list" where
  "probed_entries E s addrs =
     map (\<lambda>(i, a). \<lparr>be_multiaddr = a, be_is_default = (i = 0), be_last_ping_ms = ping_last_ms (probe E s a),
       be_last_ping_failed = ping_last_failed (probe E s a)\<rparr>) (enumerate 0 addrs)"

lemma entries_recorded:
  "map (\<lambda>(i, a). make_entry a (i = 0) (foldl (\<lambda>m (a, p). m(a \<mapsto> p)) m0 (map (\<lambda>a. (a, probe E s a)) addrs)))
     (enumerate 0 addrs) = probed_entries E s addrs"
  by (rule nth_equalityI) (simp_all add: probed_entries_def nth_enumerate_eq make_entry_def foldl_record Let_def)

lemma ping_all_run:
  assumes "fst (settings_get E (app_db s)) = Inr st"
  shows "\<exists>t. ping_all_bootstraps E s =
    (Inr (probed_entries E s (default_relay_bootstrap # user_bootstraps st)), t)"
  using assms entries_recorded [of "bootstrap_pings s" E s "default_relay_bootstrap # user_bootstraps st"]
  by (simp add: ping_all_bootstraps_def andThen_read Let_def andThen_Inr [OF ping_each_run] seqA_def
      del: list.map enumerate_simps ping_each.simps)

text \<open>The fold keeps the first of the entries with the least time.\<close>

definition answered :: "bootstrap_entry \<Rightarrow> nat option" where
  "answered e = (if be_last_ping_failed e then None else be_last_ping_ms e)"

lemma faster_answered:
  "faster best e =
     (case answered e of
        None \<Rightarrow> best
      | Some rtt \<Rightarrow>
          (case best of
             Some (a, cur) \<Rightarrow> if cur \<le> rtt then Some (a, cur) else Some (be_multiaddr e, rtt)
           | None \<Rightarrow> Some (be_multiaddr e, rtt)))"
  by (auto simp: answered_def faster_def split: option.splits)

lemma foldl_faster:
  "case foldl faster None es of
     None \<Rightarrow> \<forall>e \<in> set es. answered e = None
   | Some (a, n) \<Rightarrow> \<exists>i < length es. be_multiaddr (es ! i) = a \<and> answered (es ! i) = Some n \<and>
       (\<forall>j < length es. \<forall>m. answered (es ! j) = Some m \<longrightarrow> n \<le> m \<and> (j < i \<longrightarrow> n < m))"
proof (induction es rule: rev_induct)
  case (snoc e es)
  show ?case
  proof (cases "foldl faster None es")
    case None
    then have none: "\<forall>j < length es. answered (es ! j) = None"
      using snoc.IH by simp
    have step: "faster None e = map_option (\<lambda>n. (be_multiaddr e, n)) (answered e)"
      by (simp add: faster_answered split: option.splits)
    show ?thesis
    proof (cases "answered e")
      case (Some n)
      then show ?thesis
        using None none step by (auto simp: nth_append less_Suc_eq intro!: exI [of _ "length es"])
    next
      case none_e: None
      then show ?thesis
        using None snoc.IH step by simp
    qed
  next
    case (Some b)
    obtain a n where b: "b = (a, n)"
      by (cases b)
    then obtain i where i: "i < length es" "be_multiaddr (es ! i) = a" "answered (es ! i) = Some n"
      "\<And>j m. j < length es \<Longrightarrow> answered (es ! j) = Some m \<Longrightarrow> n \<le> m \<and> (j < i \<longrightarrow> n < m)"
      using snoc.IH Some by auto
    have step: "faster (Some (a, n)) e =
        (case answered e of Some m \<Rightarrow> if n \<le> m then Some (a, n) else Some (be_multiaddr e, m) | None \<Rightarrow> Some (a, n))"
      by (simp add: faster_answered split: option.splits)
    consider (same) "faster (Some (a, n)) e = Some (a, n)" "\<And>m. answered e = Some m \<Longrightarrow> n \<le> m"
      | (less) m where "faster (Some (a, n)) e = Some (be_multiaddr e, m)" "answered e = Some m" "m < n"
      using step by (cases "answered e") (auto split: if_splits)
    then show ?thesis
    proof cases
      case same
      then show ?thesis
        using Some b i by (auto simp: nth_append less_Suc_eq intro!: exI [of _ i])
    next
      case less
      have "m \<le> k \<and> m < k" if "j < length es" "answered (es ! j) = Some k" for j k
        using i(4) [OF that] less(3) by linarith
      then show ?thesis
        using Some b less by (auto simp: nth_append less_Suc_eq intro!: exI [of _ "length es"])
    qed
  qed
qed simp

text \<open>
  The bootstrap that is chosen: with the settings readable it is one of the configured
  descriptors that answered a probe, none answered faster, and those that answered as fast come
  later in the list; when no descriptor answers it is the built-in relay.
\<close>

theorem best_bootstrap_is_fastest:
  assumes "fst (settings_get E (app_db s)) = Inr st"
    and "addrs = default_relay_bootstrap # user_bootstraps st"
  shows "\<exists>a t. select_best_bootstrap E s = (Inr (Some a), t) \<and>
    ((\<forall>b \<in> set addrs. ping_last_ms (probe E s b) = None) \<and> a = default_relay_bootstrap \<or>
     (\<exists>i n. i < length addrs \<and> a = addrs ! i \<and> ping_last_ms (probe E s a) = Some n \<and>
        (\<forall>j < length addrs. \<forall>m. ping_last_ms (probe E s (addrs ! j)) = Some m \<longrightarrow>
           n \<le> m \<and> (j < i \<longrightarrow> n < m))))"
proof -
  let ?es = "probed_entries E s addrs"
  obtain t where t: "ping_all_bootstraps E s = (Inr ?es, t)"
    using ping_all_run [OF assms(1)] assms(2) by blast
  have len: "length ?es = length addrs"
    by (simp add: probed_entries_def)
  have nth: "be_multiaddr (?es ! j) = addrs ! j" "answered (?es ! j) = ping_last_ms (probe E s (addrs ! j))"
    if "j < length addrs" for j
    using that by (simp_all add: probed_entries_def nth_enumerate_eq answered_def probe_failed_iff)
  have sel: "select_best_bootstrap E s = (Inr (Some (case foldl faster None ?es of
      Some (a, _) \<Rightarrow> a | None \<Rightarrow> default_relay_bootstrap)), t)"
    by (simp add: select_best_bootstrap_def attempt_def andThen_def t)
  show ?thesis
  proof (cases "foldl faster None ?es")
    case None
    then have "answered (?es ! j) = None" if "j < length addrs" for j
      using foldl_faster [of ?es] that len by simp
    then have "ping_last_ms (probe E s b) = None" if "b \<in> set addrs" for b
      using that nth(2) by (metis in_set_conv_nth)
    then show ?thesis
      using sel None by auto
  next
    case (Some p)
    obtain a n where p: "p = (a, n)"
      by (cases p)
    then obtain i where i: "i < length addrs" "a = addrs ! i" "ping_last_ms (probe E s a) = Some n"
      "\<And>j m. j < length addrs \<Longrightarrow> ping_last_ms (probe E s (addrs ! j)) = Some m \<Longrightarrow> n \<le> m \<and> (j < i \<longrightarrow> n < m)"
      using foldl_faster [of ?es] Some nth len by auto
    then have "\<exists>i n. i < length addrs \<and> a = addrs ! i \<and> ping_last_ms (probe E s a) = Some n \<and>
        (\<forall>j < length addrs. \<forall>m. ping_last_ms (probe E s (addrs ! j)) = Some m \<longrightarrow> n \<le> m \<and> (j < i \<longrightarrow> n < m))"
      by blast
    moreover have "select_best_bootstrap E s = (Inr (Some a), t)"
      using sel Some p by simp
    ultimately show ?thesis
      by blast
  qed
qed

section \<open>The connections that are shown\<close>

definition active_view :: "ext \<Rightarrow> app \<Rightarrow> y7id \<Rightarrow> connection_view" where
  "active_view E s y = connection_view_of E (s\<lparr>connection_meta_of := (\<lambda>_. Some (snd (best_of y s)))\<rparr>) (y, fst (best_of y s))"

text \<open>
  What the connectivity pane shows: with the caches right and the contacts readable, it
  shows each contact that has a live connection exactly once, with the kind and the metadata of
  its best connection, and nothing else: no contact without one, and no peer that is no contact.
\<close>

theorem active_connections_exact:
  assumes "presence_ok s" "fst (contacts_list E (app_db s)) = Inr cs"
  shows "\<exists>ys. list_active_connections E s = (Inr (map (active_view E s) ys), s) \<and> distinct ys \<and>
    set ys = {y \<in> contact_id ` set cs. fst (best_of y s) \<noteq> Offline}"
proof -
  let ?shown = "filter (\<lambda>(y, kind). kind \<noteq> Offline \<and> y \<in> contact_id ` set cs) (presence s)"
  have at: "presence_at y s" for y
    using assms(1) by (simp add: presence_ok_def)
  have dist: "distinct (map fst (presence s))"
    using assms(1) by (simp add: presence_ok_def)
  have entry: "(y, k) \<in> set (presence s) \<longleftrightarrow> fst (best_of y s) \<noteq> Offline \<and> k = fst (best_of y s)" for y k
    using at [of y] map_of_eq_Some_iff [OF dist, of y k] by (auto simp: presence_at_def split: if_splits)
  have view: "connection_view_of E s p = active_view E s (fst p)" if "p \<in> set ?shown" for p
  proof -
    have "(fst p, snd p) \<in> set (presence s)"
      using that by auto
    then show ?thesis
      using at [of "fst p"] entry [of "fst p" "snd p"]
      by (cases p) (simp add: active_view_def connection_view_of_def presence_at_def)
  qed
  have "list_active_connections E s = (Inr (map (connection_view_of E s) ?shown), s)"
    using assms(2)
    by (simp add: list_active_connections_def andThen_attempt_read snd_on_db_read Let_def)
  also have "map (connection_view_of E s) ?shown = map (active_view E s) (map fst ?shown)"
    unfolding map_map by (rule map_cong [OF refl]) (simp add: view)
  finally have "list_active_connections E s = (Inr (map (active_view E s) (map fst ?shown)), s)" .
  moreover have "distinct (map fst ?shown)"
    using dist by (simp add: distinct_map_filter)
  moreover have "set (map fst ?shown) = {y \<in> contact_id ` set cs. fst (best_of y s) \<noteq> Offline}"
    using entry by (force simp: image_iff)
  ultimately show ?thesis
    by blast
qed

section \<open>Concrete settings\<close>

definition lan_settings :: settings where
  "lan_settings = \<lparr>dial_mode = LanOnly, extra_bootstraps = [''/ip4/10.0.0.1/4101/p2p/relay'']\<rparr>"

definition net_settings :: settings where
  "net_settings = \<lparr>dial_mode = InternetMode, extra_bootstraps = [''/ip4/10.0.0.1/4101/p2p/relay'']\<rparr>"

theorem settings_are_kept_witness:
  "\<exists>t. update_settings sample_ext lan_settings (alice_app sample_db) = (Inr (), t) \<and>
     get_settings sample_ext t = (Inr lan_settings, t)"
proof -
  have fault: "db_fault (app_db (alice_app sample_db)) l = None" for l
    by (simp add: alice_app_def sample_db_def)
  obtain js where "json_settings sample_ext lan_settings = Inr js"
    using ext_lawsD(9) [OF sample_ext_laws] unfolding json_law_def by blast
  then obtain d where "settings_update sample_ext lan_settings (app_db (alice_app sample_db)) = (Inr (), d)"
    by (simp add: settings_update_def execute_def stmt_def fault action_simps)
  then obtain t where "update_settings sample_ext lan_settings (alice_app sample_db) = (Inr (), t)"
    by (rule update_settings_run)
  from settings_are_kept [OF ext_lawsD(9) [OF sample_ext_laws] this fault] this show ?thesis
    by blast
qed

text \<open>A peer with a circuit and a direct address in the cache, under Internet mode.\<close>

definition cached_circuit :: app where
  "cached_circuit = alice_app (sample_db\<lparr>db_tables := empty_tables
     \<lparr>t_settings := Some (toy_json_settings net_settings),
      t_peer_state := [(empty_peer_row (to_uri sample_ext bob_y7))
        \<lparr>pr_addrs_json := Some (toy_json_strings [''/ip4/10.0.0.1/tcp/4101/p2p/x/p2p-circuit'', ''/ip4/10.0.0.2/tcp/1''])\<rparr>]\<rparr>\<rparr>)"

theorem lan_switch_sweeps_witness:
  "\<exists>t. update_settings sample_ext lan_settings cached_circuit = (Inr (), t) \<and>
     map pr_addrs_json (peers_of t) = [Some (toy_json_strings [''/ip4/10.0.0.2/tcp/1''])]"
proof -
  have "fst (settings_get sample_ext (app_db cached_circuit)) = Inr net_settings"
    by code_simp
  moreover have "dial_mode net_settings \<noteq> LanOnly" "dial_mode lan_settings = LanOnly"
    by (simp_all add: net_settings_def lan_settings_def)
  moreover have "keys_distinct pr_peer (peers_of cached_circuit)"
    by (simp add: keys_distinct_def peers_of_def cached_circuit_def alice_app_def)
  moreover have "\<not> isl (fst (peer_state_list_all sample_ext (app_db cached_circuit)))"
    by code_simp
  then obtain ps where "fst (peer_state_list_all sample_ext (app_db cached_circuit)) = Inr ps"
    by (auto simp: isl_def split: sum.splits) (metis sum.exhaust)
  moreover have "db_fault (app_db cached_circuit) = (\<lambda>_. None)"
    by (simp add: cached_circuit_def alice_app_def sample_db_def)
  moreover have "map pr_addrs_json (map (swept_row sample_ext n) (peers_of cached_circuit)) =
      [Some (toy_json_strings [''/ip4/10.0.0.2/tcp/1''])]" for n
    by code_simp
  ultimately show ?thesis
    using lan_switch_sweeps [OF ext_lawsD(1,9) [OF sample_ext_laws]] by metis
qed

text \<open>Every descriptor leads to a relay that answers in three milliseconds.\<close>

definition one_relay :: ext where
  "one_relay = sample_ext\<lparr>maddr_parse := (\<lambda>_. Inr [Dns ''relay'', Tcp 1])\<rparr>"

definition near_relay :: app where
  "near_relay = cached_circuit\<lparr>app_net := sample_net\<lparr>ne_tcp := (\<lambda>_ _. Some 3)\<rparr>\<rparr>"

lemma near_relay_probe: "ping_last_ms (probe one_relay near_relay a) = Some 3"
proof -
  have "first_parsed one_relay (expand_bootstrap a) = Some [Dns ''relay'', Tcp 1]"
    by (simp add: expand_bootstrap_def Let_def one_relay_def)
  then show ?thesis
    by (simp add: probe_def ping_one_def host_port_from_multiaddr_def near_relay_def)
qed

theorem best_bootstrap_is_fastest_witness:
  "\<exists>t. select_best_bootstrap one_relay near_relay = (Inr (Some default_relay_bootstrap), t)"
proof -
  have "fst (settings_get one_relay (app_db near_relay)) = Inr net_settings"
    by code_simp
  from best_bootstrap_is_fastest [OF this refl] obtain a t i n where
    "select_best_bootstrap one_relay near_relay = (Inr (Some a), t)"
    "a = (default_relay_bootstrap # user_bootstraps net_settings) ! i"
    "ping_last_ms (probe one_relay near_relay a) = Some n" "i \<noteq> 0 \<longrightarrow> n < 3"
    using near_relay_probe by (metis length_greater_0_conv list.discI list.set_intros(1) neq0_conv option.distinct(1))
  then show ?thesis
    using near_relay_probe [of a] by (cases i) auto
qed

text \<open>Bob, an accepted contact, on a connection over the local network.\<close>

definition lan_entry :: conn_entry where
  "lan_entry = \<lparr>ce_kind = Lan, ce_meta = meta_default, ce_opened_at = 0\<rparr>"

definition bob_connected :: app where
  "bob_connected = (knows_bob Accepted)\<lparr>connections := [bob_y7 \<mapsto> [(1, lan_entry)]],
     presence := [(bob_y7, Lan)], connection_meta_of := [bob_y7 \<mapsto> meta_default]\<rparr>"

theorem active_connections_exact_witness:
  "\<exists>vs. list_active_connections sample_ext bob_connected = (Inr vs, bob_connected) \<and>
     map cv_kind vs = [Lan]"
proof -
  have best: "best_of y bob_connected = (if y = bob_y7 then (Lan, meta_default) else (Offline, meta_default))" for y
    by (simp add: best_of_def bob_connected_def lan_entry_def best_conn_def)
  have "presence_ok bob_connected"
    by (auto simp: presence_ok_def presence_at_def best conns_ok_def) (auto simp: bob_connected_def split: if_splits)
  moreover have "case fst (contacts_list sample_ext (app_db bob_connected)) of
      Inr cs \<Rightarrow> map contact_id cs = [bob_y7] | Inl _ \<Rightarrow> False"
    by code_simp
  then obtain cs where cs: "fst (contacts_list sample_ext (app_db bob_connected)) = Inr cs"
    "map contact_id cs = [bob_y7]"
    by (auto split: sum.splits)
  then have "contact_id ` set cs = {bob_y7}"
    by (metis list.set(1,2) set_map)
  then have "{y \<in> contact_id ` set cs. fst (best_of y bob_connected) \<noteq> Offline} = {bob_y7}"
    by (auto simp: best)
  ultimately obtain ys where ys: "list_active_connections sample_ext bob_connected =
      (Inr (map (active_view sample_ext bob_connected) ys), bob_connected)" "distinct ys" "set ys = {bob_y7}"
    using active_connections_exact [OF _ cs(1)] by metis
  have "ys = [bob_y7]"
    using ys(2,3) by (cases ys rule: remdups_adj.cases) auto
  with ys(1) show ?thesis
    by (simp add: active_view_def connection_view_of_def best)
qed

end
