(* ===== verification/Ticker.thy ===== *)
theory Ticker
  imports Connections Settings_Commands
begin

text \<open>
  The presence ticker (\<open>run_presence_ticker\<close> in \<open>app.rs\<close>): every thirty seconds, or when it is
  woken, it visits the accepted contacts; one that is offline is searched for under its backoff,
  one whose socket died is demoted, a relayed one is now and then dialled directly, and what is
  due for a live one is sent again.

  The liveness check is an await, during which the event loop may record another connection. So
  the ids known before the check are an argument of the removal, which is a step of its own.
\<close>

section \<open>One visit\<close>

definition presence_of :: "y7id \<Rightarrow> app \<Rightarrow> connection_kind" where
  "presence_of y s = (case map_of (presence s) y of Some k \<Rightarrow> k | None \<Rightarrow> Offline)"

definition drain_due_for_connected_peer :: "ext \<Rightarrow> y7id \<Rightarrow> (app, unit) action" where
  "drain_due_for_connected_peer E y =
     (case peer_id_from_y7 E y of
        Inl _ \<Rightarrow> ret ()
      | Inr p \<Rightarrow> ignore (drain_queue_for_peer E y p True))"

text \<open>Up to half a second, from a random 64-bit number.\<close>

definition draw_jitter :: "ext \<Rightarrow> (app, int) action" where
  "draw_jitter E = app_os (draw (\<lambda>n. le_value (rng_bytes E n 8) mod 500))"

text \<open>An entry that is missing is made due now; a redial that is due is recorded.\<close>

definition redial_due :: "y7id \<Rightarrow> int \<Rightarrow> int \<Rightarrow> (app, bool) action" where
  "redial_due y now jitter s =
     (let b = (case reconnect_backoff s y of Some b \<Rightarrow> b | None \<Rightarrow> backoff_ready now);
          due = backoff_due b now
      in (Inr due, s\<lparr>reconnect_backoff := (reconnect_backoff s)
            (y \<mapsto> if due then backoff_record b now jitter else b)\<rparr>))"

definition visit_offline :: "ext \<Rightarrow> y7id \<Rightarrow> (app, unit) action" where
  "visit_offline E y =
     andThen instant_now (\<lambda>now. andThen (draw_jitter E) (\<lambda>jitter.
     andThen (redial_due y now jitter) (\<lambda>should_dial.
       if \<not> should_dial then ret ()
       else
         seqA (andThen (attempt (check_live y)) (\<lambda>live.
                 if live = Inr True then ignore (net_command (WDisconnect y)) else ret ()))
           (dial_with_discovery E y))))"

definition known_ids :: "y7id \<Rightarrow> app \<Rightarrow> connection_id list" where
  "known_ids y s = map fst (conns_of y s)"

text \<open>Remove the connections of the snapshot; the last one takes the peer's entry with it.\<close>

definition prune :: "y7id \<Rightarrow> connection_id list \<Rightarrow> app \<Rightarrow> app" where
  "prune y snapshot s =
     (case connections s y of
        None \<Rightarrow> s
      | Some cs \<Rightarrow>
          (let left = foldl (\<lambda>cs i. AList.delete i cs) cs snapshot in
           s\<lparr>connections := (connections s)(y := if left = [] then None else Some left)\<rparr>))"

definition demote :: "ext \<Rightarrow> y7id \<Rightarrow> connection_id list \<Rightarrow> (app, unit) action" where
  "demote E y snapshot =
     seqA (modify (prune y snapshot)) (andThen (refresh_presence y) (emit_presence E y))"

definition bump_upgrade :: "y7id \<Rightarrow> (app, nat) action" where
  "bump_upgrade y s =
     (let old = (case upgrade_backoff s y of Some n \<Rightarrow> n | None \<Rightarrow> 0)
      in (Inr old, s\<lparr>upgrade_backoff := (upgrade_backoff s)(y \<mapsto> sat_inc32 old)\<rparr>))"

definition visit_relayed :: "ext \<Rightarrow> y7id \<Rightarrow> (app, unit) action" where
  "visit_relayed E y =
     andThen (asks (known_ids y)) (\<lambda>snapshot.
     andThen (attempt (check_live y)) (\<lambda>live.
       case live of
         Inr False \<Rightarrow> demote E y snapshot
       | Inr True \<Rightarrow>
           andThen (bump_upgrade y) (\<lambda>attempts.
             seqA (if should_attempt_upgrade attempts then ignore (net_dial y) else ret ())
               (drain_due_for_connected_peer E y))
       | Inl _ \<Rightarrow> ret ()))"

definition visit_connected :: "ext \<Rightarrow> y7id \<Rightarrow> (app, unit) action" where
  "visit_connected E y =
     andThen (asks (known_ids y)) (\<lambda>snapshot.
     andThen (attempt (check_live y)) (\<lambda>live.
       case live of
         Inr True \<Rightarrow> drain_due_for_connected_peer E y
       | Inr False \<Rightarrow> demote E y snapshot
       | Inl _ \<Rightarrow> ret ()))"

definition visit :: "ext \<Rightarrow> y7id \<Rightarrow> (app, unit) action" where
  "visit E y =
     andThen (asks (presence_of y)) (\<lambda>current.
       case current of
         Offline \<Rightarrow> visit_offline E y
       | Relayed \<Rightarrow> visit_relayed E y
       | _ \<Rightarrow> visit_connected E y)"

definition presence_tick :: "ext \<Rightarrow> bool \<Rightarrow> (app, unit) action" where
  "presence_tick E woken =
     seqA (if woken then modify (\<lambda>s. s\<lparr>wake_pending := False\<rparr>) else ret ())
       (andThen (attempt (on_db (contacts_list E))) (\<lambda>r.
          case r of
            Inl _ \<Rightarrow> ret ()
          | Inr contacts \<Rightarrow>
              forA contacts (\<lambda>c.
                if contact_state c \<noteq> Accepted then ret () else visit E (contact_id c))))"

section \<open>What a visit keeps\<close>

text \<open>A discovery changes nothing but the wire, and returns.\<close>

lemma discovery_wire:
  "\<exists>w. dial_with_discovery E y s = (Inr (), s\<lparr>app_wire := app_wire s @ w\<rparr>)"
proof -
  let ?any = "\<lambda>_ :: wire. True"
  have boot: "dials_only ?any (on_db (load_bootstraps E))"
  proof (rule dials_only_read)
    fix s :: app
    obtain bs where "load_bootstraps E (app_db s) = (Inr bs, app_db s)"
      using load_bootstraps_run by blast
    then show "\<exists>x. on_db (load_bootstraps E) s = (Inr x, s)"
      by (simp add: run_on_db)
  qed
  have mode: "dials_only ?any (effective_mode E)"
    by (rule dials_only_read) (simp add: run_effective_mode)
  have "dials_only ?any (forA rs (\<lambda>r. ignore (dial_address (circuit_via r p))))" for rs p
  proof (induction rs)
    case (Cons r rs)
    have "dials_only ?any (ignore (dial_address (circuit_via r p)))"
      by (simp add: dials_only_def ignore_def run_dial_address)
        (metis list.pred_inject)
    then show ?case
      using Cons by (simp add: seqA_def dials_only_andThen)
  qed (simp add: dials_only_ret del: run_ret)
  then have relay: "dials_only ?any (relay_step E y)"
    unfolding relay_step_def by (auto intro!: dials_only_andThen boot simp: dials_only_ret split: sum.splits)
  have kad: "dials_only ?any (kad_step E y m)" for m
    unfolding kad_step_def find_peer_def
    by (auto intro!: dials_only_andThen dials_only_call dials_only_dial_first simp: dials_only_ret split: sum.splits)
  have "dials_only ?any (dial_with_discovery E y)"
    unfolding dial_with_discovery_def
    by (auto intro!: dials_only_andThen dials_only_unless mode relay kad dials_only_has_lan dials_only_swarm_step
        dials_only_cached_step simp: dials_only_ret)
  then show ?thesis
    by (auto elim!: dials_onlyE [of _ _ s])
qed

lemma refresh_caches: "presence_but y s \<Longrightarrow> counters_ok s \<Longrightarrow> caches_ok (snd (refresh_presence y s))"
  using publish_presence_caches [of y s "throw e" for e]
  by (cases "best_of y s") (fastforce simp: publish_presence_def refresh_presence_run andThen_def seqA_def keeps_def)

text \<open>Pruning touches the connections of one peer only, and leaves its map well formed.\<close>

lemma foldl_delete:
  "set (foldl (\<lambda>cs i. AList.delete i cs) cs is) = {p \<in> set cs. fst p \<notin> set is}"
  by (induction "is" arbitrary: cs) (auto simp: AList.delete_eq)

lemma distinct_foldl_delete:
  "distinct (map fst cs) \<Longrightarrow> distinct (map fst (foldl (\<lambda>cs i. AList.delete i cs) cs is))"
  by (induction "is" arbitrary: cs) (simp_all add: distinct_delete)

lemma prune_but:
  assumes "caches_ok s"
  shows "presence_but y (prune y snapshot s) \<and> counters_ok (prune y snapshot s)"
proof (cases "connections s y")
  case None
  then show ?thesis
    using assms by (simp add: prune_def caches_ok_def presence_ok_but)
next
  case (Some cs)
  then have "distinct (map fst (foldl (\<lambda>cs i. AList.delete i cs) cs snapshot))"
    using assms by (simp add: caches_ok_def presence_ok_def conns_ok_def distinct_foldl_delete)
  then show ?thesis
    using assms Some by (simp add: prune_def Let_def presence_but_def presence_ok_def presence_at_def
        best_of_def conns_ok_def caches_ok_def counters_ok_def ring_ok_def dcutr_ok_def)
qed

lemma run_demote:
  "demote E y snapshot s =
     (let t = snd (refresh_presence y (prune y snapshot s)); (k, m) = best_of y (prune y snapshot s) in
      (Inr (), t\<lparr>app_events := app_events t @
         [PresenceChanged (to_uri E y) k (cm_transport m) (cm_ip_version m) (cm_origin m)]\<rparr>))"
  by (cases "best_of y (prune y snapshot s)")
    (simp add: demote_def seqA_def andThen_def emit_presence_def refresh_presence_run Let_def)

lemma demote_caches: "keeps caches_ok (demote E y snapshot)"
proof (rule keepsI)
  fix s assume "caches_ok s"
  then have "caches_ok (snd (refresh_presence y (prune y snapshot s)))"
    using prune_but refresh_caches by blast
  then show "caches_ok (snd (demote E y snapshot s))"
    by (simp add: run_demote Let_def caches.events split: prod.splits)
qed

text \<open>
  A predicate that the whole client keeps: it is a predicate over the caches, and neither a
  backoff, a ping or a wake-up, nor forgetting a peer, refreshing its presence or demoting it
  breaks it.
\<close>

locale client_predicate = cache_predicate P for P :: "app \<Rightarrow> bool" +
  assumes environment: "P s \<Longrightarrow> P (s\<lparr>app_net := N\<rparr>)"
    and pings: "P s \<Longrightarrow> P (s\<lparr>bootstrap_pings := m\<rparr>)"
    and wake: "P s \<Longrightarrow> P (s\<lparr>wake_pending := b\<rparr>)"
    and backoffs: "P s \<Longrightarrow> P (s\<lparr>reconnect_backoff := r\<rparr>)" "P s \<Longrightarrow> P (s\<lparr>upgrade_backoff := u\<rparr>)"
    and forget: "P s \<Longrightarrow> P (forget_peer y s)"
    and refresh: "keeps P (refresh_presence y)"
    and pruned: "keeps P (demote E y ids)"
begin

lemma keeps_discovery: "keeps P (dial_with_discovery E y)"
  by (rule keepsI) (metis discovery_wire wire snd_conv)

lemma keeps_visit: "keeps P (visit E y)"
proof -
  have due: "keeps P (drain_due_for_connected_peer E y)"
    unfolding drain_due_for_connected_peer_def by (intro keeps_intros keeps_drain)
  have live: "keeps P (attempt (check_live y))" "keeps P (ignore (net_dial y))"
    unfolding check_live_def net_dial_def by (intro keeps_intros keeps_primitives)+
  have "keeps P (redial_due y now jitter)" "keeps P (bump_upgrade y)" for now jitter
    by (auto simp: keeps_def redial_due_def bump_upgrade_def Let_def backoffs)
  then have "keeps P (visit_offline E y)" "keeps P (visit_relayed E y)" "keeps P (visit_connected E y)"
    unfolding visit_offline_def visit_relayed_def visit_connected_def draw_jitter_def
    by (auto intro!: keeps_andThen keeps_seqA keeps_asks keeps_instant_now keeps_if keeps_ret keeps_ignore
        keeps_primitives live due keeps_discovery pruned split: sum.splits bool.splits)
  then show ?thesis
    unfolding visit_def by (auto intro!: keeps_andThen keeps_asks split: connection_kind.splits)
qed

lemma keeps_tick: "keeps P (presence_tick E woken)"
proof -
  have "keeps P (modify (\<lambda>s. s\<lparr>wake_pending := False\<rparr>))"
    by (intro keeps_intros) (rule wake)
  then show ?thesis
    unfolding presence_tick_def
    by (intro keeps_seqA keeps_andThen keeps_attempt keeps_case_sum keeps_forA keeps_if keeps_ret
        keeps_primitives keeps_visit)
qed

end

interpretation client_caches: client_predicate caches_ok
proof
  show "keeps caches_ok (refresh_presence y)" for y
    by (rule keepsI) (rule refresh_caches; simp add: caches_ok_def presence_ok_but)
  show "keeps caches_ok (demote E y ids)" for E y ids
    by (rule demote_caches)
qed (auto simp: forget_peer_caches, (simp add: cache_defs)+)

section \<open>Dead sockets\<close>

text \<open>
  C25. The liveness check races with the event loop, and a new connection wins: when a snapshot
  of connections is found dead, exactly those are removed, whatever was recorded between the
  snapshot and the removal stays, the peer remains present with a kind at least as good as that
  of every connection that is left, and the caches are right.
\<close>

theorem demotion_spares_new_connections:
  assumes "caches_ok s" "connections s y = Some cs" "(i, e) \<in> set cs" "i \<notin> set snapshot"
    and "ce_kind e \<noteq> Offline" "demote E y snapshot s = (r, t)"
  shows "caches_ok t \<and> (\<exists>k. map_of (presence t) y = Some k \<and> ce_kind e \<le> k) \<and>
    set (conns_of y t) = {c \<in> set cs. fst c \<notin> set snapshot}"
proof -
  let ?left = "foldl (\<lambda>cs i. AList.delete i cs) cs snapshot"
  have left: "set ?left = {c \<in> set cs. fst c \<notin> set snapshot}"
    by (rule foldl_delete)
  then have e: "(i, e) \<in> set ?left"
    using assms(3,4) by simp
  then have "?left \<noteq> []"
    by auto
  then have conns: "connections t y = Some ?left"
    using assms(2,6)
    by (cases "best_of y (prune y snapshot s)") (auto simp: run_demote Let_def refresh_presence_run prune_def)
  have ok: "caches_ok t"
    using keepsD [OF demote_caches assms(1), of E y snapshot] assms(6) by simp
  have best: "ce_kind e \<le> fst (best_of y t)"
    using best_conn_ge [OF e] conns by (simp add: best_of_def)
  then have "fst (best_of y t) \<noteq> Offline"
    using assms(5) by (cases "ce_kind e") (auto simp: less_eq_connection_kind_def)
  moreover have "presence_at y t"
    using ok by (simp add: caches_ok_def presence_ok_def)
  ultimately show ?thesis
    using ok best conns left by (auto simp: presence_at_def conns_of_def)
qed

text \<open>An offline visit: the redial happens exactly when the backoff is due.\<close>

definition backoff_of :: "y7id \<Rightarrow> app \<Rightarrow> backoff" where
  "backoff_of y s = (case reconnect_backoff s y of Some b \<Rightarrow> b | None \<Rightarrow> backoff_ready (os_instant (db_os (app_db s))))"

definition jitter_at :: "ext \<Rightarrow> app \<Rightarrow> int" where
  "jitter_at E s = le_value (rng_bytes E (os_draws (db_os (app_db s))) 8) mod 500"

text \<open>The state in which the search begins.\<close>

definition searching :: "ext \<Rightarrow> y7id \<Rightarrow> app \<Rightarrow> app" where
  "searching E y s =
     (let now = os_instant (db_os (app_db s));
          u = s\<lparr>app_db := (app_db s)\<lparr>db_os := (db_os (app_db s))\<lparr>os_draws := os_draws (db_os (app_db s)) + 1\<rparr>\<rparr>,
                reconnect_backoff := (reconnect_backoff s)(y \<mapsto> backoff_record (backoff_of y s) now (jitter_at E s)),
                app_wire := app_wire s @ [WCheckLive y]\<rparr>
      in if ne_live (app_net s) (app_wire s) y = Inr True then u\<lparr>app_wire := app_wire u @ [WDisconnect y]\<rparr> else u)"

lemma visit_offline_run:
  "visit_offline E y s =
     (let now = os_instant (db_os (app_db s)) in
      if backoff_due (backoff_of y s) now then dial_with_discovery E y (searching E y s)
      else (Inr (), s\<lparr>app_db := (app_db s)\<lparr>db_os := (db_os (app_db s))\<lparr>os_draws := os_draws (db_os (app_db s)) + 1\<rparr>\<rparr>,
                      reconnect_backoff := (reconnect_backoff s)(y \<mapsto> backoff_of y s)\<rparr>))"
proof -
  have j: "draw_jitter E s = (Inr (jitter_at E s),
      s\<lparr>app_db := (app_db s)\<lparr>db_os := (db_os (app_db s))\<lparr>os_draws := os_draws (db_os (app_db s)) + 1\<rparr>\<rparr>\<rparr>)" for s
    by (simp add: draw_jitter_def app_os_def run_on_db on_os_def zoom_def draw_def jitter_at_def)
  show ?thesis
    by (simp add: visit_offline_def andThen_def j redial_due_def seqA_def Let_def backoff_of_def jitter_at_def
        searching_def attempt_def check_live_def net_call_def ignore_def run_net_command split: option.splits)
qed

lemma presence_of_caches: "caches_ok s \<Longrightarrow> presence_of y s = fst (best_of y s)"
  by (auto simp: caches_ok_def presence_ok_def presence_at_def presence_of_def split: if_splits)

text \<open>
  C24. A contact whose socket died is found again: a visit that finds it dead takes every
  connection of its snapshot away, leaves it offline and says so to the user interface; and with
  no backoff pending, as after every connection, the very next visit starts a discovery.
\<close>

theorem dead_peer_is_redialled:
  assumes "caches_ok s" "presence_of y s \<noteq> Offline" "ne_live (app_net s) (app_wire s) y = Inr False"
    and "reconnect_backoff s y = None"
  shows "\<exists>t. visit E y s = (Inr (), t) \<and> caches_ok t \<and> presence_of y t = Offline \<and>
    last (app_events t) = PresenceChanged (to_uri E y) Offline None None OriginUnknown \<and>
    visit E y t = dial_with_discovery E y (searching E y t)"
proof -
  let ?s = "s\<lparr>app_wire := app_wire s @ [WCheckLive y]\<rparr>"
  let ?u = "prune y (known_ids y s) ?s"
  have "attempt (check_live y) s = (Inr (Inr False), ?s)"
    by (simp add: attempt_def check_live_def net_call_def assms(3))
  then have then_live: "andThen (attempt (check_live y)) f s = f (Inr False) ?s" for f :: "app_error + bool \<Rightarrow> (app, unit) action"
    by (simp add: andThen_def)
  have v: "visit E y s = demote E y (known_ids y s) ?s"
    using assms(2) by (cases "presence_of y s")
      (simp_all add: visit_def visit_relayed_def visit_connected_def then_live)
  have "foldl (\<lambda>cs i. AList.delete i cs) cs (map fst cs) = []" for cs :: conns
  proof -
    have "set (foldl (\<lambda>cs i. AList.delete i cs) cs (map fst cs)) = {}"
      unfolding foldl_delete by force
    then show ?thesis
      by simp
  qed
  then have u: "connections ?u y = None" "reconnect_backoff ?u = reconnect_backoff s"
    by (auto simp: prune_def Let_def known_ids_def conns_of_def split: option.splits)
  then have best: "best_of y ?u = (Offline, meta_default)"
    by (simp add: best_of_def)
  obtain t where t: "demote E y (known_ids y s) ?s = (Inr (), t)" "connections t = connections ?u"
    "reconnect_backoff t = reconnect_backoff ?u"
    "last (app_events t) = PresenceChanged (to_uri E y) Offline None None OriginUnknown"
    by (simp add: run_demote Let_def best refresh_presence_run meta_default_def)
  have ok: "caches_ok t"
    using keepsD [OF demote_caches, of ?s E y "known_ids y s"] caches.wire [OF assms(1)] t(1) by simp
  have "presence_of y t = Offline"
    using presence_of_caches [OF ok] t(2) best by (simp add: best_of_def u(1))
  moreover have "visit_offline E y t = dial_with_discovery E y (searching E y t)"
    using t(3) u(2) assms(4)
    by (simp add: visit_offline_run Let_def backoff_of_def backoff_due_def backoff_ready_def)
  ultimately show ?thesis
    using v t ok by (simp add: visit_def)
qed

section \<open>Concrete visits\<close>

theorem demotion_spares_new_connections_witness:
  "\<exists>r t. demote sample_ext bob_y7 [2] two_paths = (r, t) \<and>
     (\<exists>k. map_of (presence t) bob_y7 = Some k \<and> Relayed \<le> k)"
proof -
  obtain r t where run: "demote sample_ext bob_y7 [2] two_paths = (r, t)"
    by fastforce
  from demotion_spares_new_connections [OF two_paths_ok _ _ _ _ run, of _ 1 "path_entry Relayed"] run show ?thesis
    by (simp add: two_paths_def path_entry_def)
qed

definition dead_paths :: app where
  "dead_paths = two_paths\<lparr>app_net := sample_net\<lparr>ne_live := (\<lambda>_ _. Inr False)\<rparr>\<rparr>"

theorem dead_peer_is_redialled_witness:
  "\<exists>t. visit sample_ext bob_y7 dead_paths = (Inr (), t) \<and> presence_of bob_y7 t = Offline"
proof -
  have "caches_ok dead_paths"
    using two_paths_ok by (simp add: cache_defs dead_paths_def)
  moreover have "presence_of bob_y7 dead_paths \<noteq> Offline" "reconnect_backoff dead_paths bob_y7 = None"
    "ne_live (app_net dead_paths) (app_wire dead_paths) bob_y7 = Inr False"
    by (simp_all add: presence_of_def dead_paths_def two_paths_def alice_app_def)
  ultimately show ?thesis
    using dead_peer_is_redialled [of dead_paths bob_y7 sample_ext] by blast
qed

end
