(* ===== verification/Message_Commands.thy ===== *)
theory Message_Commands
  imports Contact_Commands
begin

text \<open>
  The commands on messages (\<open>app/messages.rs\<close>): the decrypted view of a conversation, the send
  that stores a message and spawns its delivery, and the task that delivers it or queues it.
\<close>

section \<open>Reading a conversation\<close>

record message_view =
  mvw_message_id :: string
  mvw_conversation_id :: string
  mvw_sender_y7_id :: string
  mvw_text :: string
  mvw_timestamp_ms :: int
  mvw_status :: int
  mvw_is_mine :: bool

definition view_of :: "ext \<Rightarrow> bytes \<Rightarrow> message \<Rightarrow> string \<Rightarrow> message_view" where
  "view_of E pk m text =
     \<lparr>mvw_message_id = message_id_show E (msg_id m), mvw_conversation_id = to_hex (msg_conv m),
      mvw_sender_y7_id = to_uri E (from_pubkey (msg_sender m)), mvw_text = text,
      mvw_timestamp_ms = msg_timestamp m, mvw_status = message_status_as_i64 (msg_status m),
      mvw_is_mine = (msg_sender m = pk)\<rparr>"

text \<open>A key that is no curve point ends the listing; a text that does not open is shown as such.\<close>

fun view_messages ::
  "ext \<Rightarrow> bytes \<Rightarrow> symmetric_key \<Rightarrow> message list \<Rightarrow> message_view list res" where
  "view_messages E pk key [] = Inr []"
| "view_messages E pk key (m # ms) =
     (case verifying_key_from_bytes E (msg_sender m) of
        Inl e \<Rightarrow> Inl e
      | Inr verifying \<Rightarrow>
          (case open_envelope E (message_envelope_of m) verifying key of
             Inr (Control _) \<Rightarrow> view_messages E pk key ms
           | Inr (Text t) \<Rightarrow>
               bindR (view_messages E pk key ms) (\<lambda>out. Inr (view_of E pk m t # out))
           | Inl _ \<Rightarrow>
               bindR (view_messages E pk key ms)
                 (\<lambda>out. Inr (view_of E pk m ''<decryption failed>'' # out))))"

definition list_messages :: "ext \<Rightarrow> y7id \<Rightarrow> int \<Rightarrow> (app, message_view list) action" where
  "list_messages E y limit =
     andThen (asks my_y7_id) (\<lambda>me. andThen (asks app_me) (\<lambda>key. andThen (asks my_pubkey) (\<lambda>pk.
       let conv = conversation_between E me y in
       andThen (on_db (messages_list_for_conversation conv limit)) (\<lambda>rows.
       andThen (lift_res (derive_conv_key E key (pubkey y) (conv_bytes conv))) (\<lambda>conv_key.
         lift_res (view_messages E pk conv_key rows))))))"

definition debug_clear_outbound_queue :: "ext \<Rightarrow> y7id \<Rightarrow> (app, nat) action" where
  "debug_clear_outbound_queue E y =
     andThen (on_db (queue_due E i64_max 100000)) (\<lambda>due.
       let mine = filter (\<lambda>q. qe_target q = y) due in
       seqA (forA mine (\<lambda>q. on_db (queue_remove E (qe_message q) y)))
         (ret (length mine)))"

section \<open>Sending\<close>

definition too_long :: "string \<Rightarrow> app_error" where
  "too_long text =
     InvalidInput (''message exceeds '' @ show_int max_message_bytes @ '' bytes ('' @
       show_nat (length text) @ '' bytes given)'')"

text \<open>The dash is U+2014 in UTF-8.\<close>

definition no_session :: "ext \<Rightarrow> y7id \<Rightarrow> app_error" where
  "no_session E y =
     InvalidInput (''no established session with '' @ to_uri E y @
       '' '' @ [CHR 0xE2, CHR 0x80, CHR 0x94] @ '' add them as a contact first'')"

definition outgoing ::
  "conversation_id \<Rightarrow> bytes \<Rightarrow> y7id \<Rightarrow> message_id \<Rightarrow> message_envelope \<Rightarrow> int \<Rightarrow> new_message" where
  "outgoing conv pk y i e ts =
     \<lparr>nm_id = i, nm_conv = conv, nm_sender = pk, nm_recipient = pubkey y, nm_timestamp = ts,
      nm_status = Sending, nm_payload = env_ciphertext e, nm_nonce = env_nonce e, nm_sig = env_sig e\<rparr>"

definition send_message :: "ext \<Rightarrow> y7id \<Rightarrow> string \<Rightarrow> (app, message_id) action" where
  "send_message E y text =
     andThen (asks my_y7_id) (\<lambda>me.
       if y = me then throw (InvalidInput ''cannot message yourself'')
       else if max_message_bytes < int (length text) then throw (too_long text)
       else
         andThen (lift_res (peer_id_from_y7 E y)) (\<lambda>p.
         andThen (on_db (sessions_get E y)) (\<lambda>session.
           if session = None then throw (no_session E y)
           else
             (let conv = conversation_between E me y in
              andThen (asks app_me) (\<lambda>key. andThen (asks my_pubkey) (\<lambda>pk.
              andThen (lift_res (derive_conv_key E key (pubkey y) (conv_bytes conv))) (\<lambda>conv_key.
              andThen (app_os (seal_outgoing E key pk conv_key text)) (\<lambda>(i, envelope, ts).
                seqA (discard (on_db (messages_insert (outgoing conv pk y i envelope ts))))
                  (seqA (spawn (PushOne i y p envelope)) (ret i))))))))))"

text \<open>The spawned task: one send under the outer time bound; what is not acknowledged is queued.\<close>

definition push_one :: "ext \<Rightarrow> message_id \<Rightarrow> y7id \<Rightarrow> peer \<Rightarrow> message_envelope \<Rightarrow> (app, unit) action" where
  "push_one E i y p envelope =
     andThen (with_timeout (send_msg p envelope)) (\<lambda>outcome.
       if outcome = Inr (Some True) then
         seqA (ignore (on_db (messages_update_status i Delivered)))
           (emit (MessageStatusChanged (message_id_show E i) Delivered))
       else
         andThen app_now_ms (\<lambda>now.
           ignore (on_db (queue_enqueue E i y (next_retry_at now 0)))))"

section \<open>What a send does\<close>

text \<open>A send either changes nothing but the entropy drawn, or goes through to its end.\<close>

lemma send_message_run:
  assumes "send_message E y text s = (r, t)"
  obtains (refused) e where "r = Inl e" "t = s"
  | (sealed) p key v os where "y \<noteq> my_y7_id s" "int (length text) \<le> max_message_bytes"
      "peer_id_from_y7 E y = Inr p" "\<exists>x. fst (sessions_get E y (app_db s)) = Inr (Some x)"
      "derive_conv_key E (app_me s) (pubkey y) (conv_bytes (conversation_between E (my_y7_id s) y)) = Inr key"
      "seal_outgoing E (app_me s) (my_pubkey s) key text (db_os (app_db s)) = (v, os)"
      "(case v of Inl e \<Rightarrow> (Inl e, s\<lparr>app_db := (app_db s)\<lparr>db_os := os\<rparr>\<rparr>)
        | Inr (i, envelope, ts) \<Rightarrow>
            seqA (discard (on_db (messages_insert (outgoing (conversation_between E (my_y7_id s) y) (my_pubkey s) y i envelope ts))))
              (seqA (spawn (PushOne i y p envelope)) (ret i)) (s\<lparr>app_db := (app_db s)\<lparr>db_os := os\<rparr>\<rparr>)) = (r, t)"
proof -
  let ?conv = "conversation_between E (my_y7_id s) y"
  let ?pre = "y \<noteq> my_y7_id s \<and> int (length text) \<le> max_message_bytes \<and>
    (\<exists>p. peer_id_from_y7 E y = Inr p) \<and> (\<exists>x. fst (sessions_get E y (app_db s)) = Inr (Some x)) \<and>
    (\<exists>key. derive_conv_key E (app_me s) (pubkey y) (conv_bytes ?conv) = Inr key)"
  show ?thesis
  proof (cases ?pre)
    case False
    then have "(\<exists>e. r = Inl e) \<and> t = s"
      using assms by (auto simp: send_message_def andThen_lift_res andThen_read Let_def
          split: if_splits sum.splits option.splits)
    with refused show ?thesis
      by blast
  next
    case True
    then obtain p x key where pre: "y \<noteq> my_y7_id s" "int (length text) \<le> max_message_bytes"
      "peer_id_from_y7 E y = Inr p" "fst (sessions_get E y (app_db s)) = Inr (Some x)"
      "derive_conv_key E (app_me s) (pubkey y) (conv_bytes ?conv) = Inr key"
      by blast
    obtain v os where v: "seal_outgoing E (app_me s) (my_pubkey s) key text (db_os (app_db s)) = (v, os)"
      by fastforce
    show ?thesis
      by (rule sealed [OF pre(1-3) _ pre(5) v])
        (use assms pre v in \<open>auto simp: send_message_def andThen_lift_res andThen_read Let_def run_app_os
          andThen_def [of "app_os m" for m] split: sum.splits\<close>)
  qed
qed

lemma send_message_cases:
  assumes "send_message E y text s = (r, t)"
  obtains (refused) e os where "r = Inl e" "t = s\<lparr>app_db := (app_db s)\<lparr>db_os := os\<rparr>\<rparr>"
  | (sent) i envelope ts p key os d b where "r = Inr i" "y \<noteq> my_y7_id s" "int (length text) \<le> max_message_bytes"
      "peer_id_from_y7 E y = Inr p" "\<exists>x. fst (sessions_get E y (app_db s)) = Inr (Some x)"
      "derive_conv_key E (app_me s) (pubkey y) (conv_bytes (conversation_between E (my_y7_id s) y)) = Inr key"
      "seal_outgoing E (app_me s) (my_pubkey s) key text (db_os (app_db s)) = (Inr (i, envelope, ts), os)"
      "messages_insert (outgoing (conversation_between E (my_y7_id s) y) (my_pubkey s) y i envelope ts)
         ((app_db s)\<lparr>db_os := os\<rparr>) = (Inr b, d)"
      "t = s\<lparr>app_db := d, app_tasks := app_tasks s @ [PushOne i y p envelope]\<rparr>"
  using assms
proof (cases rule: send_message_run)
  case (refused e)
  then show ?thesis
    using that(1) [of e "db_os (app_db s)"] by simp
next
  case (sealed p key v os)
  let ?s = "s\<lparr>app_db := (app_db s)\<lparr>db_os := os\<rparr>\<rparr>"
  show ?thesis
  proof (cases v)
    case (Inl e)
    with sealed(7) that(1) [of e os] show ?thesis
      by auto
  next
    case (Inr w)
    obtain i envelope ts where w: "w = (i, envelope, ts)"
      by (cases w) auto
    obtain ri d where ins: "messages_insert (outgoing (conversation_between E (my_y7_id s) y) (my_pubkey s) y i envelope ts)
        ((app_db s)\<lparr>db_os := os\<rparr>) = (ri, d)"
      by fastforce
    show ?thesis
    proof (cases ri)
      case (Inl e)
      then have "d = (app_db s)\<lparr>db_os := os\<rparr>"
        using ins by (auto simp: messages_insert_def stmt_def andThen_def split: option.splits)
      with sealed(7) Inr w ins Inl that(1) [of e os] show ?thesis
        by (auto simp: seqA_def discard_def andThen_def run_on_db)
    next
      case (Inr b)
      with sealed \<open>v = Inr w\<close> w ins show ?thesis
        by (intro that(2) [of i p key envelope ts os b d])
          (auto simp: seqA_def discard_def andThen_def run_on_db)
    qed
  qed
qed

text \<open>
  C39. A send that is refused leaves no trace: a message to oneself, one that is longer than the
  bound, one to a peer without a session, and one for which any later step fails, stores nothing,
  sends nothing, spawns nothing and announces nothing; the first three are refused with the
  error that says so.
\<close>

theorem send_message_refused:
  "(y = my_y7_id s \<longrightarrow> send_message E y text s = (Inl (InvalidInput ''cannot message yourself''), s)) \<and>
   (y \<noteq> my_y7_id s \<and> max_message_bytes < int (length text) \<longrightarrow>
      send_message E y text s = (Inl (too_long text), s)) \<and>
   (y \<noteq> my_y7_id s \<and> int (length text) \<le> max_message_bytes \<and> peer_id_from_y7 E y = Inr p \<and>
      fst (sessions_get E y (app_db s)) = Inr None \<longrightarrow>
      send_message E y text s = (Inl (no_session E y), s)) \<and>
   (\<forall>e t. send_message E y text s = (Inl e, t) \<longrightarrow> (\<exists>os. t = s\<lparr>app_db := (app_db s)\<lparr>db_os := os\<rparr>\<rparr>))"
proof (intro conjI allI impI)
  fix e t assume "send_message E y text s = (Inl e, t)"
  then show "\<exists>os. t = s\<lparr>app_db := (app_db s)\<lparr>db_os := os\<rparr>\<rparr>"
    by (cases rule: send_message_cases) auto
qed (simp_all add: send_message_def andThen_lift_res andThen_read)

text \<open>The status of a stored message.\<close>

definition message_status_in :: "app \<Rightarrow> bytes \<Rightarrow> int option" where
  "message_status_in s i = map_option mr_status (find_row mr_id i (messages_of s))"

text \<open>The delivery task: acknowledged and marked, or queued.\<close>

lemma push_acknowledged:
  assumes "\<not> ne_timeout (app_net t) (app_wire t)" "ne_msg (app_net t) (app_wire t) p e = Inr True"
    and "db_fault (app_db t) ''messages.update_status'' = None" "message_status_in t (mid_bytes i) = Some n"
  shows "\<exists>u. push_one E i y p e t = (Inr (), u) \<and> message_status_in u (mid_bytes i) = Some 2"
proof -
  let ?u = "t\<lparr>app_wire := app_wire t @ [WSendMsg p e]\<rparr>"
  have "push_one E i y p e t =
      seqA (ignore (on_db (messages_update_status i Delivered)))
        (emit (MessageStatusChanged (message_id_show E i) Delivered)) ?u"
    using assms(1,2) by (simp add: push_one_def andThen_def with_timeout_def send_msg_def net_call_def)
  moreover obtain z where "find_row mr_id (mid_bytes i) (messages_of t) = Some z" "mr_id z = mid_bytes i"
    using assms(4) by (auto simp: message_status_in_def dest: find_row_SomeD)
  then have "message_status_in (snd (on_db (messages_update_status i Delivered) ?u)) (mid_bytes i) = Some 2"
    using assms(3) by (simp add: message_status_in_def messages_of_def run_on_db messages_update_status_def
        execute_state find_row_update_where)
  ultimately show ?thesis
    by (simp add: seqA_def andThen_def ignore_def message_status_in_def messages_of_def)
qed

lemma push_unacknowledged:
  assumes "ne_timeout (app_net t) (app_wire t) \<or> ne_msg (app_net t) (app_wire t) p e \<noteq> Inr True"
    and "db_fault (app_db t) ''sync_queue.enqueue'' = None"
  shows "\<exists>u. push_one E i y p e t = (Inr (), u) \<and> has_key queue_key (mid_bytes i, to_uri E y) (queue_of u)"
proof -
  have "push_one E i y p e t =
      andThen app_now_ms (\<lambda>now. ignore (on_db (queue_enqueue E i y (next_retry_at now 0))))
        (t\<lparr>app_wire := app_wire t @ [WSendMsg p e]\<rparr>)"
    using assms(1)
    by (auto simp: push_one_def andThen_def with_timeout_def send_msg_def net_call_def split: sum.splits)
  then show ?thesis
    using assms(2) by (simp add: andThen_def ignore_def run_on_db queue_enqueue_def execute_def stmt_def
        queue_of_def queue_rows.has_key_upsert queue_key_def)
qed

text \<open>What a successful send leaves behind.\<close>

lemma send_message_stores:
  assumes "send_message E y text s = (Inr i, t)" "\<not> has_key mr_id (mid_bytes i) (messages_of s)"
  shows "message_status_in t (mid_bytes i) = Some 0" "\<exists>p e. app_tasks t = app_tasks s @ [PushOne i y p e]"
    "db_fault (app_db t) = db_fault (app_db s)"
proof -
  have "message_status_in t (mid_bytes i) = Some 0 \<and> (\<exists>p e. app_tasks t = app_tasks s @ [PushOne i y p e]) \<and>
      db_fault (app_db t) = db_fault (app_db s)"
    using assms(1)
  proof (cases rule: send_message_cases)
    case (sent i' envelope ts p key os d b)
    have "find_row mr_id (mid_bytes i) (messages_of s) = None"
      using assms(2) by (simp add: find_row_None_iff)
    with sent messages_insert_Inr(3) [OF sent(8)] assms(2) show ?thesis
      by (simp add: message_status_in_def messages_of_def insert_or_ignore_def outgoing_def
          find_row_append message_new_row_def)
  qed simp
  then show "message_status_in t (mid_bytes i) = Some 0" "\<exists>p e. app_tasks t = app_tasks s @ [PushOne i y p e]"
    "db_fault (app_db t) = db_fault (app_db s)"
    by blast+
qed

text \<open>
  C6. No message that was taken is lost: after a successful send the message is stored under
  its id with the status \<open>Sending\<close> and its delivery is spawned; and when that task runs, on a
  store that works, whatever the network does and whether or not the outer time bound fires,
  either the peer acknowledged the message and its status is \<open>Delivered\<close>, or the retry queue
  holds it.
\<close>

theorem sent_message_never_lost:
  assumes "send_message E y text s = (Inr i, t)" "\<And>l. db_fault (app_db s) l = None"
    and "\<not> has_key mr_id (mid_bytes i) (messages_of s)"
  shows "message_status_in t (mid_bytes i) = Some 0 \<and>
    (\<exists>p e. app_tasks t = app_tasks s @ [PushOne i y p e] \<and>
       (\<exists>u. push_one E i y p e t = (Inr (), u) \<and>
          ((ne_msg (app_net t) (app_wire t) p e = Inr True \<and> message_status_in u (mid_bytes i) = Some 2) \<or>
           has_key queue_key (mid_bytes i, to_uri E y) (queue_of u))))"
proof -
  note f = send_message_stores [OF assms(1,3)]
  then obtain p e where "app_tasks t = app_tasks s @ [PushOne i y p e]"
    by blast
  moreover have "\<exists>u. push_one E i y p e t = (Inr (), u) \<and>
      ((ne_msg (app_net t) (app_wire t) p e = Inr True \<and> message_status_in u (mid_bytes i) = Some 2) \<or>
       has_key queue_key (mid_bytes i, to_uri E y) (queue_of u))"
    using push_acknowledged [of t p e i 0 E y] push_unacknowledged [of t p e E i y] f assms(2) by fastforce
  ultimately show ?thesis
    using f(1) by blast
qed

section \<open>What was sent is what is shown\<close>

lemma outgoing_decodes:
  assumes "length (mid_bytes i) = 16" "length (conv_bytes conv) = 16" "length pk = 32" "length (pubkey y) = 32"
    and "length (env_nonce e) = 12" "length (env_sig e) = 64"
  shows "message_decode (message_new_row now (outgoing conv pk y i e ts)) =
    Inr \<lparr>msg_id = i, msg_conv = conv, msg_sender = pk, msg_recipient = pubkey y, msg_timestamp = ts,
      msg_status = Sending, msg_payload = env_ciphertext e, msg_nonce = env_nonce e, msg_sig = env_sig e,
      msg_inserted_at = now\<rparr>"
  using assms by (simp add: message_decode_Inr_iff message_new_row_def outgoing_def)

lemma messages_list_run:
  "fst (messages_list_for_conversation conv n d) =
     (case db_fault d ''messages.list'' of
        Some e \<Rightarrow> Inl (storage_error ''messages.list'' e)
      | None \<Rightarrow> traverseR message_decode (limit_rows n (order_by mr_timestamp
                  (filter (\<lambda>r. mr_conv r = conv_bytes conv) (t_messages (db_tables d))))))"
  by (simp add: messages_list_for_conversation_def query_def stmt_def andThen_def split: option.splits)

lemma traverseR_hit: "traverseR f xs = Inr ys \<Longrightarrow> x \<in> set xs \<Longrightarrow> \<exists>y \<in> set ys. f x = Inr y"
  by (auto simp: traverseR_Inr_iff list_all2_conv_all_nth in_set_conv_nth)

lemma view_messages_in:
  assumes "view_messages E pk key ms = Inr views" "m \<in> set ms"
    and "verifying_key_from_bytes E (msg_sender m) = Inr vk"
    and "open_envelope E (message_envelope_of m) vk key = Inr (Text t)"
  shows "view_of E pk m t \<in> set views"
  using assms
proof (induction ms arbitrary: views)
  case (Cons m' ms)
  then show ?case
    by (auto simp: bindR_Inr_iff split: sum.splits plaintext_kind.splits)
qed simp

text \<open>The row that a successful send appends, decoded.\<close>

lemma sent_row:
  assumes "ext_laws E" "identity_ok E s" "signing_key_ok b"
    and "send_message E (Y7Id (public_of E b)) text s = (Inr i, t)"
    and "\<not> has_key mr_id (mid_bytes i) (messages_of s)"
  obtains r m os os' key ts where "messages_of t = messages_of s @ [r]" "message_decode r = Inr m"
    "msg_id m = i" "msg_sender m = my_pubkey s"
    "mr_conv r = conv_bytes (conversation_between E (my_y7_id s) (Y7Id (public_of E b)))"
    "derive_conv_key E (app_me s) (public_of E b)
       (conv_bytes (conversation_between E (my_y7_id s) (Y7Id (public_of E b)))) = Inr key"
    "seal_kind E (app_me s) (public_of E (app_me s)) key (tag_text # as_bytes text) os =
       (Inr (i, message_envelope_of m, ts), os')"
    "my_y7_id t = my_y7_id s" "app_me t = app_me s" "my_pubkey t = my_pubkey s"
    "db_fault (app_db t) = db_fault (app_db s)"
  using assms(4)
proof (cases rule: send_message_cases)
  case (sent i' e ts p key os d inserted)
  let ?y = "Y7Id (public_of E b)"
  let ?conv = "conversation_between E (my_y7_id s) ?y"
  let ?new = "outgoing ?conv (my_pubkey s) ?y i e ts"
  have i: "i' = i"
    using sent(1) by simp
  have id: "signing_key_ok (app_me s)" "my_pubkey s = public_of E (app_me s)"
    using assms(2) by (simp_all add: identity_ok_def)
  have sealed: "seal_kind E (app_me s) (public_of E (app_me s)) key (tag_text # as_bytes text) (db_os (app_db s)) =
      (Inr (i, e, ts), os)"
    using sent(7) id(2) by (simp add: i seal_outgoing_def)
  have e: "envelope_ok e"
    by (rule sealed_envelope_ok [OF assms(1) id(1) sealed])
  note f = seal_kind_Inr [OF sealed]
  let ?m = "\<lparr>msg_id = i, msg_conv = ?conv, msg_sender = my_pubkey s, msg_recipient = pubkey ?y, msg_timestamp = ts,
      msg_status = Sending, msg_payload = env_ciphertext e, msg_nonce = env_nonce e, msg_sig = env_sig e,
      msg_inserted_at = os_now os\<rparr>"
  have "message_decode (message_new_row (os_now os) ?new) = Inr ?m"
    using e f assms(3) id
    by (intro outgoing_decodes) (simp_all add: envelope_ok_def length_public_of ext_lawsD(3) [OF assms(1)]
        length_conversation_between ext_lawsD(2) [OF assms(1)])
  moreover have "messages_of t = messages_of s @ [message_new_row (os_now os) ?new]"
    using messages_insert_Inr(3) [OF sent(8)] sent(9) assms(5)
    by (simp add: i messages_of_def insert_or_ignore_def outgoing_def)
  moreover have "message_envelope_of ?m = e"
    using f id by (simp add: message_envelope_of_def)
  moreover have "db_fault (app_db t) = db_fault (app_db s)"
    using messages_insert_Inr(3) [OF sent(8)] sent(9) by simp
  ultimately show ?thesis
    using that [of "message_new_row (os_now os) ?new" ?m key "db_os (app_db s)" ts os] sealed sent(6,9)
    by (simp add: message_new_row_def outgoing_def)
qed simp

text \<open>The envelope that the delivery task carries.\<close>

lemma sent_envelope:
  assumes "identity_ok E s" "send_message E y text s = (Inr i, t)"
  obtains p e key os os' ts where "app_tasks t = app_tasks s @ [PushOne i y p e]"
    "peer_id_from_y7 E y = Inr p" "y \<noteq> my_y7_id s"
    "env_message_id e = mid_bytes i" "env_sender_pub e = my_pubkey s" "int (length text) \<le> max_message_bytes"
    "derive_conv_key E (app_me s) (pubkey y) (conv_bytes (conversation_between E (my_y7_id s) y)) = Inr key"
    "seal_kind E (app_me s) (public_of E (app_me s)) key (tag_text # as_bytes text) os = (Inr (i, e, ts), os')"
  using assms(2)
proof (cases rule: send_message_cases)
  case (sent i' e ts p key os d b)
  then have "seal_kind E (app_me s) (public_of E (app_me s)) key (tag_text # as_bytes text) (db_os (app_db s)) =
      (Inr (i, e, ts), os)"
    using assms(1) by (simp add: seal_outgoing_def identity_ok_def)
  from that [of p e key "db_os (app_db s)" ts os] seal_kind_Inr(4,5) [OF this] this sent assms(1) show ?thesis
    by (simp add: identity_ok_def)
qed simp

text \<open>A row of the conversation that opens as a text is in every listing long enough to hold it.\<close>

lemma row_is_listed:
  assumes "list_messages E y limit t = (Inr views, u)" "int (length (messages_of t)) \<le> limit"
    and "r \<in> set (messages_of t)" "mr_conv r = conv_bytes (conversation_between E (my_y7_id t) y)"
    and "message_decode r = Inr m" "verifying_key_from_bytes E (msg_sender m) = Inr vk"
    and "derive_conv_key E (app_me t) (pubkey y) (conv_bytes (conversation_between E (my_y7_id t) y)) = Inr key"
    and "open_envelope E (message_envelope_of m) vk key = Inr (Text text)"
  shows "view_of E (my_pubkey t) m text \<in> set views"
proof -
  let ?conv = "conversation_between E (my_y7_id t) y"
  let ?rows = "order_by mr_timestamp (filter (\<lambda>r. mr_conv r = conv_bytes ?conv) (messages_of t))"
  have "int (length (filter (\<lambda>r. mr_conv r = conv_bytes ?conv) (messages_of t))) \<le> limit"
    using length_filter_le [of "\<lambda>r. mr_conv r = conv_bytes ?conv" "messages_of t"] assms(2) by linarith
  then have "limit_rows limit ?rows = ?rows"
    by (simp add: limit_rows_def order_by_def)
  then obtain ms where ms: "traverseR message_decode ?rows = Inr ms"
    and views: "view_messages E (my_pubkey t) key ms = Inr views"
    using assms(1,7)
    by (auto simp: list_messages_def Let_def andThen_read snd_on_db_read andThen_lift_res messages_list_run
        messages_of_def split: option.splits sum.splits)
  have "r \<in> set ?rows"
    using assms(3,4) by simp
  then have "m \<in> set ms"
    using traverseR_hit [OF ms] assms(5) by fastforce
  then show ?thesis
    using view_messages_in [OF views _ assms(6,8)] by blast
qed

text \<open>
  C36. What was sent is what is shown: once a send of a text has succeeded, every listing of the
  conversation that succeeds and is long enough to hold it contains a message with that id, that
  very text, and marked as ours: the store and the encryption lose nothing.
\<close>

theorem sent_text_is_listed:
  assumes "ext_laws E" "identity_ok E s" "signing_key_ok b" "is_str text"
    and "send_message E (Y7Id (public_of E b)) text s = (Inr i, t)"
    and "\<not> has_key mr_id (mid_bytes i) (messages_of s)" "int (length (messages_of t)) \<le> limit"
    and "list_messages E (Y7Id (public_of E b)) limit t = (Inr views, u)"
  shows "\<exists>v \<in> set views. mvw_message_id v = message_id_show E i \<and> mvw_text v = text \<and> mvw_is_mine v"
proof -
  let ?conv = "conversation_between E (my_y7_id s) (Y7Id (public_of E b))"
  obtain r m os os' key ts where r: "messages_of t = messages_of s @ [r]" "message_decode r = Inr m"
    "msg_id m = i" "msg_sender m = my_pubkey s" "mr_conv r = conv_bytes ?conv"
    and key: "derive_conv_key E (app_me s) (public_of E b) (conv_bytes ?conv) = Inr key"
    and sealed: "seal_kind E (app_me s) (public_of E (app_me s)) key (tag_text # as_bytes text) os =
       (Inr (i, message_envelope_of m, ts), os')"
    and same: "my_y7_id t = my_y7_id s" "app_me t = app_me s" "my_pubkey t = my_pubkey s"
    by (rule sent_row [OF assms(1-3,5,6)]) blast
  have id: "signing_key_ok (app_me s)" "my_pubkey s = public_of E (app_me s)"
    using assms(2) by (simp_all add: identity_ok_def)
  have opens: "open_envelope E (message_envelope_of m) (VerifyingKey (public_of E (app_me s))) key = Inr (Text text)"
    using open_sealed [OF assms(1) id(1) sealed] open_plaintext_text [OF assms(4)] by simp
  have vk: "verifying_key_from_bytes E (msg_sender m) = Inr (VerifyingKey (public_of E (app_me s)))"
    using verifying_key_of_public [OF ext_lawsD(3) [OF assms(1)] id(1)] id(2) r(4) by simp
  have "view_of E (my_pubkey t) m text \<in> set views"
    by (rule row_is_listed [OF assms(8,7) _ _ r(2) vk _ opens]) (simp_all add: r key same)
  then show ?thesis
    using r(3,4) same by (intro bexI) (simp_all add: view_of_def)
qed

section \<open>Concrete sends\<close>

theorem send_message_refused_witness:
  "send_message sample_ext (Y7Id (public_of sample_ext alice)) ''hi'' (alice_app sample_db) =
     (Inl (InvalidInput ''cannot message yourself''), alice_app sample_db)"
proof -
  have "Y7Id (public_of sample_ext alice) = my_y7_id (alice_app sample_db)"
    by (simp add: alice_app_def)
  then show ?thesis
    by (rule send_message_refused [THEN conjunct1, THEN mp])
qed

lemma send_message_total:
  assumes "ext_laws E" "signing_key_ok b" "clock_ok s" "\<And>l. db_fault (app_db s) l = None"
    and "Y7Id (public_of E b) \<noteq> my_y7_id s" "int (length text) \<le> max_message_bytes"
    and "fst (sessions_get E (Y7Id (public_of E b)) (app_db s)) = Inr (Some x)"
    and "peer_id_from_y7 E (Y7Id (public_of E b)) = Inr p"
  shows "\<exists>i t. send_message E (Y7Id (public_of E b)) text s = (Inr i, t)"
proof -
  let ?y = "Y7Id (public_of E b)"
  let ?conv = "conversation_between E (my_y7_id s) ?y"
  obtain k where k: "derive_conv_key E (app_me s) (public_of E b) (conv_bytes ?conv) = Inr (SymmetricKey k)"
    by (rule derive_conv_key_ok [OF assms(1,2)])
  have "length (tag_text # as_bytes text) < 2 ^ 38 - 64"
    using assms(6) by (simp add: max_message_bytes_def)
  then obtain i e ts os where sealed: "seal_outgoing E (app_me s) (my_pubkey s) (SymmetricKey k) text
      (db_os (app_db s)) = (Inr (i, e, ts), os)"
    using seal_kind_total [OF assms(1)] assms(3) unfolding clock_ok_def seal_outgoing_def by metis
  have "\<exists>b d. messages_insert (outgoing ?conv (my_pubkey s) ?y i e ts) ((app_db s)\<lparr>db_os := os\<rparr>) = (Inr b, d)"
    using assms(4) by (simp add: messages_insert_def stmt_def andThen_def)
  then show ?thesis
    using assms(5-8) k sealed
    by (auto simp: send_message_def andThen_lift_res andThen_read Let_def run_app_os
        andThen_def [of "app_os m" for m] seqA_def discard_def andThen_def [of "on_db m" for m] run_on_db
        andThen_def [of "andThen m f" for m f] andThen_def [of "spawn a" for a])
qed

lemma knows_bob_id:
  "identity_ok sample_ext (knows_bob st)" "clock_ok (knows_bob st)" "db_fault (app_db (knows_bob st)) l = None"
  by (simp_all add: identity_ok_def knows_bob_def alice_app_def alice_bob_ok clock_ok_def
      sample_db_def sample_os_def)

lemma knows_bob_sends:
  "\<exists>i t. send_message sample_ext bob_y7 ''hi'' (knows_bob Accepted) = (Inr i, t)"
proof -
  obtain x where x: "fst (sessions_get sample_ext bob_y7 (app_db (knows_bob Accepted))) = Inr (Some x)"
    using knows_bob_reads(1) by blast
  have "bob_y7 \<noteq> my_y7_id (knows_bob Accepted)"
    by (simp add: knows_bob_def alice_app_def) code_simp
  then show ?thesis
    using send_message_total [OF sample_ext_laws alice_bob_ok(2), of "knows_bob Accepted" "''hi''"]
      knows_bob_id(2,3) x bob_y7_ok(3)
    by (simp add: bob_y7_def max_message_bytes_def)
qed

theorem sent_message_never_lost_witness:
  "\<exists>i t. send_message sample_ext bob_y7 ''hi'' (knows_bob Accepted) = (Inr i, t) \<and>
     message_status_in t (mid_bytes i) = Some 0"
proof -
  obtain i t where run: "send_message sample_ext bob_y7 ''hi'' (knows_bob Accepted) = (Inr i, t)"
    using knows_bob_sends by blast
  moreover have "db_fault (app_db (knows_bob Accepted)) l = None" for l
    by (simp add: knows_bob_def alice_app_def sample_db_def)
  ultimately show ?thesis
    using sent_message_never_lost [OF run] by (simp add: knows_bob_before has_key_def)
qed

theorem sent_text_is_listed_witness:
  "\<exists>i t views u. send_message sample_ext bob_y7 ''hi'' (knows_bob Accepted) = (Inr i, t) \<and>
     list_messages sample_ext bob_y7 50 t = (Inr views, u) \<and> (\<exists>v \<in> set views. mvw_text v = ''hi'')"
proof -
  let ?s = "knows_bob Accepted"
  let ?conv = "conversation_between sample_ext (my_y7_id ?s) bob_y7"
  obtain i t where run: "send_message sample_ext bob_y7 ''hi'' ?s = (Inr i, t)"
    using knows_bob_sends by blast
  have fresh: "\<not> has_key mr_id (mid_bytes i) (messages_of ?s)"
    by (simp add: knows_bob_before has_key_def)
  obtain r m os os' key ts where r: "messages_of t = messages_of ?s @ [r]" "message_decode r = Inr m"
    "msg_sender m = my_pubkey ?s" "mr_conv r = conv_bytes ?conv"
    "derive_conv_key sample_ext (app_me ?s) (public_of sample_ext bob) (conv_bytes ?conv) = Inr key"
    "my_y7_id t = my_y7_id ?s" "app_me t = app_me ?s" "my_pubkey t = my_pubkey ?s"
    "db_fault (app_db t) = db_fault (app_db ?s)"
    unfolding bob_y7_def
    by (rule sent_row [OF sample_ext_laws knows_bob_id(1) alice_bob_ok(2) run [unfolded bob_y7_def] fresh]) blast
  have "verifying_key_from_bytes sample_ext (msg_sender m) = Inr (VerifyingKey (public_of sample_ext alice))"
    using verifying_key_of_public [OF sample_ed alice_bob_ok(1)] r(3) by (simp add: knows_bob_def alice_app_def)
  then have "\<exists>views. view_messages sample_ext (my_pubkey ?s) key [m] = Inr views"
    by (simp split: sum.splits plaintext_kind.splits)
  moreover have "messages_of t = [r]"
    using r(1) by (simp add: knows_bob_before)
  ultimately obtain views where l: "list_messages sample_ext bob_y7 50 t = (Inr views, t)"
    using r by (auto simp: list_messages_def Let_def andThen_read snd_on_db_read andThen_lift_res messages_list_run
        messages_of_def knows_bob_id(3) limit_rows_def order_by_def bob_y7_def)
  have one: "int (length (messages_of t)) \<le> 50"
    using \<open>messages_of t = [r]\<close> by simp
  have "is_str ''hi''"
    by code_simp
  from sent_text_is_listed [OF sample_ext_laws knows_bob_id(1) alice_bob_ok(2) this run [unfolded bob_y7_def]
      fresh one l [unfolded bob_y7_def]]
  show ?thesis
    using run l by blast
qed

text \<open>
  The listing keeps the first messages of a conversation: beyond the limit it is the newest ones
  that are left out.
\<close>

lemma listing_omits_newest:
  assumes "messages_list_for_conversation conv limit d = (Inr ms, d')"
    and "r \<in> set (t_messages (db_tables d))" "mr_conv r = conv_bytes conv"
    and "mr_id r \<notin> (\<lambda>m. mid_bytes (msg_id m)) ` set ms" "m \<in> set ms"
  shows "msg_timestamp m \<le> mr_timestamp r"
proof -
  let ?all = "order_by mr_timestamp (filter (\<lambda>r. mr_conv r = conv_bytes conv) (t_messages (db_tables d)))"
  have ms: "traverseR message_decode (limit_rows limit ?all) = Inr ms"
    using assms(1) messages_list_run [of conv limit d] by (simp split: option.splits)
  have all: "?all = limit_rows limit ?all @ drop (length (limit_rows limit ?all)) ?all"
    by (simp add: limit_rows_def min_def)
  obtain q where q: "q \<in> set (limit_rows limit ?all)" "message_decode q = Inr m"
    using traverseR_in [OF ms assms(5)] by blast
  have "r \<in> set ?all"
    using assms(2,3) by simp
  moreover have "r \<notin> set (limit_rows limit ?all)"
  proof
    assume "r \<in> set (limit_rows limit ?all)"
    then obtain m' where "m' \<in> set ms" "message_decode r = Inr m'"
      using traverseR_hit [OF ms] by blast
    then show False
      using assms(4) message_decode_id by (metis image_eqI)
  qed
  ultimately have "r \<in> set (drop (length (limit_rows limit ?all)) ?all)"
    using all by (metis Un_iff set_append)
  moreover have "sorted (map mr_timestamp (limit_rows limit ?all @ drop (length (limit_rows limit ?all)) ?all))"
    unfolding all [symmetric] by (rule sorted_order_by)
  ultimately have "mr_timestamp q \<le> mr_timestamp r"
    using q(1) by (simp add: sorted_append)
  then show ?thesis
    using q(2) by (simp add: message_decode_Inr_iff)
qed

end
