(* ===== verification/Swarm.thy ===== *)
theory Swarm
  imports Net_Handle Multiaddr "HOL-Library.AList"
begin

text \<open>
  The network task (\<open>y7ke-net/src/swarm.rs\<close>): what it remembers, how it turns commands and
  libp2p events into calls of libp2p, answers and events, and its loop.

  libp2p is a parameter. Every call of it, every answer through a \<open>oneshot\<close> and every published
  event is a deed, and the deeds are logged in order; what a call returns is a function of the
  log before it and of the call. Log output, and results that the code only logs, are left out.
  A hash map that the code iterates over, or whose contents are counted here, is an association
  list.
\<close>

section \<open>libp2p\<close>

type_synonym listener_id = nat
type_synonym request_id = nat
type_synonym query_id = nat

datatype kad_mode = KadClient | KadServer

datatype reply =
    ReplyBool "bool res"
  | ReplyAddrs "maddr list res"
  | ReplyHandshake "handshake_resp res"
  | ReplyMsg "bool res"
  | ReplySync "sync_resp res"

text \<open>\<open>DialPeer\<close> is a dial that is made only when the peer is neither connected nor being dialled.\<close>

datatype deed =
    DialPeer peer "maddr list"
  | DialAddr maddr
  | AddPeerAddress peer maddr
  | ListenOn maddr
  | RemoveListener listener_id
  | DisconnectPeerId peer
  | KadAddAddress peer maddr
  | KadBootstrap
  | KadSetMode kad_mode
  | KadGetProviders peer
  | KadStartProviding peer
  | RequestHandshake peer handshake_req
  | RequestMsg peer message_envelope
  | RequestSync peer sync_req
  | SentHandshake channel handshake_resp
  | SentMsg channel bool
  | SentSync channel sync_resp
  | Reply slot reply
  | Published net_event

datatype dial_error =
    DialPeerConditionFalse (dial_error_text: string)
  | NoAddresses (dial_error_text: string)
  | OtherDialError (dial_error_text: string)

record libp2p =
  lp_local_peer :: peer
  lp_dial :: "deed list \<Rightarrow> deed \<Rightarrow> dial_error option"
  lp_connected :: "deed list \<Rightarrow> peer \<Rightarrow> bool"
  lp_listen :: "deed list \<Rightarrow> maddr \<Rightarrow> string + listener_id"
  lp_request :: "deed list \<Rightarrow> request_id"
  lp_query :: "deed list \<Rightarrow> query_id"
  lp_provide :: "deed list \<Rightarrow> string option"

text \<open>libp2p never gives out the id of a request or of a query again.\<close>

definition never_again :: "(deed list \<Rightarrow> nat) \<Rightarrow> bool" where
  "never_again give \<longleftrightarrow> (\<forall>h h'. length h \<noteq> length h' \<longrightarrow> give h \<noteq> give h')"

definition fresh_ids :: "libp2p \<Rightarrow> bool" where
  "fresh_ids L \<longleftrightarrow> never_again (lp_request L) \<and> never_again (lp_query L)"

datatype mdns_event = MdnsDiscovered "(peer \<times> maddr) list" | MdnsExpired "(peer \<times> maddr) list"

datatype query_result = FoundProviders "peer list" | OtherResult

datatype kad_event =
    RoutingUpdated peer "maddr list"
  | OutboundQueryProgressed query_id query_result bool
  | OtherKadEvent

datatype identify_event = IdentifyReceived peer "maddr list" | OtherIdentifyEvent

datatype ('q, 'r) rr_event =
    RrRequest peer 'q channel
  | RrResponse request_id 'r
  | RrOutboundFailure request_id string
  | RrInboundFailure peer request_id string
  | RrResponseSent

datatype swarm_event =
    NewListenAddr maddr
  | SwarmEstablished peer connection_id connected_point
  | SwarmClosed peer connection_id
  | OutgoingConnectionError "peer option" string
  | MdnsEvent mdns_event
  | IdentifyEvent identify_event
  | PingEvent
  | HandshakeEvent "(handshake_req, handshake_resp) rr_event"
  | MsgEvent "(message_envelope, bool) rr_event"
  | SyncEvent "(sync_req, sync_resp) rr_event"
  | KadEvent kad_event
  | RelayClientEvent
  | DcutrEvent peer "string + connection_id"
  | AutonatEvent maddr peer bool
  | OtherSwarmEvent

section \<open>The state of the task\<close>

record swarm_task =
  lp :: libp2p
  deeds :: "deed list"
  address_book :: "peer \<rightharpoonup> maddr list"
  pending_handshake :: "(request_id \<times> slot) list"
  pending_msg :: "(request_id \<times> slot) list"
  pending_sync :: "(request_id \<times> slot) list"
  pending_find_peer :: "(query_id \<times> peer \<times> slot) list"
  provided_self :: bool
  bootstrap_peers :: "(peer \<times> maddr list) list"
  relay_reserved :: "peer set"
  circuit_listeners :: "(peer \<times> listener_id) list"
  live_mode :: dial_mode

definition swarm_call :: "deed \<Rightarrow> (libp2p \<Rightarrow> deed list \<Rightarrow> 'a) \<Rightarrow> (swarm_task, 'a) action" where
  "swarm_call d answer s = (Inr (answer (lp s) (deeds s)), s\<lparr>deeds := deeds s @ [d]\<rparr>)"

definition swarm_do :: "deed \<Rightarrow> (swarm_task, unit) action" where
  "swarm_do d = swarm_call d (\<lambda>_ _. ())"

definition swarm_dial :: "deed \<Rightarrow> (swarm_task, dial_error option) action" where
  "swarm_dial d = swarm_call d (\<lambda>L h. lp_dial L h d)"

definition is_connected :: "peer \<Rightarrow> swarm_task \<Rightarrow> bool" where
  "is_connected p s = lp_connected (lp s) (deeds s) p"

definition publish :: "net_event \<Rightarrow> (swarm_task, unit) action" where
  "publish e = swarm_do (Published e)"

definition answer_slot :: "slot \<Rightarrow> reply \<Rightarrow> (swarm_task, unit) action" where
  "answer_slot k r = swarm_do (Reply k r)"

definition known_addrs :: "peer \<Rightarrow> swarm_task \<Rightarrow> maddr list" where
  "known_addrs p s = (case address_book s p of Some as \<Rightarrow> as | None \<Rightarrow> [])"

definition max_addrs_per_peer :: nat where
  "max_addrs_per_peer = 16"

definition remember_addr :: "maddr \<Rightarrow> maddr list \<Rightarrow> maddr list" where
  "remember_addr a as =
     (if a \<in> set as then as
      else let as' = as @ [a] in if length as' > max_addrs_per_peer then drop 1 as' else as')"

definition remember_address :: "peer \<Rightarrow> maddr \<Rightarrow> (swarm_task, unit) action" where
  "remember_address p a =
     modify (\<lambda>s. s\<lparr>address_book := (address_book s)(p \<mapsto> remember_addr a (known_addrs p s))\<rparr>)"

text \<open>The bootstrap addresses, grouped by peer; those without a peer id are skipped.\<close>

definition add_bootstrap :: "(peer \<times> maddr list) list \<Rightarrow> maddr \<Rightarrow> (peer \<times> maddr list) list" where
  "add_bootstrap next a =
     (case peer_id_from_multiaddr a of
        None \<Rightarrow> next
      | Some p \<Rightarrow>
          (let as = (case map_of next p of Some as \<Rightarrow> as | None \<Rightarrow> [])
           in AList.update p (if a \<in> set as then as else as @ [a]) next))"

definition group_bootstraps :: "maddr list \<Rightarrow> (peer \<times> maddr list) list" where
  "group_bootstraps as = foldl add_bootstrap [] as"

definition seed_kad :: "peer \<times> maddr list \<Rightarrow> (swarm_task, unit) action" where
  "seed_kad b = forA (snd b) (\<lambda>a. swarm_do (KadAddAddress (fst b) a))"

text \<open>A dial whose outcome is only logged.\<close>

definition dial_bootstrap :: "peer \<times> maddr list \<Rightarrow> (swarm_task, unit) action" where
  "dial_bootstrap b = discard (swarm_dial (DialPeer (fst b) (snd b)))"

definition reconnect_lost_bootstraps :: "(swarm_task, unit) action" where
  "reconnect_lost_bootstraps =
     andThen (asks bootstrap_peers) (\<lambda>bs. forA bs (\<lambda>b.
       andThen (asks (is_connected (fst b))) (\<lambda>up. if up then ret () else dial_bootstrap b)))"

section \<open>Commands\<close>

definition drop_circuits :: "maddr list \<Rightarrow> maddr list" where
  "drop_circuits as = filter (\<lambda>a. \<not> has_circuit a) as"

text \<open>In LAN-only mode no relayed address is dialled, whatever the address book holds.\<close>

definition dial_candidates :: "peer \<Rightarrow> swarm_task \<Rightarrow> maddr list" where
  "dial_candidates p s =
     (if live_mode s = LanOnly then drop_circuits (known_addrs p s) else known_addrs p s)"

definition dial_failed :: "string \<Rightarrow> string \<Rightarrow> net_event" where
  "dial_failed target e = NetError (''dial to '' @ target @ '' failed: '' @ e)"

definition cmd_dial :: "ext \<Rightarrow> y7id \<Rightarrow> slot \<Rightarrow> (swarm_task, unit) action" where
  "cmd_dial E y k =
     (case peer_id_from_y7 E y of
        Inl e \<Rightarrow> answer_slot k (ReplyBool (Inl e))
      | Inr p \<Rightarrow>
          andThen (asks (dial_candidates p)) (\<lambda>addrs.
            if addrs = [] then answer_slot k (ReplyBool (Inr False))
            else
              andThen (swarm_dial (DialPeer p addrs)) (\<lambda>outcome.
                case outcome of
                  None \<Rightarrow> answer_slot k (ReplyBool (Inr True))
                | Some (DialPeerConditionFalse _) \<Rightarrow> answer_slot k (ReplyBool (Inr True))
                | Some (NoAddresses _) \<Rightarrow> answer_slot k (ReplyBool (Inr False))
                | Some (OtherDialError e) \<Rightarrow>
                    seqA (publish (dial_failed (peer_show E p) e))
                      (answer_slot k (ReplyBool (Inr True))))))"

definition cmd_find_peer :: "ext \<Rightarrow> y7id \<Rightarrow> slot \<Rightarrow> (swarm_task, unit) action" where
  "cmd_find_peer E y k =
     (case peer_id_from_y7 E y of
        Inl e \<Rightarrow> answer_slot k (ReplyAddrs (Inl e))
      | Inr p \<Rightarrow>
          andThen (asks (known_addrs p)) (\<lambda>addrs.
            if addrs \<noteq> [] then answer_slot k (ReplyAddrs (Inr addrs))
            else
              andThen (swarm_call (KadGetProviders p) lp_query) (\<lambda>q.
                modify (\<lambda>s. s\<lparr>pending_find_peer := AList.update q (p, k) (pending_find_peer s)\<rparr>))))"

definition cmd_dial_address :: "ext \<Rightarrow> maddr \<Rightarrow> (swarm_task, unit) action" where
  "cmd_dial_address E a =
     seqA
       (case peer_id_from_multiaddr a of
          Some p \<Rightarrow> seqA (remember_address p a) (swarm_do (AddPeerAddress p a))
        | None \<Rightarrow> ret ())
       (andThen (swarm_dial (DialAddr a)) (\<lambda>outcome.
          case outcome of
            None \<Rightarrow> ret ()
          | Some e \<Rightarrow> publish (dial_failed (maddr_show E a) (dial_error_text e))))"

definition cmd_update_bootstraps :: "maddr list \<Rightarrow> (swarm_task, unit) action" where
  "cmd_update_bootstraps addresses =
     andThen (asks (\<lambda>s. (live_mode s = LanOnly, bootstrap_peers s))) (\<lambda>(lan_only, old).
       let next = group_bootstraps addresses in
       seqA
         (forA next (\<lambda>b.
            if map_of old (fst b) \<noteq> None \<or> lan_only then ret ()
            else seqA (seed_kad b) (dial_bootstrap b)))
         (seqA (modify (\<lambda>s. s\<lparr>bootstrap_peers := next\<rparr>))
            (if \<not> lan_only \<and> next \<noteq> [] then swarm_do KadBootstrap else ret ())))"

text \<open>Leaving the internet: no circuit listener, no cached circuit, no bootstrap connection.\<close>

definition purge_circuits :: "(peer \<rightharpoonup> maddr list) \<Rightarrow> (peer \<rightharpoonup> maddr list)" where
  "purge_circuits book p =
     (case book p of
        None \<Rightarrow> None
      | Some as \<Rightarrow> let as' = drop_circuits as in if as' = [] then None else Some as')"

definition enter_lan_only :: "(swarm_task, unit) action" where
  "enter_lan_only =
     andThen (asks circuit_listeners) (\<lambda>ls.
       seqA (modify (\<lambda>s. s\<lparr>circuit_listeners := []\<rparr>))
         (seqA (forA ls (\<lambda>l. swarm_do (RemoveListener (snd l))))
            (seqA
               (modify (\<lambda>s. s\<lparr>relay_reserved := {}, address_book := purge_circuits (address_book s)\<rparr>))
               (andThen (asks bootstrap_peers) (\<lambda>bs.
                  seqA (forA bs (\<lambda>b. swarm_do (DisconnectPeerId (fst b))))
                    (seqA (swarm_do (KadSetMode KadClient))
                       (modify (\<lambda>s. s\<lparr>provided_self := False\<rparr>))))))))"

definition enter_internet :: "(swarm_task, unit) action" where
  "enter_internet =
     seqA (swarm_do (KadSetMode KadServer))
       (andThen (asks bootstrap_peers) (\<lambda>bs.
          seqA (forA bs seed_kad)
            (seqA reconnect_lost_bootstraps
               (if bs \<noteq> [] then swarm_do KadBootstrap else ret ()))))"

definition cmd_apply_dial_mode :: "dial_mode \<Rightarrow> (swarm_task, unit) action" where
  "cmd_apply_dial_mode mode =
     seqA (modify (\<lambda>s. s\<lparr>live_mode := mode\<rparr>))
       (case mode of LanOnly \<Rightarrow> enter_lan_only | InternetMode \<Rightarrow> enter_internet)"

text \<open>A request goes out and its slot waits for the response.\<close>

definition await_handshake :: "slot \<Rightarrow> request_id \<Rightarrow> (swarm_task, unit) action" where
  "await_handshake k i = modify (\<lambda>s. s\<lparr>pending_handshake := AList.update i k (pending_handshake s)\<rparr>)"

definition await_msg :: "slot \<Rightarrow> request_id \<Rightarrow> (swarm_task, unit) action" where
  "await_msg k i = modify (\<lambda>s. s\<lparr>pending_msg := AList.update i k (pending_msg s)\<rparr>)"

definition await_sync :: "slot \<Rightarrow> request_id \<Rightarrow> (swarm_task, unit) action" where
  "await_sync k i = modify (\<lambda>s. s\<lparr>pending_sync := AList.update i k (pending_sync s)\<rparr>)"

definition handle_command :: "ext \<Rightarrow> net_command \<Rightarrow> (swarm_task, unit) action" where
  "handle_command E cmd =
     (case cmd of
        Dial y k \<Rightarrow> cmd_dial E y k
      | FindPeer y k \<Rightarrow> cmd_find_peer E y k
      | DialAddress a \<Rightarrow> cmd_dial_address E a
      | SendHandshake p r k \<Rightarrow> andThen (swarm_call (RequestHandshake p r) lp_request) (await_handshake k)
      | SendMsg p r k \<Rightarrow> andThen (swarm_call (RequestMsg p r) lp_request) (await_msg k)
      | SendSync p r k \<Rightarrow> andThen (swarm_call (RequestSync p r) lp_request) (await_sync k)
      | RespondHandshake ch r \<Rightarrow> swarm_do (SentHandshake ch r)
      | RespondMsg ch r \<Rightarrow> swarm_do (SentMsg ch r)
      | RespondSync ch r \<Rightarrow> swarm_do (SentSync ch r)
      | UpdateBootstraps as \<Rightarrow> cmd_update_bootstraps as
      | ApplyDialMode m \<Rightarrow> cmd_apply_dial_mode m
      | CheckLive y k \<Rightarrow>
          andThen (asks (\<lambda>s. map_sum id (\<lambda>p. is_connected p s) (peer_id_from_y7 E y)))
            (\<lambda>r. answer_slot k (ReplyBool r))
      | DisconnectPeer y \<Rightarrow>
          (case peer_id_from_y7 E y of
             Inr p \<Rightarrow> swarm_do (DisconnectPeerId p)
           | Inl _ \<Rightarrow> ret ())
      | Shutdown \<Rightarrow> ret ())"

section \<open>Events\<close>

text \<open>The circuit address is derived from the endpoint that connected.\<close>

definition circuit_addr :: "maddr \<Rightarrow> peer \<Rightarrow> maddr" where
  "circuit_addr a p =
     (let base = (case rev a of P2p _ # r \<Rightarrow> rev r | _ \<Rightarrow> a) in base @ [P2p p, P2pCircuit])"

definition wants_reservation :: "peer \<Rightarrow> connected_point \<Rightarrow> swarm_task \<Rightarrow> bool" where
  "wants_reservation p endpoint s \<longleftrightarrow>
     live_mode s \<noteq> LanOnly \<and> \<not> cp_is_relayed endpoint \<and> map_of (bootstrap_peers s) p \<noteq> None \<and>
     p \<notin> relay_reserved s"

definition on_established ::
  "peer \<Rightarrow> connection_id \<Rightarrow> connected_point \<Rightarrow> (swarm_task, unit) action" where
  "on_established p cid endpoint =
     seqA (remember_address p (cp_remote endpoint))
       (seqA (publish (ConnectionEstablished p cid (connection_kind_for endpoint) (cp_remote endpoint)))
          (andThen (asks (wants_reservation p endpoint)) (\<lambda>reserve.
             if \<not> reserve then ret ()
             else
               seqA (modify (\<lambda>s. s\<lparr>relay_reserved := insert p (relay_reserved s)\<rparr>))
                 (andThen
                    (let a = circuit_addr (cp_remote endpoint) p
                     in swarm_call (ListenOn a) (\<lambda>L h. lp_listen L h a))
                    (\<lambda>r. case r of
                       Inr lid \<Rightarrow>
                         modify (\<lambda>s. s\<lparr>circuit_listeners := AList.update p lid (circuit_listeners s)\<rparr>)
                     | Inl _ \<Rightarrow> modify (\<lambda>s. s\<lparr>relay_reserved := relay_reserved s - {p}\<rparr>))))))"

definition on_closed :: "peer \<Rightarrow> connection_id \<Rightarrow> (swarm_task, unit) action" where
  "on_closed p cid =
     seqA
       (andThen (asks (\<lambda>s. (map_of (bootstrap_peers s) p \<noteq> None, is_connected p s))) (\<lambda>(bootstrap, up).
          if bootstrap then
            andThen (asks (\<lambda>s. map_of (circuit_listeners s) p)) (\<lambda>l.
              seqA
                (modify (\<lambda>s. s\<lparr>relay_reserved := relay_reserved s - {p},
                               circuit_listeners := AList.delete p (circuit_listeners s)\<rparr>))
                (case l of Some lid \<Rightarrow> swarm_do (RemoveListener lid) | None \<Rightarrow> ret ()))
          else if \<not> up then
            modify (\<lambda>s. s\<lparr>address_book := (address_book s)(p := None)\<rparr>)
          else ret ()))
       (publish (ConnectionClosed p cid))"

definition learn_address :: "peer \<Rightarrow> maddr \<Rightarrow> (swarm_task, unit) action" where
  "learn_address p a = seqA (remember_address p a) (swarm_do (AddPeerAddress p a))"

definition group_discovered :: "(peer \<times> maddr) list \<Rightarrow> (peer \<times> maddr list) list" where
  "group_discovered ps =
     foldl (\<lambda>g (p, a). AList.update p ((case map_of g p of Some as \<Rightarrow> as | None \<Rightarrow> []) @ [a]) g) [] ps"

definition expire_address :: "peer \<Rightarrow> maddr \<Rightarrow> (swarm_task, unit) action" where
  "expire_address p a =
     modify (\<lambda>s. case address_book s p of
        Some as \<Rightarrow> s\<lparr>address_book := (address_book s)(p \<mapsto> filter (\<lambda>b. b \<noteq> a) as)\<rparr>
      | None \<Rightarrow> s)"

definition handle_mdns :: "ext \<Rightarrow> mdns_event \<Rightarrow> (swarm_task, unit) action" where
  "handle_mdns E e =
     (case e of
        MdnsDiscovered ps \<Rightarrow>
          seqA (forA ps (\<lambda>pa. learn_address (fst pa) (snd pa)))
            (forA (group_discovered ps) (\<lambda>g.
               publish (PeerDiscovered (fst g) (snd g) (y7_id_from_peer_id E (fst g)))))
      | MdnsExpired ps \<Rightarrow> forA ps (\<lambda>pa. expire_address (fst pa) (snd pa)))"

text \<open>A pending search is removed and answered.\<close>

definition resolve_find :: "query_id \<Rightarrow> slot \<Rightarrow> maddr list res \<Rightarrow> (swarm_task, unit) action" where
  "resolve_find q k r =
     seqA (modify (\<lambda>s. s\<lparr>pending_find_peer := AList.delete q (pending_find_peer s)\<rparr>))
       (answer_slot k (ReplyAddrs r))"

definition found_providers :: "query_id \<Rightarrow> peer list \<Rightarrow> (swarm_task, unit) action" where
  "found_providers q providers =
     andThen (asks (\<lambda>s. (map_of (pending_find_peer s) q, s))) (\<lambda>(pending, s).
       case pending of
         None \<Rightarrow> ret ()
       | Some (target, k) \<Rightarrow>
           if target \<in> set providers \<and> known_addrs target s \<noteq> []
           then resolve_find q k (Inr (known_addrs target s))
           else ret ())"

definition query_over :: "query_id \<Rightarrow> (swarm_task, unit) action" where
  "query_over q =
     andThen (asks (\<lambda>s. (map_of (pending_find_peer s) q, s))) (\<lambda>(pending, s).
       case pending of
         None \<Rightarrow> ret ()
       | Some (target, k) \<Rightarrow>
           resolve_find q k
             (if known_addrs target s = [] then Inl NotFound else Inr (known_addrs target s)))"

definition advertise_self :: "(swarm_task, unit) action" where
  "advertise_self =
     andThen (asks (\<lambda>s. (provided_self s, lp_local_peer (lp s)))) (\<lambda>(provided, own).
       if provided then ret ()
       else
         andThen (swarm_call (KadStartProviding own) lp_provide) (\<lambda>r.
           case r of
             None \<Rightarrow> modify (\<lambda>s. s\<lparr>provided_self := True\<rparr>)
           | Some _ \<Rightarrow> ret ()))"

definition handle_kad :: "kad_event \<Rightarrow> (swarm_task, unit) action" where
  "handle_kad e =
     (case e of
        RoutingUpdated p addrs \<Rightarrow> seqA (forA addrs (learn_address p)) advertise_self
      | OutboundQueryProgressed q result last_step \<Rightarrow>
          seqA (case result of FoundProviders ps \<Rightarrow> found_providers q ps | OtherResult \<Rightarrow> ret ())
            (if last_step then query_over q else ret ())
      | OtherKadEvent \<Rightarrow> ret ())"

definition handle_identify :: "identify_event \<Rightarrow> (swarm_task, unit) action" where
  "handle_identify e =
     (case e of
        IdentifyReceived p addrs \<Rightarrow> forA addrs (remember_address p)
      | OtherIdentifyEvent \<Rightarrow> ret ())"

text \<open>
  The three request-response protocols are handled alike: an inbound request is published, a
  response or a failure goes to the slot that waits for it.
\<close>

definition handle_handshake_event ::
  "(handshake_req, handshake_resp) rr_event \<Rightarrow> (swarm_task, unit) action" where
  "handle_handshake_event e =
     (let settle = (\<lambda>i r. andThen (asks (\<lambda>s. map_of (pending_handshake s) i)) (\<lambda>waiting.
            case waiting of
              None \<Rightarrow> ret ()
            | Some k \<Rightarrow>
                seqA (modify (\<lambda>s. s\<lparr>pending_handshake := AList.delete i (pending_handshake s)\<rparr>))
                  (answer_slot k (ReplyHandshake r))))
      in case e of
        RrRequest p q ch \<Rightarrow> publish (HandshakeReceived p q ch)
      | RrResponse i r \<Rightarrow> settle i (Inr r)
      | RrOutboundFailure i err \<Rightarrow>
          settle i (Inl (NetworkErr (''handshake outbound failure: '' @ err)))
      | RrInboundFailure _ _ _ \<Rightarrow> ret ()
      | RrResponseSent \<Rightarrow> ret ())"

definition handle_msg_event :: "(message_envelope, bool) rr_event \<Rightarrow> (swarm_task, unit) action" where
  "handle_msg_event e =
     (let settle = (\<lambda>i r. andThen (asks (\<lambda>s. map_of (pending_msg s) i)) (\<lambda>waiting.
            case waiting of
              None \<Rightarrow> ret ()
            | Some k \<Rightarrow>
                seqA (modify (\<lambda>s. s\<lparr>pending_msg := AList.delete i (pending_msg s)\<rparr>))
                  (answer_slot k (ReplyMsg r))))
      in case e of
        RrRequest p q ch \<Rightarrow> publish (MsgReceived p q ch)
      | RrResponse i r \<Rightarrow> settle i (Inr r)
      | RrOutboundFailure i err \<Rightarrow> settle i (Inl (NetworkErr (''msg outbound failure: '' @ err)))
      | RrInboundFailure _ _ _ \<Rightarrow> ret ()
      | RrResponseSent \<Rightarrow> ret ())"

definition handle_sync_event :: "(sync_req, sync_resp) rr_event \<Rightarrow> (swarm_task, unit) action" where
  "handle_sync_event e =
     (let settle = (\<lambda>i r. andThen (asks (\<lambda>s. map_of (pending_sync s) i)) (\<lambda>waiting.
            case waiting of
              None \<Rightarrow> ret ()
            | Some k \<Rightarrow>
                seqA (modify (\<lambda>s. s\<lparr>pending_sync := AList.delete i (pending_sync s)\<rparr>))
                  (answer_slot k (ReplySync r))))
      in case e of
        RrRequest p q ch \<Rightarrow> publish (SyncReceived p q ch)
      | RrResponse i r \<Rightarrow> settle i (Inr r)
      | RrOutboundFailure i err \<Rightarrow> settle i (Inl (NetworkErr (''sync outbound failure: '' @ err)))
      | RrInboundFailure _ _ _ \<Rightarrow> ret ()
      | RrResponseSent \<Rightarrow> ret ())"

definition handle_dcutr :: "peer \<Rightarrow> string + connection_id \<Rightarrow> (swarm_task, unit) action" where
  "handle_dcutr p result =
     (case result of
        Inr cid \<Rightarrow> publish (ConnectionUpgraded p cid Direct)
      | Inl e \<Rightarrow> publish (ConnectionUpgradeFailed p e))"

definition handle_autonat :: "maddr \<Rightarrow> peer \<Rightarrow> bool \<Rightarrow> (swarm_task, unit) action" where
  "handle_autonat tested server ok = publish (NatStatus tested server ok)"

definition handle_swarm_event :: "ext \<Rightarrow> swarm_event \<Rightarrow> (swarm_task, unit) action" where
  "handle_swarm_event E ev =
     (case ev of
        NewListenAddr a \<Rightarrow> publish (Listening a)
      | SwarmEstablished p cid endpoint \<Rightarrow> on_established p cid endpoint
      | SwarmClosed p cid \<Rightarrow> on_closed p cid
      | OutgoingConnectionError p e \<Rightarrow>
          publish (dial_failed (case p of Some q \<Rightarrow> peer_show E q | None \<Rightarrow> ''<unknown>'') e)
      | MdnsEvent e \<Rightarrow> handle_mdns E e
      | IdentifyEvent e \<Rightarrow> handle_identify e
      | PingEvent \<Rightarrow> ret ()
      | HandshakeEvent e \<Rightarrow> handle_handshake_event e
      | MsgEvent e \<Rightarrow> handle_msg_event e
      | SyncEvent e \<Rightarrow> handle_sync_event e
      | KadEvent e \<Rightarrow> handle_kad e
      | RelayClientEvent \<Rightarrow> ret ()
      | DcutrEvent p r \<Rightarrow> handle_dcutr p r
      | AutonatEvent a server ok \<Rightarrow> handle_autonat a server ok
      | OtherSwarmEvent \<Rightarrow> ret ())"

section \<open>The loop\<close>

text \<open>
  What the task's \<open>select!\<close> picks next. The loop ends at \<open>Shutdown\<close> and when every handle of the
  command channel is gone.
\<close>

datatype task_input =
    FromSwarm swarm_event
  | FromHandle net_command
  | HandlesGone
  | ReconnectTick

definition ends_task :: "task_input \<Rightarrow> bool" where
  "ends_task i \<longleftrightarrow> i = FromHandle Shutdown \<or> i = HandlesGone"

definition task_turn :: "ext \<Rightarrow> task_input \<Rightarrow> (swarm_task, unit) action" where
  "task_turn E i =
     (case i of
        FromSwarm ev \<Rightarrow> handle_swarm_event E ev
      | FromHandle cmd \<Rightarrow> handle_command E cmd
      | HandlesGone \<Rightarrow> ret ()
      | ReconnectTick \<Rightarrow>
          andThen (asks live_mode) (\<lambda>m. if m = LanOnly then ret () else reconnect_lost_bootstraps))"

fun run_swarm :: "ext \<Rightarrow> task_input list \<Rightarrow> (swarm_task, unit) action" where
  "run_swarm E [] = ret ()"
| "run_swarm E (i # is) = (if ends_task i then ret () else seqA (task_turn E i) (run_swarm E is))"

section \<open>The start\<close>

definition default_listen_addr :: maddr where
  "default_listen_addr = [Ip4 0 0 0 0, Tcp 0]"

definition default_quic_listen_addr :: maddr where
  "default_quic_listen_addr = [Ip4 0 0 0 0, Udp 0, QuicV1]"

definition default_listen_addr_v6 :: maddr where
  "default_listen_addr_v6 = [Ip6 [0, 0, 0, 0, 0, 0, 0, 0], Tcp 0]"

definition default_quic_listen_addr_v6 :: maddr where
  "default_quic_listen_addr_v6 = [Ip6 [0, 0, 0, 0, 0, 0, 0, 0], Udp 0, QuicV1]"

definition swarm_listen :: "maddr \<Rightarrow> (swarm_task, string option) action" where
  "swarm_listen a =
     swarm_call (ListenOn a) (\<lambda>L h. case lp_listen L h a of Inl e \<Rightarrow> Some e | Inr _ \<Rightarrow> None)"

text \<open>A failed IPv4 listener is announced, a failed IPv6 one is normal.\<close>

definition listen_v4 :: "string \<Rightarrow> maddr \<Rightarrow> (swarm_task, unit) action" where
  "listen_v4 shown a =
     andThen (swarm_listen a) (\<lambda>r. case r of
       None \<Rightarrow> ret ()
     | Some e \<Rightarrow> publish (NetError (''listen_on('' @ shown @ '') failed: '' @ e)))"

definition fresh_task :: "libp2p \<Rightarrow> swarm_task" where
  "fresh_task L =
     \<lparr>lp = L, deeds = [], address_book = Map.empty, pending_handshake = [], pending_msg = [],
      pending_sync = [], pending_find_peer = [], provided_self = False, bootstrap_peers = [],
      relay_reserved = {}, circuit_listeners = [], live_mode = dial_mode_default\<rparr>"

definition start_swarm :: "maddr list \<Rightarrow> dial_mode \<Rightarrow> (swarm_task, unit) action" where
  "start_swarm bootstraps mode =
     seqA (listen_v4 ''/ip4/0.0.0.0/tcp/0'' default_listen_addr)
       (seqA (listen_v4 ''/ip4/0.0.0.0/udp/0/quic-v1'' default_quic_listen_addr)
          (seqA
             (forA [default_listen_addr_v6, default_quic_listen_addr_v6]
                (\<lambda>a. discard (swarm_listen a)))
             (let peers = group_bootstraps bootstraps in
              seqA
                (if mode = LanOnly then swarm_do (KadSetMode KadClient)
                 else
                   seqA (forA peers (\<lambda>b. seqA (seed_kad b) (dial_bootstrap b)))
                     (if bootstraps \<noteq> [] then swarm_do KadBootstrap else ret ()))
                (modify (\<lambda>s. s\<lparr>bootstrap_peers := peers, live_mode := mode\<rparr>)))))"

definition spawn_swarm_with_bootstraps :: "libp2p \<Rightarrow> maddr list \<Rightarrow> dial_mode \<Rightarrow> swarm_task" where
  "spawn_swarm_with_bootstraps L bootstraps mode = snd (start_swarm bootstraps mode (fresh_task L))"

definition spawn_swarm :: "libp2p \<Rightarrow> swarm_task" where
  "spawn_swarm L = spawn_swarm_with_bootstraps L [] dial_mode_default"

text \<open>The task after its inputs.\<close>

definition swarm_after :: "ext \<Rightarrow> libp2p \<Rightarrow> maddr list \<Rightarrow> dial_mode \<Rightarrow> task_input list \<Rightarrow> swarm_task" where
  "swarm_after E L bootstraps mode is =
     snd (run_swarm E is (spawn_swarm_with_bootstraps L bootstraps mode))"

end
