(* ===== verification/Swarm_Facts.thy ===== *)
theory Swarm_Facts
  imports Swarm Sample
begin

text \<open>
  What the network task keeps, whatever its inputs: the bound of the address book, and the
  agreement of the relay reservations with the circuit listeners; and how a search for a peer
  ends.
\<close>

section \<open>How the steps run\<close>

lemma run_swarm_call [simp]:
  "swarm_call d f s = (Inr (f (lp s) (deeds s)), s\<lparr>deeds := deeds s @ [d]\<rparr>)"
  by (simp add: swarm_call_def)

lemma run_swarm_do [simp]: "swarm_do d s = (Inr (), s\<lparr>deeds := deeds s @ [d]\<rparr>)"
  by (simp add: swarm_do_def)

lemma run_publish [simp]: "publish e s = (Inr (), s\<lparr>deeds := deeds s @ [Published e]\<rparr>)"
  by (simp add: publish_def)

lemma run_answer_slot [simp]: "answer_slot k r s = (Inr (), s\<lparr>deeds := deeds s @ [Reply k r]\<rparr>)"
  by (simp add: answer_slot_def)

lemma run_forA_do:
  "forA xs (\<lambda>x. swarm_do (d x)) s = (Inr (), s\<lparr>deeds := deeds s @ map d xs\<rparr>)"
  by (induction xs arbitrary: s) (simp_all add: seqA_Inr)

lemma keeps_swarm_call [keeps_intros]:
  "(\<And>s. P s \<Longrightarrow> P (s\<lparr>deeds := deeds s @ [d]\<rparr>)) \<Longrightarrow> keeps P (swarm_call d f)"
  by (simp add: keeps_def)

lemma keeps_swarm_do [keeps_intros]:
  "(\<And>s. P s \<Longrightarrow> P (s\<lparr>deeds := deeds s @ [d]\<rparr>)) \<Longrightarrow> keeps P (swarm_do d)"
  by (simp add: keeps_def)

text \<open>A question to the state whose answer decides what is done next.\<close>

lemma keeps_ask:
  "(\<And>s. P s \<Longrightarrow> P (snd (k (f s) s))) \<Longrightarrow> keeps P (andThen (asks f) k)"
  by (simp add: keeps_def)

lemmas deed_defs = publish_def answer_slot_def swarm_dial_def

lemmas command_defs =
  handle_command_def cmd_dial_def cmd_find_peer_def cmd_dial_address_def
  cmd_update_bootstraps_def await_handshake_def await_msg_def await_sync_def

lemmas bootstrap_defs = reconnect_lost_bootstraps_def dial_bootstrap_def seed_kad_def

lemmas event_defs =
  handle_swarm_event_def handle_mdns_def learn_address_def handle_kad_def found_providers_def
  query_over_def resolve_find_def advertise_self_def handle_identify_def
  handle_handshake_event_def handle_msg_event_def handle_sync_event_def handle_dcutr_def
  handle_autonat_def

text \<open>Leaving the internet, step by step.\<close>

lemma enter_lan_only_run:
  "enter_lan_only s =
     (Inr (), s\<lparr>deeds := deeds s @ map (\<lambda>l. RemoveListener (snd l)) (circuit_listeners s) @
                  map (\<lambda>b. DisconnectPeerId (fst b)) (bootstrap_peers s) @ [KadSetMode KadClient],
        circuit_listeners := [], relay_reserved := {},
        address_book := purge_circuits (address_book s), provided_self := False\<rparr>)"
  by (simp add: enter_lan_only_def run_forA_do seqA_Inr)

section \<open>The address book\<close>

definition book_ok :: "swarm_task \<Rightarrow> bool" where
  "book_ok s \<longleftrightarrow>
     (\<forall>p. length (known_addrs p s) \<le> max_addrs_per_peer \<and> distinct (known_addrs p s))"

lemma remember_addr_ok:
  "length as \<le> max_addrs_per_peer \<Longrightarrow> distinct as \<Longrightarrow>
   length (remember_addr a as) \<le> max_addrs_per_peer \<and> distinct (remember_addr a as)"
  by (cases as) (auto simp: remember_addr_def Let_def)

lemma book_ok_book:
  "book_ok s \<Longrightarrow> (\<And>p as. book p = Some as \<Longrightarrow> length as \<le> max_addrs_per_peer \<and> distinct as) \<Longrightarrow>
   book_ok (s\<lparr>address_book := book\<rparr>)"
  by (auto simp: book_ok_def known_addrs_def split: option.splits)

lemma book_okD:
  "book_ok s \<Longrightarrow> address_book s p = Some as \<Longrightarrow> length as \<le> max_addrs_per_peer \<and> distinct as"
  by (auto simp: book_ok_def known_addrs_def split: option.splits elim!: allE [of _ p])

lemma book_ok_filter:
  "book_ok s \<Longrightarrow> address_book s p = Some as \<Longrightarrow>
   length (filter q as) \<le> max_addrs_per_peer \<and> distinct (filter q as)"
  using book_okD [of s p as] by (auto intro: le_trans [OF length_filter_le])

lemma keeps_book_remember [keeps_intros]: "keeps book_ok (remember_address p a)"
proof (rule keepsI)
  fix s
  assume ok: "book_ok s"
  then have "length (known_addrs p s) \<le> max_addrs_per_peer" "distinct (known_addrs p s)"
    by (auto simp: book_ok_def)
  then show "book_ok (snd (remember_address p a s))"
    using ok remember_addr_ok [of "known_addrs p s" a]
    by (auto simp: remember_address_def intro!: book_ok_book dest: book_okD split: if_splits)
qed

lemma keeps_book_expire [keeps_intros]: "keeps book_ok (expire_address p a)"
  unfolding expire_address_def
  by (rule keeps_modify)
    (auto split: option.splits if_splits intro!: book_ok_book simp: book_ok_filter dest: book_okD)

lemma book_ok_frame [simp]:
  "book_ok (s\<lparr>deeds := a\<rparr>) = book_ok s" "book_ok (s\<lparr>pending_handshake := b\<rparr>) = book_ok s"
  "book_ok (s\<lparr>pending_msg := c\<rparr>) = book_ok s" "book_ok (s\<lparr>pending_sync := d\<rparr>) = book_ok s"
  "book_ok (s\<lparr>pending_find_peer := e\<rparr>) = book_ok s" "book_ok (s\<lparr>provided_self := f\<rparr>) = book_ok s"
  "book_ok (s\<lparr>bootstrap_peers := g\<rparr>) = book_ok s" "book_ok (s\<lparr>relay_reserved := h\<rparr>) = book_ok s"
  "book_ok (s\<lparr>circuit_listeners := i\<rparr>) = book_ok s" "book_ok (s\<lparr>live_mode := j\<rparr>) = book_ok s"
  by (simp_all add: book_ok_def known_addrs_def)

lemma keeps_book_lan [keeps_intros]: "keeps book_ok enter_lan_only"
  by (rule keepsI)
    (auto simp: enter_lan_only_run purge_circuits_def drop_circuits_def Let_def split: option.splits if_splits
      intro!: book_ok_book simp: book_ok_filter)

lemma keeps_book_closed [keeps_intros]: "keeps book_ok (on_closed p cid)"
  unfolding on_closed_def deed_defs
  by (intro keeps_intros) (auto intro!: book_ok_book dest: book_okD split: if_splits option.splits)

lemma keeps_book_event: "keeps book_ok (handle_swarm_event E ev)"
  unfolding event_defs on_established_def deed_defs
  by (cases ev) (auto split: mdns_event.splits kad_event.splits query_result.splits identify_event.splits
      rr_event.splits sum.splits intro!: keeps_intros)

lemma keeps_book_command: "keeps book_ok (handle_command E cmd)"
  unfolding command_defs bootstrap_defs cmd_apply_dial_mode_def enter_internet_def deed_defs
  by (cases cmd) (auto split: sum.splits dial_mode.splits option.splits dial_error.splits
      intro!: keeps_intros)

lemma keeps_book_turn: "keeps book_ok (task_turn E i)"
  unfolding task_turn_def bootstrap_defs deed_defs
  by (cases i) (auto simp: keeps_book_event keeps_book_command intro!: keeps_intros)

lemma keeps_book_start: "keeps book_ok (start_swarm bs mode)"
  unfolding start_swarm_def listen_v4_def swarm_listen_def bootstrap_defs deed_defs Let_def
  by (intro keeps_intros) simp_all

text \<open>A predicate that every turn keeps holds after any run.\<close>

lemma keeps_run: "(\<And>i. i \<in> set is \<Longrightarrow> keeps P (task_turn E i)) \<Longrightarrow> keeps P (run_swarm E is)"
  by (induction "is") (auto intro!: keeps_intros)

lemma swarm_after_ok:
  assumes "P (spawn_swarm_with_bootstraps L bootstraps mode)"
    "\<And>i. i \<in> set is \<Longrightarrow> keeps P (task_turn E i)"
  shows "P (swarm_after E L bootstraps mode is)"
proof -
  have "keeps P (run_swarm E is)"
    using assms(2) by (rule keeps_run)
  with assms(1) show ?thesis
    by (simp add: keeps_def swarm_after_def)
qed

lemma spawned_ok:
  "P (fresh_task L) \<Longrightarrow> keeps P (start_swarm bootstraps mode) \<Longrightarrow>
   P (spawn_swarm_with_bootstraps L bootstraps mode)"
  by (simp add: keeps_def spawn_swarm_with_bootstraps_def)

lemma spawned_book: "book_ok (spawn_swarm_with_bootstraps L bootstraps mode)"
  by (rule spawned_ok [OF _ keeps_book_start]) (simp add: book_ok_def known_addrs_def fresh_task_def)

text \<open>
  C20. Whatever commands and network events the task has handled since it was spawned, it holds
  at most sixteen addresses for a peer, and none of them twice.
\<close>

theorem address_book_bounded:
  "length (known_addrs p (swarm_after E L bootstraps mode is)) \<le> 16 \<and>
   distinct (known_addrs p (swarm_after E L bootstraps mode is))"
proof -
  have "book_ok (swarm_after E L bootstraps mode is)"
    by (rule swarm_after_ok [OF spawned_book keeps_book_turn])
  then show ?thesis
    by (simp add: book_ok_def max_addrs_per_peer_def)
qed

section \<open>Relay reservations\<close>

text \<open>
  The peers that the guard of the reservations lists are those with a circuit listener, each
  with one, and in LAN-only mode there is none.
\<close>

definition reservations_ok :: "swarm_task \<Rightarrow> bool" where
  "reservations_ok s \<longleftrightarrow>
     relay_reserved s = fst ` set (circuit_listeners s) \<and>
     distinct (map fst (circuit_listeners s)) \<and>
     (live_mode s = LanOnly \<longrightarrow> circuit_listeners s = [])"

lemma reservations_ok_frame [simp]:
  "reservations_ok (s\<lparr>deeds := a\<rparr>) = reservations_ok s"
  "reservations_ok (s\<lparr>pending_handshake := b\<rparr>) = reservations_ok s"
  "reservations_ok (s\<lparr>pending_msg := c\<rparr>) = reservations_ok s"
  "reservations_ok (s\<lparr>pending_sync := d\<rparr>) = reservations_ok s"
  "reservations_ok (s\<lparr>pending_find_peer := e\<rparr>) = reservations_ok s"
  "reservations_ok (s\<lparr>provided_self := f\<rparr>) = reservations_ok s"
  "reservations_ok (s\<lparr>bootstrap_peers := g\<rparr>) = reservations_ok s"
  "reservations_ok (s\<lparr>address_book := h\<rparr>) = reservations_ok s"
  by (simp_all add: reservations_ok_def)

lemma keeps_reservations_book [keeps_intros]:
  "keeps reservations_ok (remember_address p a)" "keeps reservations_ok (expire_address p a)"
  unfolding remember_address_def expire_address_def
  by (rule keeps_modify; simp split: option.splits)+

lemma set_update_keys: "fst ` set (AList.update k v xs) = insert k (fst ` set xs)"
  using dom_update [of k v xs] by (simp add: image_image)

lemma set_delete_keys: "fst ` set (AList.delete k xs) = fst ` set xs - {k}"
proof -
  have "set (map fst (AList.delete k xs)) = set (removeAll k (map fst xs))"
    by (simp only: delete_keys)
  then show ?thesis
    by simp
qed

lemma keeps_reservations_established [keeps_intros]:
  "keeps reservations_ok (on_established p cid endpoint)"
proof -
  have step: "reservations_ok (snd (
       seqA (modify (\<lambda>s. s\<lparr>relay_reserved := insert p (relay_reserved s)\<rparr>))
         (andThen
            (let a = circuit_addr (cp_remote endpoint) p
             in swarm_call (ListenOn a) (\<lambda>L h. lp_listen L h a))
            (\<lambda>r. case r of
               Inr lid \<Rightarrow>
                 modify (\<lambda>s. s\<lparr>circuit_listeners := AList.update p lid (circuit_listeners s)\<rparr>)
             | Inl _ \<Rightarrow> modify (\<lambda>s. s\<lparr>relay_reserved := relay_reserved s - {p}\<rparr>))) s))"
    if "reservations_ok s" "wants_reservation p endpoint s" for s
    using that
    by (auto simp: seqA_Inr andThen_Inr Let_def reservations_ok_def wants_reservation_def set_update_keys
        distinct_update split: sum.splits)
  show ?thesis
    unfolding on_established_def deed_defs
    by (intro keeps_seqA keeps_ask keeps_reservations_book keeps_swarm_do) (auto simp: step)
qed

lemma keeps_reservations_closed [keeps_intros]: "keeps reservations_ok (on_closed p cid)"
  unfolding on_closed_def deed_defs
  by (intro keeps_intros)
    (auto simp: reservations_ok_def set_delete_keys distinct_delete split: option.splits)

lemma keeps_reservations_event: "keeps reservations_ok (handle_swarm_event E ev)"
  unfolding event_defs deed_defs
  by (cases ev) (auto split: mdns_event.splits kad_event.splits query_result.splits identify_event.splits
      rr_event.splits sum.splits intro!: keeps_intros)

lemma keeps_reservations_mode: "keeps reservations_ok (cmd_apply_dial_mode mode)"
proof (cases mode)
  case LanOnly
  then show ?thesis
    by (auto simp: keeps_def cmd_apply_dial_mode_def seqA_Inr enter_lan_only_run reservations_ok_def)
next
  case InternetMode
  have "keeps reservations_ok enter_internet"
    unfolding enter_internet_def bootstrap_defs deed_defs by (intro keeps_intros) simp_all
  then show ?thesis
    unfolding InternetMode cmd_apply_dial_mode_def
    by (auto intro!: keeps_seqA keeps_modify simp: reservations_ok_def)
qed

lemma keeps_reservations_command: "keeps reservations_ok (handle_command E cmd)"
  unfolding command_defs bootstrap_defs deed_defs
  by (cases cmd) (auto split: sum.splits option.splits dial_error.splits
      intro!: keeps_intros keeps_reservations_mode)

lemma keeps_reservations_turn: "keeps reservations_ok (task_turn E i)"
  unfolding task_turn_def bootstrap_defs deed_defs
  by (cases i) (auto simp: keeps_reservations_event keeps_reservations_command intro!: keeps_intros)

lemma spawned_reservations: "reservations_ok (spawn_swarm_with_bootstraps L bootstraps mode)"
proof -
  let ?none = "\<lambda>s. circuit_listeners s = [] \<and> relay_reserved s = {}"
  have "keeps ?none (start_swarm bootstraps mode)"
    unfolding start_swarm_def listen_v4_def swarm_listen_def bootstrap_defs deed_defs Let_def
    by (intro keeps_intros) simp_all
  then have "?none (spawn_swarm_with_bootstraps L bootstraps mode)"
    using spawned_ok [of ?none L bootstraps mode] by (simp add: fresh_task_def)
  then show ?thesis
    by (simp add: reservations_ok_def)
qed

text \<open>
  C19. Whatever the task has handled, the guard against reserving twice lists exactly the relays
  with a circuit listener, no relay has two listeners, and in LAN-only mode there is no circuit
  listener and no reservation.
\<close>

theorem one_reservation_per_relay:
  assumes "s = swarm_after E L bootstraps mode is"
  shows "relay_reserved s = fst ` set (circuit_listeners s) \<and>
         distinct (map fst (circuit_listeners s)) \<and>
         (live_mode s = LanOnly \<longrightarrow> relay_reserved s = {} \<and> circuit_listeners s = [])"
proof -
  have "reservations_ok s"
    unfolding assms by (rule swarm_after_ok [OF spawned_reservations keeps_reservations_turn])
  then show ?thesis
    by (auto simp: reservations_ok_def)
qed

section \<open>Searching for a peer\<close>

text \<open>
  A search for a peer ends: with the last step of its query the slot leaves the table and
  is answered, once, with the addresses known by then, or with \<open>NotFound\<close> when there are none.
\<close>

theorem find_peer_ends:
  assumes "map_of (pending_find_peer s) q = Some (p, k)"
    "t = snd (handle_kad (OutboundQueryProgressed q result True) s)"
  shows "map_of (pending_find_peer t) q = None \<and>
         deeds t = deeds s @ [Reply k (ReplyAddrs
           (if known_addrs p s = [] then Inl NotFound else Inr (known_addrs p s)))]"
proof -
  have found: "found_providers q ps s =
      (if p \<in> set ps \<and> known_addrs p s \<noteq> [] then resolve_find q k (Inr (known_addrs p s)) s
       else (Inr (), s))" for ps
    using assms(1) by (simp add: found_providers_def)
  have resolved: "resolve_find q k r s =
      (Inr (), s\<lparr>pending_find_peer := AList.delete q (pending_find_peer s),
                 deeds := deeds s @ [Reply k (ReplyAddrs r)]\<rparr>)" for r
    by (simp add: resolve_find_def seqA_Inr)
  show ?thesis
    using assms(1)
    by (cases result) (auto simp: assms(2) handle_kad_def found resolved query_over_def seqA_def andThen_def
        delete_conv')
qed

section \<open>A sample network\<close>

text \<open>
  Every dial is issued, every listener starts, nobody is connected; listeners, requests and
  queries are numbered by the calls before them.
\<close>

definition sample_libp2p :: libp2p where
  "sample_libp2p =
     \<lparr>lp_local_peer = [0], lp_dial = (\<lambda>_ _. None), lp_connected = (\<lambda>_ _. False),
      lp_listen = (\<lambda>h _. Inr (length h)), lp_request = length, lp_query = length,
      lp_provide = (\<lambda>_. None)\<rparr>"

lemma sample_ids_fresh: "fresh_ids sample_libp2p"
  by (simp add: fresh_ids_def never_again_def sample_libp2p_def)

definition relay_peer :: peer where
  "relay_peer = [7]"

definition relay_endpoint :: maddr where
  "relay_endpoint = [Ip4 203 0 113 7, Tcp 4101, P2p relay_peer]"

definition relay_up :: task_input where
  "relay_up = FromSwarm (SwarmEstablished relay_peer 1 \<lparr>cp_remote = relay_endpoint, cp_is_relayed = False\<rparr>)"

definition relay_down :: task_input where
  "relay_down = FromSwarm (SwarmClosed relay_peer 1)"

definition circuit_requests :: "swarm_task \<Rightarrow> maddr list" where
  "circuit_requests s =
     concat (map (\<lambda>d. case d of ListenOn a \<Rightarrow> if has_circuit a then [a] else [] | _ \<Rightarrow> []) (deeds s))"

lemma one_reservation_per_relay_witness:
  "relay_reserved (swarm_after sample_ext sample_libp2p [relay_endpoint] InternetMode [relay_up]) =
     {relay_peer}"
proof -
  have "map fst (circuit_listeners
      (swarm_after sample_ext sample_libp2p [relay_endpoint] InternetMode [relay_up])) = [relay_peer]"
    by code_simp
  then show ?thesis
    using one_reservation_per_relay [OF refl, of sample_ext sample_libp2p "[relay_endpoint]" InternetMode "[relay_up]"]
    by (metis list.set_map list.simps(15) empty_set)
qed

lemma find_peer_ends_witness:
  "pending_find_peer (snd (handle_kad (OutboundQueryProgressed 3 OtherResult True)
     ((fresh_task sample_libp2p)\<lparr>pending_find_peer := [(3, relay_peer, 9)]\<rparr>))) = [] \<and>
   deeds (snd (handle_kad (OutboundQueryProgressed 3 OtherResult True)
     ((fresh_task sample_libp2p)\<lparr>pending_find_peer := [(3, relay_peer, 9)]\<rparr>))) =
     [Reply 9 (ReplyAddrs (Inl NotFound))]"
  using find_peer_ends [OF _ refl,
    of "(fresh_task sample_libp2p)\<lparr>pending_find_peer := [(3, relay_peer, 9)]\<rparr>" 3 relay_peer 9 OtherResult]
  by (simp add: fresh_task_def known_addrs_def handle_kad_def query_over_def resolve_find_def seqA_Inr)

text \<open>
  The guard of a relay that is taken off the bootstrap list outlives its connection: only a
  close that finds the relay on the list clears it. When the relay is listed again and connects,
  no circuit is requested, although the old listener went down with the old connection.
\<close>

lemma stale_reservation:
  "length (circuit_requests (swarm_after sample_ext sample_libp2p [relay_endpoint] InternetMode
     [relay_up, relay_down, relay_up])) = 2 \<and>
   length (circuit_requests (swarm_after sample_ext sample_libp2p [relay_endpoint] InternetMode
     [relay_up, FromHandle (UpdateBootstraps []), relay_down,
      FromHandle (UpdateBootstraps [relay_endpoint]), relay_up])) = 1"
  by code_simp

end
