(* ===== verification/Swarm_Slots.thy ===== *)
theory Swarm_Slots
  imports Swarm_Facts "HOL-Library.Multiset"
begin

text \<open>
  The answers that the network task owes: every slot that came in with a command is answered or
  waits in one of the pending tables, exactly once. libp2p gives out the ids under which the
  slots wait, and never gives one out again (\<open>fresh_ids\<close>).
\<close>

section \<open>The account\<close>

definition reply_slots :: "deed \<Rightarrow> slot list" where
  "reply_slots d = (case d of Reply k _ \<Rightarrow> [k] | _ \<Rightarrow> [])"

definition answered_slots :: "swarm_task \<Rightarrow> slot list" where
  "answered_slots s = concat (map reply_slots (deeds s))"

definition waiting_slots :: "swarm_task \<Rightarrow> slot list" where
  "waiting_slots s =
     map snd (pending_handshake s) @ map snd (pending_msg s) @ map snd (pending_sync s) @
     map (\<lambda>(q, p, k). k) (pending_find_peer s)"

definition asked :: "task_input \<Rightarrow> slot list" where
  "asked i =
     (case i of
        FromHandle (Dial _ k) \<Rightarrow> [k]
      | FromHandle (FindPeer _ k) \<Rightarrow> [k]
      | FromHandle (SendHandshake _ _ k) \<Rightarrow> [k]
      | FromHandle (SendMsg _ _ k) \<Rightarrow> [k]
      | FromHandle (SendSync _ _ k) \<Rightarrow> [k]
      | FromHandle (CheckLive _ k) \<Rightarrow> [k]
      | _ \<Rightarrow> [])"

text \<open>What the task takes in before it ends.\<close>

definition taken_in :: "task_input list \<Rightarrow> task_input list" where
  "taken_in is = takeWhile (\<lambda>i. \<not> ends_task i) is"

definition account :: "swarm_task \<Rightarrow> slot multiset" where
  "account s = mset (answered_slots s) + mset (waiting_slots s)"

text \<open>The keys of a table are distinct, and ids that were given out before.\<close>

definition table_ok :: "(deed list \<Rightarrow> nat) \<Rightarrow> deed list \<Rightarrow> (nat \<times> 'v) list \<Rightarrow> bool" where
  "table_ok give log t \<longleftrightarrow>
     distinct (map fst t) \<and> (\<forall>i \<in> fst ` set t. \<exists>h. length h < length log \<and> i = give h)"

definition keys_ok :: "swarm_task \<Rightarrow> bool" where
  "keys_ok s \<longleftrightarrow>
     fresh_ids (lp s) \<and>
     table_ok (lp_request (lp s)) (deeds s) (pending_handshake s) \<and>
     table_ok (lp_request (lp s)) (deeds s) (pending_msg s) \<and>
     table_ok (lp_request (lp s)) (deeds s) (pending_sync s) \<and>
     table_ok (lp_query (lp s)) (deeds s) (pending_find_peer s)"

lemma table_empty [simp]: "table_ok give log []"
  by (simp add: table_ok_def)

lemma table_later: "table_ok give log t \<Longrightarrow> table_ok give (log @ ds) t"
  unfolding table_ok_def by (metis length_append trans_less_add1)

lemma table_enter: "table_ok give log t \<Longrightarrow> table_ok give (log @ [d]) (AList.update (give log) v t)"
  using table_later [of give log t "[d]"]
  by (auto simp: table_ok_def distinct_update set_update_keys)

lemma table_leave: "table_ok give log t \<Longrightarrow> table_ok give log (AList.delete k t)"
  by (auto simp: table_ok_def distinct_delete set_delete_keys)

lemma table_distinct: "table_ok give log t \<Longrightarrow> distinct (map fst t)"
  by (simp add: table_ok_def)

lemma table_new: "never_again give \<Longrightarrow> table_ok give log t \<Longrightarrow> give log \<notin> fst ` set t"
  unfolding never_again_def table_ok_def by (metis nat_neq_iff)

text \<open>What entering under a new key, and leaving, do to the contents of a table.\<close>

lemma mset_enter:
  "k \<notin> fst ` set t \<Longrightarrow>
   image_mset f (mset (AList.update k v t)) = add_mset (f (k, v)) (image_mset f (mset t))"
  by (induction t) auto

lemma mset_leave:
  "distinct (map fst t) \<Longrightarrow> map_of t k = Some v \<Longrightarrow>
   image_mset f (mset t) = add_mset (f (k, v)) (image_mset f (mset (AList.delete k t)))"
proof (induction t)
  case (Cons e t)
  obtain k' v' where e: "e = (k', v')"
    by (cases e)
  show ?case
  proof (cases "k' = k")
    case True
    with Cons.prems have "k \<notin> fst ` set t"
      by (auto simp: e)
    then have "AList.delete k t = t"
      by (rule delete_id)
    with True Cons.prems show ?thesis
      by (simp add: e)
  next
    case False
    with Cons show ?thesis
      by (auto simp: e)
  qed
qed simp

section \<open>Actions and what they add to the account\<close>

definition charges :: "slot list \<Rightarrow> (swarm_task, 'a) action \<Rightarrow> bool" where
  "charges ks m \<longleftrightarrow>
     (\<forall>s. keys_ok s \<longrightarrow>
        \<not> isl (fst (m s)) \<and> keys_ok (snd (m s)) \<and> account (snd (m s)) = account s + mset ks)"

lemma chargesI:
  "(\<And>s. keys_ok s \<Longrightarrow>
      \<not> isl (fst (m s)) \<and> keys_ok (snd (m s)) \<and> account (snd (m s)) = account s + mset ks) \<Longrightarrow>
   charges ks m"
  by (simp add: charges_def)

lemma charges_ret: "charges [] (ret x)"
  by (simp add: charges_def)

lemma charges_then: "charges [] m \<Longrightarrow> (\<And>x. charges ks (f x)) \<Longrightarrow> charges ks (andThen m f)"
  by (fastforce simp: charges_def andThen_def split: prod.splits sum.splits)

lemma charges_seq: "charges [] m \<Longrightarrow> charges ks k \<Longrightarrow> charges ks (seqA m k)"
  by (simp add: seqA_def charges_then)

lemma charges_discard: "charges [] m \<Longrightarrow> charges [] (discard m)"
  by (simp add: discard_def charges_then charges_ret)

lemma charges_for: "(\<And>x. charges [] (f x)) \<Longrightarrow> charges [] (forA xs f)"
  by (induction xs) (simp_all add: charges_ret charges_seq)

lemma charges_asks: "charges [] (asks f)"
  by (simp add: charges_def)

lemma charges_ask:
  "(\<And>s. keys_ok s \<Longrightarrow>
      \<not> isl (fst (k (f s) s)) \<and> keys_ok (snd (k (f s) s)) \<and>
      account (snd (k (f s) s)) = account s + mset ks) \<Longrightarrow>
   charges ks (andThen (asks f) k)"
  by (simp add: charges_def)

text \<open>A step that neither the tables nor the answers show.\<close>

lemma account_frame [simp]:
  "account (s\<lparr>address_book := a\<rparr>) = account s" "account (s\<lparr>provided_self := b\<rparr>) = account s"
  "account (s\<lparr>bootstrap_peers := c\<rparr>) = account s" "account (s\<lparr>relay_reserved := d\<rparr>) = account s"
  "account (s\<lparr>circuit_listeners := e\<rparr>) = account s" "account (s\<lparr>live_mode := f\<rparr>) = account s"
  by (simp_all add: account_def answered_slots_def waiting_slots_def)

lemma keys_ok_frame [simp]:
  "keys_ok (s\<lparr>address_book := a\<rparr>) = keys_ok s" "keys_ok (s\<lparr>provided_self := b\<rparr>) = keys_ok s"
  "keys_ok (s\<lparr>bootstrap_peers := c\<rparr>) = keys_ok s" "keys_ok (s\<lparr>relay_reserved := d\<rparr>) = keys_ok s"
  "keys_ok (s\<lparr>circuit_listeners := e\<rparr>) = keys_ok s" "keys_ok (s\<lparr>live_mode := f\<rparr>) = keys_ok s"
  by (simp_all add: keys_ok_def)

lemma keys_ok_deed: "keys_ok s \<Longrightarrow> keys_ok (s\<lparr>deeds := deeds s @ ds\<rparr>)"
  by (simp add: keys_ok_def table_later)

lemma account_deed:
  "account (s\<lparr>deeds := deeds s @ [d]\<rparr>) = account s + mset (reply_slots d)"
  by (simp add: account_def answered_slots_def waiting_slots_def)

lemma charges_modify:
  "(\<And>s. keys_ok s \<Longrightarrow> keys_ok (f s) \<and> account (f s) = account s) \<Longrightarrow> charges [] (modify f)"
  by (simp add: charges_def)

lemma charges_call: "reply_slots d = [] \<Longrightarrow> charges [] (swarm_call d f)"
  by (simp add: charges_def keys_ok_deed account_deed)

lemma charges_do: "charges (reply_slots d) (swarm_do d)"
  by (simp add: charges_def keys_ok_deed account_deed)

lemma charges_quiet: "reply_slots d = [] \<Longrightarrow> charges [] (swarm_do d)"
  using charges_do [of d] by simp

lemma charges_publish: "charges [] (publish e)"
  unfolding publish_def by (rule charges_quiet) (simp add: reply_slots_def)

lemma charges_answer: "charges [k] (answer_slot k r)"
  using charges_do [of "Reply k r"] by (simp add: answer_slot_def reply_slots_def)

lemma charges_dial: "reply_slots d = [] \<Longrightarrow> charges [] (swarm_dial d)"
  unfolding swarm_dial_def by (rule charges_call)

lemmas charges_rules =
  charges_ret charges_seq charges_then charges_discard charges_for charges_asks charges_call
  charges_quiet charges_publish charges_answer charges_dial

section \<open>Waiting and being answered_slots\<close>

text \<open>A request goes out under an id that no slot waits under.\<close>

lemma keys_new:
  assumes "keys_ok s"
  shows "lp_request (lp s) (deeds s) \<notin> fst ` set (pending_handshake s)"
    "lp_request (lp s) (deeds s) \<notin> fst ` set (pending_msg s)"
    "lp_request (lp s) (deeds s) \<notin> fst ` set (pending_sync s)"
    "lp_query (lp s) (deeds s) \<notin> fst ` set (pending_find_peer s)"
  using assms by (auto simp: keys_ok_def fresh_ids_def dest: table_new)

lemma charges_await:
  "charges [k] (andThen (swarm_call (RequestHandshake p q) lp_request) (await_handshake k))"
  "charges [k] (andThen (swarm_call (RequestMsg p e) lp_request) (await_msg k))"
  "charges [k] (andThen (swarm_call (RequestSync p r) lp_request) (await_sync k))"
  "charges [k] (andThen (swarm_call (KadGetProviders p) lp_query)
     (\<lambda>q. modify (\<lambda>s. s\<lparr>pending_find_peer := AList.update q (p, k) (pending_find_peer s)\<rparr>)))"
  by (rule chargesI, frule keys_new(1), frule keys_new(2), frule keys_new(3), frule keys_new(4),
      simp add: andThen_Inr await_handshake_def await_msg_def await_sync_def account_def answered_slots_def
        waiting_slots_def reply_slots_def keys_ok_def table_later table_enter mset_enter)+

lemma charges_find_peer: "charges [k] (cmd_find_peer E y k)"
  unfolding cmd_find_peer_def by (auto split: sum.splits intro!: charges_rules charges_await)

text \<open>A slot that waits under an id leaves its table and is answered_slots.\<close>

lemma charges_settled:
  "charges [] (andThen (asks (\<lambda>s. map_of (pending_handshake s) i)) (\<lambda>w. case w of None \<Rightarrow> ret ()
     | Some k \<Rightarrow> seqA (modify (\<lambda>s. s\<lparr>pending_handshake := AList.delete i (pending_handshake s)\<rparr>))
         (answer_slot k r)))"
  "charges [] (andThen (asks (\<lambda>s. map_of (pending_msg s) i)) (\<lambda>w. case w of None \<Rightarrow> ret ()
     | Some k \<Rightarrow> seqA (modify (\<lambda>s. s\<lparr>pending_msg := AList.delete i (pending_msg s)\<rparr>))
         (answer_slot k r)))"
  "charges [] (andThen (asks (\<lambda>s. map_of (pending_sync s) i)) (\<lambda>w. case w of None \<Rightarrow> ret ()
     | Some k \<Rightarrow> seqA (modify (\<lambda>s. s\<lparr>pending_sync := AList.delete i (pending_sync s)\<rparr>))
         (answer_slot k r)))"
  by (rule charges_ask; auto split: option.splits simp: seqA_Inr account_def answered_slots_def waiting_slots_def
      reply_slots_def keys_ok_def table_later table_leave
      dest: mset_leave [OF table_distinct, where f = snd])+

lemma charges_query:
  "charges [] (found_providers q providers)" "charges [] (query_over q)"
proof -
  have resolved: "\<not> isl (fst (resolve_find q k r s)) \<and> keys_ok (snd (resolve_find q k r s)) \<and>
      account (snd (resolve_find q k r s)) = account s"
    if "keys_ok s" "map_of (pending_find_peer s) q = Some (p, k)" for s p k r
  proof -
    have "image_mset (\<lambda>(q, p, k). k) (mset (pending_find_peer s)) =
        add_mset k (image_mset (\<lambda>(q, p, k). k) (mset (AList.delete q (pending_find_peer s))))"
      using that mset_leave [of "pending_find_peer s" q "(p, k)" "\<lambda>(q, p, k). k"]
      by (auto simp: keys_ok_def dest: table_distinct)
    then show ?thesis
      using that(1)
      by (simp add: resolve_find_def seqA_Inr account_def answered_slots_def waiting_slots_def reply_slots_def
          keys_ok_def table_later table_leave)
  qed
  show "charges [] (found_providers q providers)"
    unfolding found_providers_def by (rule charges_ask) (auto split: option.splits simp: resolved)
  show "charges [] (query_over q)"
    unfolding query_over_def by (rule charges_ask) (auto split: option.splits simp: resolved)
qed

section \<open>The handlers\<close>

lemma charges_book:
  "charges [] (remember_address p a)" "charges [] (expire_address p a)" "charges [] (learn_address p a)"
proof -
  show r: "charges [] (remember_address p a)"
    unfolding remember_address_def by (rule charges_modify) simp
  show "charges [] (expire_address p a)"
    unfolding expire_address_def by (rule charges_modify) (simp split: option.splits)
  show "charges [] (learn_address p a)"
    unfolding learn_address_def by (intro charges_rules r) (simp add: reply_slots_def)
qed

lemma charges_bootstraps:
  "charges [] (seed_kad b)" "charges [] (dial_bootstrap b)" "charges [] reconnect_lost_bootstraps"
proof -
  show "charges [] (seed_kad b)"
    unfolding seed_kad_def by (intro charges_rules) (simp add: reply_slots_def)
  have d: "charges [] (dial_bootstrap b)" for b
    unfolding dial_bootstrap_def by (intro charges_rules) (simp add: reply_slots_def)
  show "charges [] (dial_bootstrap b)"
    by (rule d)
  show "charges [] reconnect_lost_bootstraps"
    unfolding reconnect_lost_bootstraps_def by (auto intro!: charges_rules d)
qed

lemma charges_established: "charges [] (on_established p cid endpoint)"
  unfolding on_established_def Let_def
  by (auto intro!: charges_rules charges_book charges_modify simp: reply_slots_def split: sum.splits)

lemma charges_closed: "charges [] (on_closed p cid)"
  unfolding on_closed_def
  by (auto intro!: charges_rules charges_modify simp: reply_slots_def split: option.splits)

lemma charges_mode: "charges [] (cmd_apply_dial_mode mode)"
  unfolding cmd_apply_dial_mode_def enter_lan_only_def enter_internet_def
  by (cases mode) (auto intro!: charges_rules charges_modify charges_bootstraps simp: reply_slots_def)

lemma charges_update_bootstraps: "charges [] (cmd_update_bootstraps as)"
  unfolding cmd_update_bootstraps_def Let_def
  by (auto intro!: charges_rules charges_modify charges_bootstraps simp: reply_slots_def)

lemma charges_dial_cmds: "charges [k] (cmd_dial E y k)" "charges [] (cmd_dial_address E a)"
  unfolding cmd_dial_def cmd_dial_address_def
  by (auto intro!: charges_rules charges_book simp: reply_slots_def
      split: sum.splits option.splits dial_error.splits)

lemma charges_event: "charges [] (handle_swarm_event E ev)"
  unfolding handle_swarm_event_def handle_mdns_def handle_kad_def advertise_self_def handle_identify_def
    handle_handshake_event_def handle_msg_event_def handle_sync_event_def handle_dcutr_def
    handle_autonat_def Let_def
  by (cases ev) (auto split: mdns_event.splits kad_event.splits query_result.splits identify_event.splits
      rr_event.splits sum.splits option.splits simp: reply_slots_def
      intro!: charges_rules charges_book charges_established charges_closed charges_query charges_settled
        charges_modify)

lemma charges_turn: "\<not> ends_task i \<Longrightarrow> charges (asked i) (task_turn E i)"
proof (cases i)
  case (FromHandle cmd)
  moreover assume "\<not> ends_task i"
  ultimately show ?thesis
    by (cases cmd) (auto simp: task_turn_def asked_def handle_command_def ends_task_def reply_slots_def
        split: sum.splits
        intro!: charges_rules charges_await charges_find_peer charges_dial_cmds charges_update_bootstraps
          charges_mode)
qed (auto simp: task_turn_def asked_def charges_event ends_task_def intro!: charges_rules charges_bootstraps)

lemma run_account:
  "keys_ok s \<Longrightarrow>
   account (snd (run_swarm E is s)) = account s + mset (concat (map asked (taken_in is)))"
proof (induction "is" arbitrary: s)
  case (Cons i "is")
  show ?case
  proof (cases "ends_task i")
    case True
    then show ?thesis
      by (simp add: taken_in_def)
  next
    case False
    then obtain t where t: "task_turn E i s = (Inr (), t)" "keys_ok t"
      "account t = account s + mset (asked i)"
      using charges_turn [OF False, of E] Cons.prems
      unfolding charges_def by (cases "task_turn E i s"; cases "fst (task_turn E i s)") fastforce+
    with False Cons.IH [of t] show ?thesis
      by (simp add: taken_in_def seqA_Inr ac_simps)
  qed
qed (simp add: taken_in_def)

lemma charges_start: "charges [] (start_swarm bootstraps mode)"
  unfolding start_swarm_def listen_v4_def swarm_listen_def Let_def
  by (auto intro!: charges_rules charges_modify charges_bootstraps simp: reply_slots_def
      split: option.splits)

text \<open>
  C10. No answer is lost and none is given twice: of the slots that came in with the commands
  that the task has taken, each one has been answered or waits in a pending table, exactly as
  often as it came in.
\<close>

theorem every_slot_accounted:
  assumes "fresh_ids L" "s = swarm_after E L bootstraps mode is"
  shows "mset (answered_slots s) + mset (waiting_slots s) = mset (concat (map asked (taken_in is)))"
proof -
  let ?t = "spawn_swarm_with_bootstraps L bootstraps mode"
  have "keys_ok (fresh_task L)" "account (fresh_task L) = {#}"
    using assms(1) by (simp_all add: keys_ok_def fresh_task_def account_def answered_slots_def waiting_slots_def)
  then have "keys_ok ?t" "account ?t = {#}"
    using charges_start [of bootstraps mode]
    by (auto simp: charges_def spawn_swarm_with_bootstraps_def)
  then have "account s = mset (concat (map asked (taken_in is)))"
    using run_account [of ?t E "is"] by (simp add: assms(2) swarm_after_def)
  then show ?thesis
    by (simp only: account_def)
qed

definition zero_envelope :: message_envelope where
  "zero_envelope =
     \<lparr>env_message_id = replicate 16 0, env_sender_pub = replicate 32 0, env_timestamp_ms = 0,
      env_nonce = replicate 12 0, env_ciphertext = [], env_sig = replicate 64 0\<rparr>"

lemma every_slot_accounted_witness:
  "mset (answered_slots (swarm_after sample_ext sample_libp2p [] InternetMode
     [FromHandle (SendMsg relay_peer zero_envelope 5), FromHandle (SendMsg relay_peer zero_envelope 6),
      FromSwarm (MsgEvent (RrResponse 5 True)), FromHandle Shutdown,
      FromHandle (SendMsg relay_peer zero_envelope 8)])) +
   mset (waiting_slots (swarm_after sample_ext sample_libp2p [] InternetMode
     [FromHandle (SendMsg relay_peer zero_envelope 5), FromHandle (SendMsg relay_peer zero_envelope 6),
      FromSwarm (MsgEvent (RrResponse 5 True)), FromHandle Shutdown,
      FromHandle (SendMsg relay_peer zero_envelope 8)])) = {#5, 6#} \<and>
   answered_slots (swarm_after sample_ext sample_libp2p [] InternetMode
     [FromHandle (SendMsg relay_peer zero_envelope 5), FromHandle (SendMsg relay_peer zero_envelope 6),
      FromSwarm (MsgEvent (RrResponse 5 True)), FromHandle Shutdown,
      FromHandle (SendMsg relay_peer zero_envelope 8)]) = [6]"
  using every_slot_accounted [OF sample_ids_fresh refl, of sample_ext "[]" InternetMode
      "[FromHandle (SendMsg relay_peer zero_envelope 5), FromHandle (SendMsg relay_peer zero_envelope 6),
        FromSwarm (MsgEvent (RrResponse 5 True)), FromHandle Shutdown,
        FromHandle (SendMsg relay_peer zero_envelope 8)]"]
  by (simp add: taken_in_def ends_task_def asked_def) code_simp

end
