(* ===== verification/Swarm_Lan.thy ===== *)
theory Swarm_Lan
  imports Swarm_Facts
begin

text \<open>
  The LAN-only mode of the network task: what switching to it undoes, and what the task still
  does while it is on.
\<close>

section \<open>Leaving the internet\<close>

text \<open>
  C18. Switching to LAN-only mode removes every circuit listener with its reservation, asks
  libp2p to disconnect every bootstrap peer, stops the DHT's server mode and leaves no relayed
  address in the address book, while every direct address stays.
\<close>

theorem lan_switch_tears_down:
  "snd (handle_command E (ApplyDialMode LanOnly) s) =
     s\<lparr>live_mode := LanOnly,
       deeds := deeds s @ map (\<lambda>l. RemoveListener (snd l)) (circuit_listeners s) @
                 map (\<lambda>b. DisconnectPeerId (fst b)) (bootstrap_peers s) @ [KadSetMode KadClient],
       circuit_listeners := [], relay_reserved := {}, provided_self := False,
       address_book := purge_circuits (address_book s)\<rparr> \<and>
   known_addrs p (snd (handle_command E (ApplyDialMode LanOnly) s)) =
     filter (\<lambda>a. \<not> has_circuit a) (known_addrs p s)"
  by (simp add: handle_command_def cmd_apply_dial_mode_def seqA_Inr enter_lan_only_run known_addrs_def
      purge_circuits_def drop_circuits_def Let_def split: option.splits)

section \<open>While the mode is on\<close>

text \<open>
  What the task may do of itself, and at whose request: it dials a peer or an address only when
  a command among \<open>is\<close> asked for it, a peer never at a relayed address, an address as the command
  names it; it looks a peer up in the DHT only for a command, opens no listener, does not touch
  the DHT's routing table and stays a client of the DHT.
\<close>

definition lan_deed :: "ext \<Rightarrow> task_input list \<Rightarrow> deed \<Rightarrow> bool" where
  "lan_deed E is d \<longleftrightarrow>
     (case d of
        DialPeer p as \<Rightarrow>
          (\<exists>i \<in> set is. case i of FromHandle (Dial y _) \<Rightarrow> peer_id_from_y7 E y = Inr p | _ \<Rightarrow> False) \<and>
          (\<forall>a \<in> set as. \<not> has_circuit a)
      | DialAddr a \<Rightarrow> FromHandle (DialAddress a) \<in> set is
      | KadGetProviders p \<Rightarrow>
          (\<exists>i \<in> set is. case i of FromHandle (FindPeer y _) \<Rightarrow> peer_id_from_y7 E y = Inr p | _ \<Rightarrow> False)
      | ListenOn _ \<Rightarrow> False
      | KadBootstrap \<Rightarrow> False
      | KadAddAddress _ _ \<Rightarrow> False
      | KadSetMode m \<Rightarrow> m = KadClient
      | _ \<Rightarrow> True)"

definition lan_since :: "ext \<Rightarrow> task_input list \<Rightarrow> deed list \<Rightarrow> swarm_task \<Rightarrow> bool" where
  "lan_since E is log s \<longleftrightarrow>
     live_mode s = LanOnly \<and> (\<exists>ds. deeds s = log @ ds \<and> (\<forall>d \<in> set ds. lan_deed E is d))"

lemma lan_since_frame [simp]:
  "lan_since E is log (s\<lparr>pending_handshake := b\<rparr>) = lan_since E is log s"
  "lan_since E is log (s\<lparr>pending_msg := c\<rparr>) = lan_since E is log s"
  "lan_since E is log (s\<lparr>pending_sync := d\<rparr>) = lan_since E is log s"
  "lan_since E is log (s\<lparr>pending_find_peer := e\<rparr>) = lan_since E is log s"
  "lan_since E is log (s\<lparr>provided_self := f\<rparr>) = lan_since E is log s"
  "lan_since E is log (s\<lparr>bootstrap_peers := g\<rparr>) = lan_since E is log s"
  "lan_since E is log (s\<lparr>address_book := h\<rparr>) = lan_since E is log s"
  "lan_since E is log (s\<lparr>relay_reserved := i\<rparr>) = lan_since E is log s"
  "lan_since E is log (s\<lparr>circuit_listeners := j\<rparr>) = lan_since E is log s"
  by (simp_all add: lan_since_def)

lemma lan_since_deeds:
  "lan_since E is log s \<Longrightarrow> (\<And>d. d \<in> set ds \<Longrightarrow> lan_deed E is d) \<Longrightarrow>
   lan_since E is log (s\<lparr>deeds := deeds s @ ds\<rparr>)"
  by (auto simp: lan_since_def)

lemma lan_since_deed:
  "lan_since E is log s \<Longrightarrow> lan_deed E is d \<Longrightarrow> lan_since E is log (s\<lparr>deeds := deeds s @ [d]\<rparr>)"
  by (auto intro: lan_since_deeds)

lemma lan_since_mode: "lan_since E is log s \<Longrightarrow> live_mode s = LanOnly"
  by (simp add: lan_since_def)

lemma keeps_lan_book [keeps_intros]:
  "keeps (lan_since E is log) (remember_address p a)" "keeps (lan_since E is log) (expire_address p a)"
  unfolding remember_address_def expire_address_def
  by (rule keeps_modify; simp split: option.splits)+

lemma keeps_lan_established [keeps_intros]: "keeps (lan_since E is log) (on_established p cid endpoint)"
  unfolding on_established_def deed_defs
  by (intro keeps_seqA keeps_ask keeps_lan_book keeps_swarm_do)
    (auto simp: wants_reservation_def lan_since_mode lan_deed_def intro: lan_since_deed)

lemma keeps_lan_closed [keeps_intros]: "keeps (lan_since E is log) (on_closed p cid)"
  unfolding on_closed_def deed_defs
  by (intro keeps_intros) (auto simp: lan_deed_def intro: lan_since_deed split: option.splits)

lemma keeps_lan_event: "keeps (lan_since E is log) (handle_swarm_event E ev)"
  unfolding event_defs deed_defs
  by (cases ev) (auto split: mdns_event.splits kad_event.splits query_result.splits identify_event.splits
      rr_event.splits sum.splits simp: lan_deed_def intro: lan_since_deed intro!: keeps_intros)

lemma keeps_lan_dial:
  assumes "FromHandle (Dial y k) \<in> set is"
  shows "keeps (lan_since E is log) (cmd_dial E y k)"
proof (cases "peer_id_from_y7 E y")
  case (Inr p)
  have "lan_since E is log (snd (cmd_dial E y k s))" if lan: "lan_since E is log s" for s
  proof -
    have "lan_deed E is (DialPeer p (dial_candidates p s))"
      using assms Inr lan
      by (auto simp: lan_deed_def dial_candidates_def drop_circuits_def lan_since_mode
          intro!: bexI [of _ "FromHandle (Dial y k)"])
    then show ?thesis
      using lan
      by (auto simp: cmd_dial_def Inr swarm_dial_def andThen_Inr seqA_Inr intro!: lan_since_deeds
          split: option.splits dial_error.splits) (simp_all add: lan_deed_def)
  qed
  then show ?thesis
    by (rule keepsI)
qed (auto simp: cmd_dial_def deed_defs lan_deed_def intro!: keeps_intros lan_since_deed)

lemma keeps_lan_find:
  assumes "FromHandle (FindPeer y k) \<in> set is"
  shows "keeps (lan_since E is log) (cmd_find_peer E y k)"
proof (cases "peer_id_from_y7 E y")
  case (Inr p)
  then have "lan_deed E is (KadGetProviders p)"
    using assms by (auto simp: lan_deed_def intro!: bexI [of _ "FromHandle (FindPeer y k)"])
  with Inr show ?thesis
    by (auto simp: cmd_find_peer_def deed_defs lan_deed_def intro!: keeps_intros lan_since_deed)
qed (auto simp: cmd_find_peer_def deed_defs lan_deed_def intro!: keeps_intros lan_since_deed)

lemma keeps_lan_mode: "keeps (lan_since E is log) (cmd_apply_dial_mode LanOnly)"
  by (auto simp: keeps_def cmd_apply_dial_mode_def seqA_Inr enter_lan_only_run lan_deed_def lan_since_def)

lemma forA_ret: "forA bs (\<lambda>b. ret ()) s = (Inr (), s)"
  by (induction bs) (simp_all add: seqA_Inr)

lemma keeps_lan_bootstraps: "keeps (lan_since E is log) (cmd_update_bootstraps as)"
  unfolding cmd_update_bootstraps_def
  by (intro keeps_ask) (simp add: Let_def seqA_Inr forA_ret lan_since_mode)

lemma keeps_lan_command:
  assumes "FromHandle cmd \<in> set is" "cmd \<noteq> ApplyDialMode InternetMode"
  shows "keeps (lan_since E is log) (handle_command E cmd)"
proof (cases cmd)
  case (Dial y k)
  with assms show ?thesis
    by (simp add: handle_command_def keeps_lan_dial)
next
  case (FindPeer y k)
  with assms show ?thesis
    by (simp add: handle_command_def keeps_lan_find)
next
  case (ApplyDialMode m)
  with assms show ?thesis
    by (cases m) (simp_all add: handle_command_def keeps_lan_mode)
next
  case (UpdateBootstraps as)
  then show ?thesis
    by (simp add: handle_command_def keeps_lan_bootstraps)
next
  case (DialAddress a)
  with assms show ?thesis
    by (auto simp: handle_command_def cmd_dial_address_def deed_defs lan_deed_def
        intro!: keeps_intros lan_since_deed)
qed (use assms in \<open>auto simp: command_defs deed_defs lan_deed_def split: sum.splits
       intro!: keeps_intros lan_since_deed\<close>)

lemma keeps_lan_turn:
  assumes "i \<in> set is" "i \<noteq> FromHandle (ApplyDialMode InternetMode)"
  shows "keeps (lan_since E is log) (task_turn E i)"
proof (cases i)
  case ReconnectTick
  then show ?thesis
    unfolding task_turn_def by (simp add: keeps_def lan_since_mode)
qed (use assms in \<open>auto simp: task_turn_def keeps_lan_event keeps_lan_command intro!: keeps_intros\<close>)

text \<open>A dial through a relay.\<close>

definition relayed_dial :: "deed \<Rightarrow> bool" where
  "relayed_dial d \<longleftrightarrow>
     (case d of DialPeer _ as \<Rightarrow> \<exists>a \<in> set as. has_circuit a | DialAddr a \<Rightarrow> has_circuit a | _ \<Rightarrow> False)"

text \<open>
  C11. While the mode is LAN-only and nobody switches it back, the task stays in it, and does
  nothing on the internet of its own account: it dials and looks up only what a command asks
  for, opens no listener (no circuit is reserved), and neither fills nor bootstraps the DHT's
  routing table. A peer is dialled at direct addresses only; what goes through a relay is at most an
  address that a \<open>DialAddress\<close> command itself names, which the task does not filter.
\<close>

theorem lan_only_task_is_quiet:
  assumes "live_mode s = LanOnly" "FromHandle (ApplyDialMode InternetMode) \<notin> set is"
    "t = snd (run_swarm E is s)"
  shows "live_mode t = LanOnly \<and> (\<exists>ds. deeds t = deeds s @ ds \<and> (\<forall>d \<in> set ds. lan_deed E is d) \<and>
    (\<forall>d \<in> set ds. relayed_dial d \<longrightarrow> (\<exists>a. d = DialAddr a \<and> FromHandle (DialAddress a) \<in> set is)))"
proof -
  have "keeps (lan_since E is (deeds s)) (run_swarm E is)"
    using assms(2) by (intro keeps_run keeps_lan_turn) auto
  moreover have "lan_since E is (deeds s) s"
    using assms(1) by (simp add: lan_since_def)
  ultimately have "lan_since E is (deeds s) t"
    by (simp add: assms(3) keeps_def)
  then obtain ds where "live_mode t = LanOnly" "deeds t = deeds s @ ds" and ds: "\<forall>d \<in> set ds. lan_deed E is d"
    by (auto simp: lan_since_def)
  moreover have "\<exists>a. d = DialAddr a \<and> FromHandle (DialAddress a) \<in> set is" if "lan_deed E is d" "relayed_dial d" for d
    using that by (auto simp: lan_deed_def relayed_dial_def split: deed.splits)
  ultimately show ?thesis
    by blast
qed

text \<open>
  A bootstrap connects in LAN-only mode, an address is dialled and then the peer at it: the
  deeds are the two dials that were asked for. In internet mode the same inputs dial the bootstrap,
  bootstrap the DHT and reserve a circuit.
\<close>

definition lan_peer :: y7id where
  "lan_peer = Y7Id (replicate 32 2)"

definition lan_addr_of_peer :: maddr where
  "lan_addr_of_peer = [Ip4 10 0 0 2, Tcp 1, P2p (0 # replicate 32 2)]"

definition lan_inputs :: "task_input list" where
  "lan_inputs = [ReconnectTick, FromHandle (UpdateBootstraps [relay_endpoint]), relay_up,
     FromHandle (DialAddress lan_addr_of_peer), FromHandle (Dial lan_peer 0)]"

definition new_dials :: "dial_mode \<Rightarrow> deed list" where
  "new_dials mode =
     (let s = spawn_swarm_with_bootstraps sample_libp2p [relay_endpoint] mode;
          ds = drop (length (deeds s)) (deeds (snd (run_swarm sample_ext lan_inputs s)))
      in filter (\<lambda>d. case d of DialPeer _ _ \<Rightarrow> True | DialAddr _ \<Rightarrow> True | ListenOn _ \<Rightarrow> True | KadBootstrap \<Rightarrow> True | _ \<Rightarrow> False) ds)"

theorem lan_only_task_is_quiet_witness:
  "new_dials LanOnly = [DialAddr lan_addr_of_peer, DialPeer (0 # replicate 32 2) [lan_addr_of_peer]] \<and>
   list_all (lan_deed sample_ext lan_inputs) (new_dials LanOnly) \<and>
   new_dials InternetMode = [DialPeer relay_peer [relay_endpoint], KadBootstrap,
     ListenOn (relay_endpoint @ [P2pCircuit]), DialAddr lan_addr_of_peer, DialPeer (0 # replicate 32 2) [lan_addr_of_peer]]"
proof (intro conjI)
  let ?s = "spawn_swarm_with_bootstraps sample_libp2p [relay_endpoint] LanOnly"
  have "live_mode ?s = LanOnly"
    by code_simp
  moreover have "FromHandle (ApplyDialMode InternetMode) \<notin> set lan_inputs"
    by (simp add: lan_inputs_def relay_up_def)
  ultimately obtain ds where "deeds (snd (run_swarm sample_ext lan_inputs ?s)) = deeds ?s @ ds"
    "\<forall>d \<in> set ds. lan_deed sample_ext lan_inputs d"
    using lan_only_task_is_quiet [OF _ _ refl] by metis
  then show "list_all (lan_deed sample_ext lan_inputs) (new_dials LanOnly)"
    by (auto simp: new_dials_def Let_def list_all_iff)
qed code_simp+

text \<open>
  The DHT still serves the peers that it meets on the local network, and the first of them makes
  the task advertise itself, in LAN-only mode too.
\<close>

lemma lan_only_still_provides:
  assumes "live_mode s = LanOnly" "\<not> provided_self s"
  shows "KadStartProviding (lp_local_peer (lp s)) \<in>
    set (deeds (snd (handle_kad (RoutingUpdated p []) s)))"
  using assms
  by (auto simp: handle_kad_def advertise_self_def swarm_call_def seqA_def andThen_def split: option.splits)

end
