(* ===== verification/System.thy ===== *)
theory System
  imports Ticker Message_Commands Contact_Commands Swarm_Slots Swarm_Lan
begin

text \<open>
  The whole client: the event loop (\<open>event_loop.rs\<close>), the commands of the user interface
  (\<open>src-tauri/src/commands.rs\<close>), the tasks that handlers spawn, the start (\<open>AppHandle::boot\<close>), and
  the node in which the network task and the application run next to each other, joined by the
  stream of network events.
\<close>

section \<open>The event loop\<close>

definition dispatch :: "ext \<Rightarrow> net_event \<Rightarrow> (app, unit) action" where
  "dispatch E ev =
     (case ev of
        Listening _ \<Rightarrow> ret ()
      | PeerDiscovered p addrs y \<Rightarrow> peer_discovered E p addrs y
      | ConnectionEstablished p cid kind a \<Rightarrow> connection_established E p cid kind a
      | ConnectionUpgraded p cid kind \<Rightarrow> connection_upgraded E p cid kind
      | ConnectionUpgradeFailed p e \<Rightarrow> connection_upgrade_failed E p e
      | ConnectionClosed p cid \<Rightarrow> connection_closed E p cid
      | HandshakeReceived p request ch \<Rightarrow> handle_handshake E p request ch
      | MsgReceived p envelope ch \<Rightarrow> handle_msg E p envelope ch
      | SyncReceived p request ch \<Rightarrow> handle_sync E p request ch
      | NatStatus a server ok \<Rightarrow> handle_nat_status E a server ok
      | NetError _ \<Rightarrow> ret ())"

text \<open>A handler that fails is reported, and the loop goes on.\<close>

definition loop_turn :: "ext \<Rightarrow> net_event \<Rightarrow> (app, unit) action" where
  "loop_turn E ev =
     andThen (attempt (dispatch E ev)) (\<lambda>r.
       case r of
         Inl e \<Rightarrow> emit (BackgroundError (show_error e))
       | Inr _ \<Rightarrow> ret ())"

section \<open>The commands of the user interface\<close>

datatype contact_command =
    GetMyId
  | ListContacts
  | ListPendingRequests
  | SendContactRequest string "string option"
  | AcceptRequest int
  | RejectRequest int
  | CancelRequest int
  | DeleteContact string

datatype message_command =
    ListMessages string int
  | SendMessage string string

datatype settings_command =
    GetSettings
  | UpdateSettings settings
  | ListBootstraps
  | PingAllBootstraps
  | SelectBestBootstrap
  | GetDcutrStats
  | GetNatStatus
  | GetDiagnosticsDetail
  | ListActiveConnections

datatype user_command =
    OfContacts contact_command
  | OfMessages message_command
  | OfSettings settings_command

datatype answer =
    Done
  | AnId string
  | Contacts "contact_view list"
  | Requests "request_view list"
  | Messages "message_view list"
  | TheSettings settings
  | Bootstraps "bootstrap_entry list"
  | Chosen "string option"
  | DcutrStats dcutr_stats
  | NatVerdict nat_reachability
  | Diagnostics diagnostics_detail
  | ActiveConnections "connection_view list"

text \<open>A peer is named by its URI, which must parse strictly.\<close>

definition for_peer :: "ext \<Rightarrow> string \<Rightarrow> (y7id \<Rightarrow> (app, 'a) action) \<Rightarrow> (app, 'a) action" where
  "for_peer E uri f = andThen (lift_res (parse_strict E uri)) f"

definition giving :: "('a \<Rightarrow> answer) \<Rightarrow> (app, 'a) action \<Rightarrow> (app, answer) action" where
  "giving f m = andThen m (\<lambda>x. ret (f x))"

definition invoke_contacts :: "ext \<Rightarrow> contact_command \<Rightarrow> (app, answer) action" where
  "invoke_contacts E c =
     (case c of
        GetMyId \<Rightarrow> giving AnId (asks (\<lambda>s. to_uri E (my_y7_id s)))
      | ListContacts \<Rightarrow> giving Contacts (list_contacts E)
      | ListPendingRequests \<Rightarrow> giving Requests (list_pending_requests E)
      | SendContactRequest uri greeting \<Rightarrow>
          giving (\<lambda>_. Done) (for_peer E uri (\<lambda>y. send_contact_request E y greeting))
      | AcceptRequest i \<Rightarrow> giving (\<lambda>_. Done) (accept_request E i)
      | RejectRequest i \<Rightarrow> giving (\<lambda>_. Done) (reject_request E i)
      | CancelRequest i \<Rightarrow> giving (\<lambda>_. Done) (cancel_request E i)
      | DeleteContact uri \<Rightarrow> giving (\<lambda>_. Done) (for_peer E uri (delete_contact E)))"

definition invoke_messages :: "ext \<Rightarrow> message_command \<Rightarrow> (app, answer) action" where
  "invoke_messages E c =
     (case c of
        ListMessages uri limit \<Rightarrow> giving Messages (for_peer E uri (\<lambda>y. list_messages E y limit))
      | SendMessage uri text \<Rightarrow>
          giving (\<lambda>i. AnId (message_id_show E i)) (for_peer E uri (\<lambda>y. send_message E y text)))"

definition invoke_settings :: "ext \<Rightarrow> settings_command \<Rightarrow> (app, answer) action" where
  "invoke_settings E c =
     (case c of
        GetSettings \<Rightarrow> giving TheSettings (get_settings E)
      | UpdateSettings st \<Rightarrow> giving (\<lambda>_. Done) (update_settings E st)
      | ListBootstraps \<Rightarrow> giving Bootstraps (list_bootstraps E)
      | PingAllBootstraps \<Rightarrow> giving Bootstraps (ping_all_bootstraps E)
      | SelectBestBootstrap \<Rightarrow> giving Chosen (select_best_bootstrap E)
      | GetDcutrStats \<Rightarrow> giving DcutrStats (asks get_dcutr_stats)
      | GetNatStatus \<Rightarrow> giving NatVerdict (asks get_nat_status)
      | GetDiagnosticsDetail \<Rightarrow> giving Diagnostics (asks get_diagnostics_detail)
      | ListActiveConnections \<Rightarrow> giving ActiveConnections (list_active_connections E))"

definition invoke :: "ext \<Rightarrow> user_command \<Rightarrow> (app, answer) action" where
  "invoke E c =
     (case c of
        OfContacts c \<Rightarrow> invoke_contacts E c
      | OfMessages c \<Rightarrow> invoke_messages E c
      | OfSettings c \<Rightarrow> invoke_settings E c)"

text \<open>An error reaches the user interface as its text.\<close>

definition run_command :: "ext \<Rightarrow> user_command \<Rightarrow> app \<Rightarrow> (string + answer) \<times> app" where
  "run_command E c s =
     (case invoke E c s of
        (Inl e, t) \<Rightarrow> (Inl (show_error e), t)
      | (Inr a, t) \<Rightarrow> (Inr a, t))"

section \<open>Spawned tasks\<close>

definition run_task :: "ext \<Rightarrow> task \<Rightarrow> (app, unit) action" where
  "run_task E t =
     (case t of
        PushOne i y p envelope \<Rightarrow> push_one E i y p envelope
      | KickSync y p \<Rightarrow> run_kick_sync E y p
      | FlushAndDisconnect y p \<Rightarrow> run_flush_and_disconnect E y p)"

section \<open>The start\<close>

definition fresh_app :: "net_env \<Rightarrow> local_identity \<Rightarrow> bytes \<Rightarrow> db \<Rightarrow> app" where
  "fresh_app N me pk d =
     \<lparr>app_db = d, app_net = N, app_me = li_signing_key me, my_pubkey = pk, my_y7_id = li_y7_id me,
      presence = [], connections = Map.empty, app_limiter = default_limits,
      bootstrap_pings = Map.empty, nat_status = nat_status_default, dcutr_attempts = 0,
      dcutr_successes = 0, dcutr_failures = 0, dcutr_recent_failures = [], rl_drops_handshake = 0,
      rl_drops_msg = 0, rl_drops_sync = 0, nat_probe_detail = None, wake_pending = False,
      upgrade_backoff = Map.empty, reconnect_backoff = Map.empty, syncing = {},
      connection_meta_of = Map.empty, transition_ring = [], app_events = [], app_wire = [],
      app_tasks = []\<rparr>"

text \<open>
  The database is open; the identity is loaded or made, libp2p builds the swarm or fails to, and
  the network task starts in the stored mode with the stored bootstraps.
\<close>

definition initial_mode :: "ext \<Rightarrow> db \<Rightarrow> dial_mode" where
  "initial_mode E d = (case fst (settings_get E d) of Inr st \<Rightarrow> dial_mode st | Inl _ \<Rightarrow> dial_mode_default)"

definition boot :: "ext \<Rightarrow> net_env \<Rightarrow> libp2p res \<Rightarrow> db \<Rightarrow> (app \<times> swarm_task) res" where
  "boot E N built d =
     (case identity_ensure E d of
        (Inl e, _) \<Rightarrow> Inl e
      | (Inr me, d) \<Rightarrow>
          bindR built (\<lambda>L.
            case load_bootstraps E d of
              (Inl e, _) \<Rightarrow> Inl e
            | (Inr bootstraps, d) \<Rightarrow>
                let s = fresh_app N me (vk_bytes (verifying_key E (li_signing_key me))) d in
                Inr (s\<lparr>app_events := [IdentityReady (to_uri E (li_y7_id me))]\<rparr>,
                     spawn_swarm_with_bootstraps L bootstraps (initial_mode E d))))"

text \<open>The task that dials every accepted contact once after the start.\<close>

definition boot_reconnect :: "ext \<Rightarrow> (app, unit) action" where
  "boot_reconnect E =
     andThen (attempt (on_db (contacts_list E))) (\<lambda>r.
       case r of
         Inl _ \<Rightarrow> ret ()
       | Inr contacts \<Rightarrow>
           forA (filter (\<lambda>c. contact_state c = Accepted) contacts)
             (\<lambda>c. dial_with_discovery E (contact_id c)))"

section \<open>A node\<close>

text \<open>
  The application has read the first \<open>node_read\<close> entries of the network task's log for published
  events. A reader that lags loses the oldest ones.
\<close>

record node =
  node_app :: app
  node_task :: swarm_task
  node_read :: nat

definition published :: "deed \<Rightarrow> net_event option" where
  "published d = (case d of Published ev \<Rightarrow> Some ev | _ \<Rightarrow> None)"

inductive node_step :: "ext \<Rightarrow> node \<Rightarrow> node \<Rightarrow> bool" for E where
  network: "\<not> ends_task i \<Longrightarrow> node_step E n (n\<lparr>node_task := snd (task_turn E i (node_task n))\<rparr>)"
| event: "node_read n < length (deeds (node_task n)) \<Longrightarrow>
    published (deeds (node_task n) ! node_read n) = Some ev \<Longrightarrow>
    node_step E n (n\<lparr>node_app := snd (loop_turn E ev (node_app n)), node_read := node_read n + 1\<rparr>)"
| pass: "node_read n < k \<Longrightarrow> k \<le> length (deeds (node_task n)) \<Longrightarrow> node_step E n (n\<lparr>node_read := k\<rparr>)"
| command: "node_step E n (n\<lparr>node_app := snd (run_command E c (node_app n))\<rparr>)"
| tick: "node_step E n (n\<lparr>node_app := snd (presence_tick E woken (node_app n))\<rparr>)"
| spawned: "app_tasks (node_app n) = before @ t # after \<Longrightarrow>
    node_step E n (n\<lparr>node_app := snd (run_task E t ((node_app n)\<lparr>app_tasks := before @ after\<rparr>))\<rparr>)"
| reconnect: "node_step E n (n\<lparr>node_app := snd (boot_reconnect E (node_app n))\<rparr>)"
| environment: "node_step E n (n\<lparr>node_app := (node_app n)
    \<lparr>app_net := N, app_db := (app_db (node_app n))\<lparr>db_os := os\<rparr>\<rparr>\<rparr>)"

inductive reachable :: "ext \<Rightarrow> node \<Rightarrow> bool" for E where
  booted: "boot E N built d = Inr (s, t) \<Longrightarrow> reachable E \<lparr>node_app = s, node_task = t, node_read = 0\<rparr>"
| stepped: "reachable E n \<Longrightarrow> node_step E n n' \<Longrightarrow> reachable E n'"

inductive_cases node_stepE: "node_step E n n'"

section \<open>What every part of the client keeps\<close>

lemma typed_sweep [typed_db]: "keeps store_typed (sweep_stale_relay_addrs E)"
  unfolding sweep_stale_relay_addrs_def sweep_peer_def by (intro keeps_intros typed_db)

lemma typed_load_bootstraps [typed_db]: "keeps store_typed (load_bootstraps E)"
  by (rule keepsI) (metis load_bootstraps_run snd_conv)

context client_predicate
begin

lemma keeps_contact_commands:
  "keeps P (send_contact_request E y greeting)" "keeps P (accept_request E i)"
  "keeps P (reject_request E i)" "keeps P (cancel_request E i)" "keeps P (delete_contact E y)"
proof -
  have ensure: "keeps P (ensure_contact_out E y)"
    unfolding ensure_contact_out_def by (intro keeps_intros keeps_primitives)
  have "keeps P (initiate_handshake E y p greeting)" for p
    unfolding initiate_handshake_def send_handshake_def by (intro keeps_intros keeps_primitives)
  then show "keeps P (send_contact_request E y greeting)"
    unfolding send_contact_request_def
    by (intro keeps_intros keeps_primitives ensure keeps_discovery)
  have seal: "keeps P (seal_for E z c)" and session: "keeps P (has_session E z)" for z c
    unfolding seal_for_def has_session_def by (intro keeps_intros keeps_primitives)+
  have control: "keeps P (send_control E z c)" for z c
    unfolding send_control_def
    by (intro keeps_andThen session keeps_if keeps_ret seal)
      (auto intro!: keeps_intros keeps_primitives split: option.splits sum.splits)
  have find: "keeps P (find_request E i)"
    unfolding find_request_def by (intro keeps_intros keeps_primitives)
  show "keeps P (accept_request E i)" "keeps P (reject_request E i)" "keeps P (cancel_request E i)"
    unfolding accept_request_def reject_request_def cancel_request_def
    by (intro keeps_intros keeps_primitives find control)+
  have "keeps P (enqueue_chat_deleted E y)"
    unfolding enqueue_chat_deleted_def
    by (intro keeps_intros keeps_primitives session seal)
  moreover have "keeps P (wipe_conversation E y)"
    unfolding wipe_conversation_def by (intro keeps_intros keeps_primitives forget)
  ultimately show "keeps P (delete_contact E y)"
    unfolding delete_contact_def by (intro keeps_intros keeps_primitives)
qed

lemma keeps_ping_each: "keeps P (ping_each E as)"
proof (induction as)
  case (Cons a as)
  have "keeps P (ping_one E a)"
    unfolding ping_one_def by (intro keeps_intros)
  then show ?case
    by (simp only: ping_each.simps) (intro keeps_andThen keeps_ret Cons.IH)
qed (simp only: ping_each.simps keeps_ret)

lemma keeps_settings_commands:
  "keeps P (update_settings E st)" "keeps P (ping_all_bootstraps E)" "keeps P (select_best_bootstrap E)"
proof -
  have "keeps P (republish_contacts E)"
    unfolding republish_contacts_def emit_presence_def
    by (auto intro!: keeps_intros keeps_primitives refresh split: sum.splits)
  moreover have "keeps P (modify (\<lambda>s. s\<lparr>upgrade_backoff := Map.empty, wake_pending := True\<rparr>))"
    by (intro keeps_modify wake backoffs)
  ultimately have "keeps P (apply_mode_change E m)" for m
    unfolding apply_mode_change_def
    by (intro keeps_seqA keeps_ignore keeps_if keeps_ret keeps_primitives typed_sweep)
  then show "keeps P (update_settings E st)"
    unfolding update_settings_def
    by (auto intro!: keeps_andThen keeps_seqA keeps_attempt keeps_ignore keeps_ret keeps_primitives
        typed_load_bootstraps)
  show all: "keeps P (ping_all_bootstraps E)"
    unfolding ping_all_bootstraps_def by (intro keeps_intros keeps_primitives keeps_ping_each pings)
  show "keeps P (select_best_bootstrap E)"
    unfolding select_best_bootstrap_def by (intro keeps_intros all)
qed

lemma keeps_send: "keeps P (send_message E y text)"
  unfolding send_message_def Let_def by (intro keeps_intros keeps_primitives)

lemma keeps_readers:
  "keeps P (list_contacts E)" "keeps P (list_pending_requests E)" "keeps P (list_messages E y limit)"
  "keeps P (get_settings E)" "keeps P (list_bootstraps E)" "keeps P (list_active_connections E)"
  unfolding list_contacts_def list_pending_requests_def list_messages_def get_settings_def
    list_bootstraps_def list_active_connections_def Let_def
  by (intro keeps_intros keeps_primitives)+

lemma keeps_invoke: "keeps P (invoke E c)"
proof -
  have "keeps P (invoke_contacts E c)" for c
    unfolding invoke_contacts_def giving_def for_peer_def
    by (cases c) (simp_all, (intro keeps_intros keeps_contact_commands keeps_readers)+)
  moreover have "keeps P (invoke_messages E c)" for c
    unfolding invoke_messages_def giving_def for_peer_def
    by (cases c) (simp_all, (intro keeps_intros keeps_send keeps_readers)+)
  moreover have "keeps P (invoke_settings E c)" for c
    unfolding invoke_settings_def giving_def
    by (cases c) (simp_all, (intro keeps_intros keeps_settings_commands keeps_readers)+)
  ultimately show ?thesis
    by (cases c) (simp_all add: invoke_def)
qed

lemma keeps_run_task: "keeps P (run_task E t)"
proof (cases t)
  case (PushOne i y p e)
  then show ?thesis
    by (simp add: run_task_def push_one_def) (intro keeps_intros keeps_primitives)
next
  case (FlushAndDisconnect y p)
  then show ?thesis
    by (simp add: run_task_def run_flush_and_disconnect_def) (intro keeps_intros keeps_primitives keeps_flush)
qed (simp add: run_task_def keeps_kick_sync)

lemma keeps_boot_reconnect: "keeps P (boot_reconnect E)"
  unfolding boot_reconnect_def
  by (auto intro!: keeps_andThen keeps_attempt keeps_forA keeps_ret keeps_primitives keeps_discovery
      split: sum.splits)

text \<open>The events that neither record nor close a connection.\<close>

lemma keeps_other_events:
  "keeps P (dispatch E (Listening a))" "keeps P (dispatch E (PeerDiscovered p as z))"
  "keeps P (dispatch E (HandshakeReceived p hq ch))" "keeps P (dispatch E (MsgReceived p e ch))"
  "keeps P (dispatch E (SyncReceived p sq ch))" "keeps P (dispatch E (NetError m))"
  by (simp_all add: dispatch_def keeps_ret keeps_discovered keeps_handle_handshake keeps_handle_msg
      keeps_handle_sync forget del: run_ret)

lemma keeps_loop_turn: "keeps P (dispatch E ev) \<Longrightarrow> keeps P (loop_turn E ev)"
  unfolding loop_turn_def by (auto intro!: keeps_andThen keeps_attempt keeps_primitives keeps_ret split: sum.splits)

lemma run_command_keeps: "P s \<Longrightarrow> P (snd (run_command E c s))"
  using keepsD [OF keeps_invoke, of s E c]
  by (cases "invoke E c s"; cases "fst (invoke E c s)") (auto simp: run_command_def)

end

section \<open>Reachable nodes\<close>

lemma dispatch_caches: "keeps caches_ok (dispatch E ev)"
  by (cases ev)
    (simp_all only: client_caches.keeps_other_events, simp_all add: dispatch_def established_caches
      upgraded_caches upgrade_failed_caches closed_caches nat_status_caches)

text \<open>Where the connections of a state come from.\<close>

definition conns_within :: "(y7id \<times> connection_id) set \<Rightarrow> app \<Rightarrow> bool" where
  "conns_within X s \<longleftrightarrow> (\<forall>y. \<forall>i \<in> fst ` set (conns_of y s). (y, i) \<in> X)"

lemma conns_within_same: "conns_within X s \<Longrightarrow> connections t = connections s \<Longrightarrow> conns_within X t"
  by (simp add: conns_within_def conns_of_def)

lemma conns_within_mono: "conns_within X s \<Longrightarrow> X \<subseteq> Y \<Longrightarrow> conns_within Y s"
  by (auto simp: conns_within_def)

lemma conns_within_upd:
  "conns_within X s \<Longrightarrow> Pair y ` fst ` set cs \<subseteq> X \<Longrightarrow>
   connections t = (connections s)(y \<mapsto> cs) \<Longrightarrow> conns_within X t"
  by (fastforce simp: conns_within_def conns_of_def)

lemma conns_within_fewer:
  assumes "conns_within X s" "\<And>z. set (conns_of z t) \<subseteq> set (conns_of z s)"
  shows "conns_within X t"
  using assms by (fastforce simp: conns_within_def)

interpretation client_conns: client_predicate "conns_within X"
proof
  show "keeps (conns_within X) (refresh_presence y)" for y
    by (rule keepsI) (erule conns_within_same, simp add: refresh_presence_run split: prod.splits)
  show "keeps (conns_within X) (demote E y ids)" for E y ids
  proof (rule keepsI)
    fix s
    assume "conns_within X s"
    moreover have "connections (snd (demote E y ids s)) = connections (prune y ids s)"
      by (simp add: run_demote Let_def refresh_presence_run split: prod.splits)
    then have "set (conns_of z (snd (demote E y ids s))) \<subseteq> set (conns_of z s)" for z
      using foldl_delete [of "conns_of y s" ids]
      by (auto simp: conns_of_def prune_def Let_def split: option.splits if_splits)
    ultimately show "conns_within X (snd (demote E y ids s))"
      by (rule conns_within_fewer)
  qed
  show "conns_within X (forget_peer y s)" if "conns_within X s" for y s
    using that by (rule conns_within_fewer) (auto simp: forget_peer_def conns_of_def)
qed (erule conns_within_same, simp)+

text \<open>The connections that an event brings.\<close>

definition brings :: "ext \<Rightarrow> net_event \<Rightarrow> (y7id \<times> connection_id) set" where
  "brings E ev =
     (case ev of
        ConnectionEstablished p i _ _ \<Rightarrow> {(y, i) |y. y7_id_from_peer_id E p = Some y}
      | ConnectionUpgraded p i _ \<Rightarrow> {(y, i) |y. y7_id_from_peer_id E p = Some y}
      | _ \<Rightarrow> {})"

lemma bringsD:
  "(y, i) \<in> brings E ev \<Longrightarrow> \<exists>p kind. y7_id_from_peer_id E p = Some y \<and>
     ((\<exists>a. ev = ConnectionEstablished p i kind a) \<or> ev = ConnectionUpgraded p i kind)"
  by (cases ev) (auto simp: brings_def)

lemma keeps_publish_conns:
  "keeps (conns_within X) between \<Longrightarrow> keeps (conns_within X) (publish_presence E y between)"
  unfolding publish_presence_def record_transition_def emit_presence_def
  by (auto intro!: keeps_andThen keeps_seqA keeps_modify keeps_app_now_ms client_conns.refresh
      client_conns.keeps_primitives elim!: conns_within_same simp: Let_def)

lemma conns_after_update:
  assumes "conns_within X s" "\<And>now cs. fst ` set (f now cs) \<subseteq> insert i (fst ` set cs)"
  shows "conns_within (insert (y, i) X) (snd (update_conns y f s))"
proof (rule conns_within_upd)
  show "conns_within (insert (y, i) X) s"
    using assms(1) by (rule conns_within_mono) auto
  show "connections (snd (update_conns y f s)) =
      (connections s)(y \<mapsto> f (os_instant (db_os (app_db s))) (conns_of y s))"
    by (simp add: update_conns_def andThen_def)
  show "Pair y ` fst ` set (f (os_instant (db_os (app_db s))) (conns_of y s)) \<subseteq> insert (y, i) X"
    using assms(2) [of "os_instant (db_os (app_db s))" "conns_of y s"] assms(1)
    by (fastforce simp: conns_within_def)
qed

lemma update_conns_then:
  assumes "conns_within X s" "\<And>now cs. fst ` set (f now cs) \<subseteq> insert i (fst ` set cs)"
    and "keeps (conns_within (insert (y, i) X)) rest"
  shows "conns_within (insert (y, i) X) (snd (seqA (update_conns y f) rest s))"
proof -
  have "seqA (update_conns y f) rest s = rest (snd (update_conns y f s))"
    by (simp add: seqA_def update_conns_def andThen_def)
  then show ?thesis
    using keepsD [OF assms(3) conns_after_update [OF assms(1), of f i y, OF assms(2)]] by simp
qed

lemma keeps_conns_backoffs:
  "keeps (conns_within X) (modify (\<lambda>s. s\<lparr>reconnect_backoff := f s\<rparr>))"
  "keeps (conns_within X) (modify (\<lambda>s. s\<lparr>upgrade_backoff := g s\<rparr>))"
  by (rule keeps_modify, erule conns_within_same, simp)+

lemma closed_conns: "keeps (conns_within X) (connection_closed E p i)"
proof -
  have "keeps (conns_within X) (drop_connection y i)" for y
    by (rule keepsI, erule conns_within_fewer)
      (auto simp: drop_connection_def Let_def conns_of_def AList.delete_eq split: option.splits if_splits)
  then show ?thesis
    unfolding connection_closed_def
    by (auto intro!: keeps_andThen keeps_seqA keeps_ret keeps_publish_conns keeps_conns_backoffs
        keeps_modify client_conns.limiter split: option.splits)
qed

lemma nat_conns: "keeps (conns_within X) (handle_nat_status E a server ok)"
  unfolding handle_nat_status_def
  by (auto intro!: keeps_andThen keeps_seqA keeps_ret keeps_modify keeps_asks client_conns.keeps_primitives
      elim!: conns_within_same)

lemma established_conns:
  assumes "conns_within X s"
  shows "conns_within (X \<union> brings E (ConnectionEstablished p i k a)) (snd (connection_established E p i k a s))"
proof (cases "y7_id_from_peer_id E p")
  case (Some y)
  have "conns_within (insert (y, i) X) (snd (connection_established E p i k a s))"
    unfolding connection_established_def Some option.case
    by (rule update_conns_then [OF assms])
      (auto simp: record_connection_def set_update_keys intro!: keeps_seqA keeps_publish_conns
        keeps_conns_backoffs client_conns.keeps_resume split: option.splits if_splits)
  moreover have "insert (y, i) X = X \<union> brings E (ConnectionEstablished p i k a)"
    by (auto simp: brings_def Some)
  ultimately show ?thesis
    by simp
qed (use assms in \<open>simp add: connection_established_def brings_def\<close>)

lemma upgraded_conns:
  assumes "conns_within X s"
  shows "conns_within (X \<union> brings E (ConnectionUpgraded p i k)) (snd (connection_upgraded E p i k s))"
proof -
  let ?u = "s\<lparr>dcutr_attempts := dcutr_attempts s + 1, dcutr_successes := dcutr_successes s + 1\<rparr>"
  have u: "conns_within X ?u"
    using assms by (rule conns_within_same) simp
  show ?thesis
  proof (cases "y7_id_from_peer_id E p")
    case (Some y)
    let ?v = "?u\<lparr>upgrade_backoff := (upgrade_backoff ?u)(y := None)\<rparr>"
    have v: "conns_within X ?v"
      using u by (rule conns_within_same) simp
    have "conns_within (insert (y, i) X) (snd (seqA (update_conns y (relabel_upgraded i k))
        (seqA (publish_presence E y (ret ())) (drain_queue_for_peer E y p False)) ?v))"
      by (rule update_conns_then [OF v])
        (auto simp: relabel_upgraded_def Let_def set_update_keys intro!: keeps_seqA keeps_publish_conns
          keeps_ret client_conns.keeps_drain)
    moreover have "insert (y, i) X = X \<union> brings E (ConnectionUpgraded p i k)"
      by (auto simp: brings_def Some)
    ultimately show ?thesis
      by (simp add: connection_upgraded_def Some seqA_Inr)
  qed (use u in \<open>simp add: connection_upgraded_def brings_def seqA_Inr\<close>)
qed

lemma dispatch_conns:
  assumes s: "conns_within X s"
  shows "conns_within (X \<union> brings E ev) (snd (dispatch E ev s))"
proof -
  have none: "conns_within X (snd (dispatch E ev s))" if "keeps (conns_within X) (dispatch E ev)"
    using that s by (rule keepsD)
  show ?thesis
  proof (cases ev)
    case (ConnectionEstablished p i k a)
    then show ?thesis
      using established_conns [OF s] by (simp add: dispatch_def)
  next
    case (ConnectionUpgraded p i k)
    then show ?thesis
      using upgraded_conns [OF s] by (simp add: dispatch_def)
  next
    case (ConnectionUpgradeFailed p e)
    then show ?thesis
      using s by (auto simp: dispatch_def connection_upgrade_failed_def brings_def intro: conns_within_same)
  next
    case (ConnectionClosed p i)
    then show ?thesis
      using none by (simp add: dispatch_def brings_def closed_conns)
  next
    case (NatStatus a server ok)
    then show ?thesis
      using none by (simp add: dispatch_def brings_def nat_conns)
  qed (use none in \<open>simp_all only: brings_def net_event.case Un_empty_right client_conns.keeps_other_events\<close>)
qed

lemma loop_turn_conns:
  assumes "conns_within X s"
  shows "conns_within (X \<union> brings E ev) (snd (loop_turn E ev s))"
proof -
  have "connections (snd (loop_turn E ev s)) = connections (snd (dispatch E ev s))"
    by (cases "dispatch E ev s"; cases "fst (dispatch E ev s)")
      (auto simp: loop_turn_def andThen_def attempt_def)
  with dispatch_conns [OF assms] show ?thesis
    by (rule conns_within_same)
qed

text \<open>The log of the network task only grows.\<close>

definition log_grows :: "deed list \<Rightarrow> swarm_task \<Rightarrow> bool" where
  "log_grows log s \<longleftrightarrow> (\<exists>ds. deeds s = log @ ds)"

lemma log_grows_deed: "log_grows log s \<Longrightarrow> log_grows log (s\<lparr>deeds := deeds s @ ds\<rparr>)"
  by (auto simp: log_grows_def)

lemma log_grows_same: "log_grows log s \<Longrightarrow> deeds t = deeds s \<Longrightarrow> log_grows log t"
  by (simp add: log_grows_def)

lemma keeps_log_turn: "keeps (log_grows log) (task_turn E i)"
proof -
  have book: "keeps (log_grows log) (remember_address p a)" "keeps (log_grows log) (expire_address p a)" for p a
    unfolding remember_address_def expire_address_def
    by (rule keeps_modify, erule log_grows_same, simp split: option.splits)+
  have "keeps (log_grows log) (on_established p cid endpoint)" "keeps (log_grows log) (on_closed p cid)"
    for p cid endpoint
    unfolding on_established_def on_closed_def deed_defs Let_def
    by (auto intro!: keeps_intros book log_grows_deed elim: log_grows_same split: sum.splits option.splits)
  then have "keeps (log_grows log) (handle_swarm_event E ev)" for ev
    unfolding event_defs deed_defs
    by (cases ev) (auto split: mdns_event.splits kad_event.splits query_result.splits identify_event.splits
        rr_event.splits sum.splits intro!: keeps_intros book log_grows_deed elim: log_grows_same)
  moreover have "keeps (log_grows log) (handle_command E cmd)" for cmd
    unfolding command_defs bootstrap_defs cmd_apply_dial_mode_def enter_lan_only_def enter_internet_def
      deed_defs
    by (cases cmd) (auto split: sum.splits dial_mode.splits option.splits dial_error.splits
        intro!: keeps_intros book log_grows_deed elim: log_grows_same)
  ultimately show ?thesis
    unfolding task_turn_def bootstrap_defs deed_defs
    by (cases i) (auto intro!: keeps_intros log_grows_deed)
qed

text \<open>What holds of every reachable node.\<close>

definition backing :: "ext \<Rightarrow> deed list \<Rightarrow> (y7id \<times> connection_id) set" where
  "backing E log = (\<Union>ev \<in> {ev. Published ev \<in> set log}. brings E ev)"

definition node_ok :: "ext \<Rightarrow> node \<Rightarrow> bool" where
  "node_ok E n \<longleftrightarrow>
     caches_ok (node_app n) \<and> book_ok (node_task n) \<and> reservations_ok (node_task n) \<and>
     conns_within (backing E (deeds (node_task n))) (node_app n)"

lemma booted_ok:
  assumes "boot E N built d = Inr (s, t)"
  shows "node_ok E \<lparr>node_app = s, node_task = t, node_read = 0\<rparr>"
proof -
  obtain me pk d' ev L bootstraps mode where s: "s = fresh_app N me pk d'\<lparr>app_events := ev\<rparr>"
    and t: "t = spawn_swarm_with_bootstraps L bootstraps mode"
  proof -
    obtain me d1 where me: "identity_ensure E d = (Inr me, d1)"
      using assms by (auto simp: boot_def split: prod.splits sum.splits)
    obtain bs where "load_bootstraps E d1 = (Inr bs, d1)"
      using load_bootstraps_run by blast
    with me assms that show ?thesis
      by (cases built) (auto simp: boot_def Let_def)
  qed
  have "caches_ok s"
    by (simp add: s fresh_app_def cache_defs presence_at_def best_of_def conns_ok_def nat_status_default_def
        nat_ok_def)
  moreover have "conns_within X s" for X
    by (simp add: s fresh_app_def conns_within_def conns_of_def)
  ultimately show ?thesis
    by (simp add: node_ok_def t spawned_book spawned_reservations)
qed

lemma network_turn_ok:
  assumes "node_ok E n"
  shows "node_ok E (n\<lparr>node_task := snd (task_turn E i (node_task n))\<rparr>)"
proof -
  have "log_grows (deeds (node_task n)) (snd (task_turn E i (node_task n)))"
    by (rule keepsD [OF keeps_log_turn]) (simp add: log_grows_def)
  then have "backing E (deeds (node_task n)) \<subseteq> backing E (deeds (snd (task_turn E i (node_task n))))"
    by (auto simp: log_grows_def backing_def)
  with assms show ?thesis
    by (auto simp: node_ok_def intro: keepsD [OF keeps_book_turn] keepsD [OF keeps_reservations_turn]
        conns_within_mono)
qed

lemma event_turn_ok:
  assumes "node_ok E n" "Published ev \<in> set (deeds (node_task n))"
  shows "caches_ok (snd (loop_turn E ev (node_app n)))"
    "conns_within (backing E (deeds (node_task n))) (snd (loop_turn E ev (node_app n)))"
proof -
  note ok = assms(1) [unfolded node_ok_def]
  show "caches_ok (snd (loop_turn E ev (node_app n)))"
    using ok by (intro keepsD [OF client_caches.keeps_loop_turn [OF dispatch_caches]]) simp
  have "backing E (deeds (node_task n)) \<union> brings E ev = backing E (deeds (node_task n))"
    using assms(2) by (auto simp: backing_def)
  then show "conns_within (backing E (deeds (node_task n))) (snd (loop_turn E ev (node_app n)))"
    using loop_turn_conns [of "backing E (deeds (node_task n))" "node_app n" E ev] ok by simp
qed

lemma node_step_ok:
  assumes "node_step E n n'" "node_ok E n"
  shows "node_ok E n'"
proof -
  have app: "node_ok E (n\<lparr>node_app := s\<rparr>)"
    if "caches_ok s" "conns_within (backing E (deeds (node_task n))) s" for s
    using assms(2) that by (simp add: node_ok_def)
  note ok = assms(2) [unfolded node_ok_def]
  show ?thesis
    using assms(1)
  proof cases
    case (network i)
    then show ?thesis
      using network_turn_ok [OF assms(2), of i] by simp
  next
    case (event ev)
    have "Published ev \<in> set (deeds (node_task n))"
      using event(2,3) by (auto simp: published_def in_set_conv_nth split: deed.splits)
    with event_turn_ok [OF assms(2)] assms(2) show ?thesis
      by (simp add: event node_ok_def)
  next
    case (spawned before t after)
    let ?s = "(node_app n)\<lparr>app_tasks := before @ after\<rparr>"
    have "caches_ok ?s" "conns_within (backing E (deeds (node_task n))) ?s"
      using ok by (auto intro: caches.tasks client_conns.tasks)
    then show ?thesis
      unfolding spawned by (intro app keepsD [OF client_caches.keeps_run_task] keepsD [OF client_conns.keeps_run_task])
  next
    case (environment os N)
    have "caches_ok ((node_app n)\<lparr>app_net := N\<rparr>)"
      "conns_within (backing E (deeds (node_task n))) ((node_app n)\<lparr>app_net := N\<rparr>)"
      using ok by (auto intro: client_caches.environment client_conns.environment)
    then show ?thesis
      unfolding environment by (intro app caches.db client_conns.db) (simp_all add: store_typed_tables)
  next
    case (pass k)
    then show ?thesis
      using ok by (simp add: node_ok_def)
  qed (use ok in \<open>auto intro!: app client_caches.run_command_keeps client_conns.run_command_keeps
      keepsD [OF client_caches.keeps_tick] keepsD [OF client_conns.keeps_tick]
      keepsD [OF client_caches.keeps_boot_reconnect] keepsD [OF client_conns.keeps_boot_reconnect]\<close>)
qed

lemma reachable_ok: "reachable E n \<Longrightarrow> node_ok E n"
  by (induction rule: reachable.induct) (blast intro: booted_ok node_step_ok)+

text \<open>
  C12. In every state that the client can reach, whatever events, commands, tasks and ticks led
  there in whatever order: the presence map shows for each peer the best of its live connections
  and nothing else, with that connection's metadata; no peer is listed without a connection; the
  lineage of each peer is a chain of at most forty-eight entries; and the upgrade counters add up.
\<close>

theorem reachable_caches:
  assumes "reachable E n" "s = node_app n"
  shows "map_of (presence s) y = (if fst (best_of y s) = Offline then None else Some (fst (best_of y s))) \<and>
    connection_meta_of s y = (if fst (best_of y s) = Offline then None else Some (snd (best_of y s))) \<and>
    connections s y \<noteq> Some [] \<and>
    length (transition_ring s) \<le> 48 \<and>
    chained (filter (\<lambda>t. tt_y7_id t = uri) (transition_ring s)) \<and>
    dcutr_attempts s = dcutr_successes s + dcutr_failures s"
  using reachable_ok [OF assms(1)] assms(2)
  by (auto simp: node_ok_def cache_defs presence_at_def conns_ok_def transition_ring_cap_def)

text \<open>
  C13. Presence is never invented: in every reachable state, a peer that is shown as present has
  a connection that the network task announced, opened or upgraded, under an id that is still
  among the live connections of that peer.
\<close>

theorem presence_is_backed:
  assumes "reachable E n" "map_of (presence (node_app n)) y = Some k"
  shows "\<exists>p i kind. y7_id_from_peer_id E p = Some y \<and> i \<in> fst ` set (conns_of y (node_app n)) \<and>
    ((\<exists>a. Published (ConnectionEstablished p i kind a) \<in> set (deeds (node_task n))) \<or>
     Published (ConnectionUpgraded p i kind) \<in> set (deeds (node_task n)))"
proof -
  have ok: "node_ok E n"
    using assms(1) by (rule reachable_ok)
  then have "presence_at y (node_app n)"
    by (simp add: node_ok_def caches_ok_def presence_ok_def)
  then have "fst (best_of y (node_app n)) \<noteq> Offline"
    using assms(2) by (auto simp: presence_at_def)
  then have "conns_of y (node_app n) \<noteq> []"
    by (auto simp: best_of_def conns_of_def split: option.splits)
  then obtain i where i: "i \<in> fst ` set (conns_of y (node_app n))"
    by (cases "conns_of y (node_app n)") auto
  with ok have "(y, i) \<in> backing E (deeds (node_task n))"
    by (auto simp: node_ok_def conns_within_def)
  then obtain ev where "Published ev \<in> set (deeds (node_task n))" "(y, i) \<in> brings E ev"
    by (auto simp: backing_def)
  with i show ?thesis
    using bringsD [of y i E ev] by blast
qed

section \<open>A concrete run\<close>

text \<open>The client starts on an empty database, and a peer connects to it.\<close>

definition started :: app where
  "started =
     (case identity_ensure sample_ext sample_db of
        (Inr me, d) \<Rightarrow>
          (fresh_app sample_net me (vk_bytes (verifying_key sample_ext (li_signing_key me))) d)
            \<lparr>app_events := [IdentityReady (to_uri sample_ext (li_y7_id me))]\<rparr>
      | (Inl _, _) \<Rightarrow> alice_app sample_db)"

definition public_addr :: maddr where
  "public_addr = [Ip4 198 51 100 9, Tcp 4001]"

definition bob_up :: task_input where
  "bob_up = FromSwarm (SwarmEstablished bob_peer 1 \<lparr>cp_remote = public_addr, cp_is_relayed = False\<rparr>)"

lemma sample_boot:
  "\<exists>bootstraps mode. boot sample_ext sample_net (Inr sample_libp2p) sample_db =
     Inr (started, spawn_swarm_with_bootstraps sample_libp2p bootstraps mode)"
proof -
  have "\<not> isl (fst (identity_ensure sample_ext sample_db))"
    by code_simp
  then obtain me d where me: "identity_ensure sample_ext sample_db = (Inr me, d)"
    by (cases "identity_ensure sample_ext sample_db"; cases "fst (identity_ensure sample_ext sample_db)") auto
  obtain bs where "load_bootstraps sample_ext d = (Inr bs, d)"
    using load_bootstraps_run by blast
  with me show ?thesis
    by (auto simp: boot_def started_def Let_def)
qed

lemma established_is_published:
  "length (deeds s) < length (deeds (snd (on_established p i endpoint s))) \<and>
   deeds (snd (on_established p i endpoint s)) ! length (deeds s) =
     Published (ConnectionEstablished p i (connection_kind_for endpoint) (cp_remote endpoint))"
  by (auto simp: on_established_def remember_address_def seqA_Inr andThen_Inr Let_def nth_append
      split: sum.splits)

lemma bob_joins:
  "\<exists>t n. boot sample_ext sample_net (Inr sample_libp2p) sample_db = Inr (started, t) \<and>
     (node_step sample_ext)\<^sup>*\<^sup>* \<lparr>node_app = started, node_task = t, node_read = 0\<rparr> n \<and>
     map_of (presence (node_app n)) bob_y7 = Some Internet"
proof -
  obtain t where boot: "boot sample_ext sample_net (Inr sample_libp2p) sample_db = Inr (started, t)"
    using sample_boot by blast
  define u where "u = snd (task_turn sample_ext bob_up t)"
  let ?k = "length (deeds t)"
  let ?ev = "ConnectionEstablished bob_peer 1 Internet public_addr"
  let ?start = "\<lparr>node_app = started, node_task = t, node_read = 0\<rparr>"
  have "connection_kind_for \<lparr>cp_remote = public_addr, cp_is_relayed = False\<rparr> = Internet"
    by code_simp
  then have u: "?k < length (deeds u)" "published (deeds u ! ?k) = Some ?ev"
    using established_is_published [of t bob_peer 1 "\<lparr>cp_remote = public_addr, cp_is_relayed = False\<rparr>"]
    by (simp_all add: u_def task_turn_def bob_up_def handle_swarm_event_def published_def)
  have up: "(node_step sample_ext)\<^sup>*\<^sup>* ?start \<lparr>node_app = started, node_task = u, node_read = 0\<rparr>"
    using node_step.network [of bob_up sample_ext ?start]
    by (intro r_into_rtranclp) (simp add: u_def bob_up_def ends_task_def)
  have "(node_step sample_ext)\<^sup>*\<^sup>* ?start \<lparr>node_app = started, node_task = u, node_read = ?k\<rparr>"
  proof (cases "?k = 0")
    case False
    then have "node_step sample_ext \<lparr>node_app = started, node_task = u, node_read = 0\<rparr>
        \<lparr>node_app = started, node_task = u, node_read = ?k\<rparr>"
      using node_step.pass [of "\<lparr>node_app = started, node_task = u, node_read = 0\<rparr>" ?k sample_ext] u(1) by simp
    with up show ?thesis
      by (rule rtranclp.rtrancl_into_rtrancl)
  qed (use up in simp)
  moreover have "node_step sample_ext \<lparr>node_app = started, node_task = u, node_read = ?k\<rparr>
      \<lparr>node_app = snd (loop_turn sample_ext ?ev started), node_task = u, node_read = ?k + 1\<rparr>"
    using node_step.event [of "\<lparr>node_app = started, node_task = u, node_read = ?k\<rparr>" ?ev sample_ext] u by simp
  ultimately have "(node_step sample_ext)\<^sup>*\<^sup>* ?start
      \<lparr>node_app = snd (loop_turn sample_ext ?ev started), node_task = u, node_read = ?k + 1\<rparr>"
    by (rule rtranclp.rtrancl_into_rtrancl)
  moreover have "map_of (presence (snd (loop_turn sample_ext ?ev started))) bob_y7 = Some Internet"
    by code_simp
  ultimately show ?thesis
    using boot by (metis node.select_convs(1))
qed

lemma steps_reachable: "(node_step E)\<^sup>*\<^sup>* n n' \<Longrightarrow> reachable E n \<Longrightarrow> reachable E n'"
  by (induction rule: rtranclp_induct) (blast intro: reachable.stepped)+

lemma bob_shows_up:
  "\<exists>n. reachable sample_ext n \<and> map_of (presence (node_app n)) bob_y7 = Some Internet"
  using bob_joins steps_reachable reachable.booted by blast

lemma presence_is_backed_witness:
  "\<exists>n p i kind. reachable sample_ext n \<and> map_of (presence (node_app n)) bob_y7 = Some Internet \<and>
     y7_id_from_peer_id sample_ext p = Some bob_y7 \<and> i \<in> fst ` set (conns_of bob_y7 (node_app n)) \<and>
     ((\<exists>a. Published (ConnectionEstablished p i kind a) \<in> set (deeds (node_task n))) \<or>
      Published (ConnectionUpgraded p i kind) \<in> set (deeds (node_task n)))"
proof -
  obtain n where n: "reachable sample_ext n" "map_of (presence (node_app n)) bob_y7 = Some Internet"
    using bob_shows_up by blast
  with presence_is_backed [OF n] show ?thesis
    by blast
qed

lemma reachable_caches_witness:
  "\<exists>n. reachable sample_ext n \<and> connection_meta_of (node_app n) bob_y7 = Some (snd (best_of bob_y7 (node_app n)))"
proof -
  obtain n where n: "reachable sample_ext n" "map_of (presence (node_app n)) bob_y7 = Some Internet"
    using bob_shows_up by blast
  with reachable_caches [OF n(1) refl, of bob_y7 "[]"] show ?thesis
    by (auto split: if_splits)
qed

end
