(* ===== verification/Typed_Store.thy ===== *)
theory Typed_Store
  imports System
begin

text \<open>
  The store stays well typed: whatever the client does from its start on, no statement of it
  breaks a primary key or leaves a word in a column that the reader of that column does not know.
\<close>

section \<open>Every handler keeps the store well typed\<close>

definition app_typed :: "app \<Rightarrow> bool" where
  "app_typed s \<longleftrightarrow> store_typed (app_db s)"

lemma app_typed_same: "app_typed s \<Longrightarrow> app_db t = app_db s \<Longrightarrow> app_typed t"
  by (simp add: app_typed_def)

lemma app_typed_modify: "(\<And>s. app_db (f s) = app_db s) \<Longrightarrow> keeps app_typed (modify f)"
  by (simp add: keeps_def app_typed_def)

lemma refresh_typed: "keeps app_typed (refresh_presence y)"
  by (rule keepsI, erule app_typed_same) (simp add: refresh_presence_run split: prod.splits)

lemma demote_typed: "keeps app_typed (demote E y ids)"
  by (rule keepsI, erule app_typed_same)
    (simp add: run_demote prune_def Let_def refresh_presence_run split: prod.splits option.splits)

interpretation client_store: client_predicate app_typed
proof
  show "app_typed (forget_peer y s)" if "app_typed s" for y s
    using that by (rule app_typed_same) (simp add: forget_peer_def)
  show "app_typed (s\<lparr>app_db := d\<rparr>)" if "app_typed s" "store_typed (app_db s) \<Longrightarrow> store_typed d" for s d
    using that by (simp add: app_typed_def)
qed (fact refresh_typed demote_typed | erule app_typed_same, simp)+

lemma publish_typed: "keeps app_typed between \<Longrightarrow> keeps app_typed (publish_presence E y between)"
  unfolding publish_presence_def record_transition_def emit_presence_def
  by (auto intro!: keeps_andThen keeps_seqA keeps_app_now_ms app_typed_modify refresh_typed
      client_store.keeps_primitives simp: Let_def)

lemma update_conns_typed: "keeps app_typed (update_conns y f)" "keeps app_typed (drop_connection y i)"
  by (auto simp: keeps_def app_typed_def update_conns_run drop_connection_def Let_def split: option.splits)

lemma dispatch_typed: "keeps app_typed (dispatch E ev)"
proof (cases ev)
  case (ConnectionEstablished p i k a)
  then show ?thesis
    by (auto simp: dispatch_def connection_established_def intro!: keeps_seqA keeps_ret update_conns_typed
        publish_typed app_typed_modify client_store.keeps_resume split: option.splits)
next
  case (ConnectionUpgraded p i k)
  then show ?thesis
    by (auto simp: dispatch_def connection_upgraded_def intro!: keeps_seqA keeps_ret update_conns_typed
        publish_typed app_typed_modify client_store.keeps_drain split: option.splits)
next
  case (ConnectionClosed p i)
  then show ?thesis
    by (auto simp: dispatch_def connection_closed_def intro!: keeps_andThen keeps_seqA keeps_ret
        update_conns_typed publish_typed app_typed_modify split: option.splits)
next
  case (ConnectionUpgradeFailed p e)
  then show ?thesis
    by (simp add: dispatch_def connection_upgrade_failed_def app_typed_modify)
next
  case (NatStatus a server ok)
  then show ?thesis
    by (auto simp: dispatch_def handle_nat_status_def intro!: keeps_andThen keeps_seqA keeps_ret keeps_asks
        keeps_if app_typed_modify client_store.keeps_primitives)
qed (simp_all only: client_store.keeps_other_events)

section \<open>The node\<close>

lemma node_step_typed:
  assumes "node_step E n n'" "app_typed (node_app n)"
  shows "app_typed (node_app n')"
  using assms(1)
proof cases
  case (spawned before t after)
  have "app_typed ((node_app n)\<lparr>app_tasks := before @ after\<rparr>)"
    using assms(2) by (rule app_typed_same) simp
  then show ?thesis
    unfolding spawned by (simp add: keepsD [OF client_store.keeps_run_task])
next
  case (environment os N)
  then show ?thesis
    using assms(2) by (simp add: app_typed_def store_typed_keyed)
qed (use assms(2) in \<open>simp_all add: client_store.run_command_keeps keepsD [OF client_store.keeps_tick]
    keepsD [OF client_store.keeps_boot_reconnect]
    keepsD [OF client_store.keeps_loop_turn [OF dispatch_typed]]\<close>)

lemma boot_typed:
  assumes "boot E N built d = Inr (s, t)" "store_typed d"
  shows "app_typed s"
proof -
  obtain me d' where me: "identity_ensure E d = (Inr me, d')"
    using assms by (auto simp: boot_def split: prod.splits sum.splits)
  have "store_typed d'"
    using keepsD [OF typed_identity assms(2), of E] me by simp
  moreover obtain bs where "load_bootstraps E d' = (Inr bs, d')"
    using load_bootstraps_run by blast
  ultimately show ?thesis
    using assms(1) me by (cases built) (auto simp: boot_def Let_def app_typed_def fresh_app_def)
qed

text \<open>
  C14. The store stays well typed: if it was when the client opened it, then after the start and
  any sequence of events, commands, tasks and ticks, every primary key is still unique, every
  status, direction and resolution that is stored is a word that its reader knows, a request is
  resolved exactly when its resolution is stored, and its number is one that was given out.
\<close>

theorem store_stays_typed:
  assumes "store_typed d" "boot E N built d = Inr (s, t)"
    and "(node_step E)\<^sup>*\<^sup>* \<lparr>node_app = s, node_task = t, node_read = 0\<rparr> n"
  shows "primary_keys_ok (db_tables (app_db (node_app n))) \<and> rows_ok (db_tables (app_db (node_app n)))"
proof -
  have "app_typed (node_app n)"
    using assms(3)
  proof (induction rule: rtranclp_induct)
    case base
    then show ?case
      using boot_typed [OF assms(2,1)] by simp
  qed (rule node_step_typed)
  then show ?thesis
    by (simp add: app_typed_def store_typed_def)
qed

text \<open>The client starts on an empty database, and a peer connects to it.\<close>

lemma store_stays_typed_witness:
  "\<exists>n :: node. map_of (presence (node_app n)) bob_y7 = Some Internet \<and>
     primary_keys_ok (db_tables (app_db (node_app n))) \<and> rows_ok (db_tables (app_db (node_app n)))"
proof -
  have "store_typed sample_db"
    by (simp add: schema_defs sample_db_def empty_tables_def keys_distinct_def)
  with store_stays_typed [of sample_db sample_ext] bob_joins show ?thesis
    by blast
qed

end
