(* ===== verification/Two_Clients.thy ===== *)
theory Two_Clients
  imports Message_Commands
begin

text \<open>
  Two clients and what travels between them: a text that one of them sends, in the envelope that
  its delivery task carries, and the answer that comes back. Nothing else is shared, and neither
  client knows the other's secret.
\<close>

section \<open>The envelope at its recipient\<close>

text \<open>
  ChaCha20-Poly1305 adds a tag of 16 bytes. The bound of the receiver (\<open>handle_msg\<close>) leaves 256
  bytes for it and the kind byte.
\<close>

definition aead_overhead :: "ext \<Rightarrow> bool" where
  "aead_overhead E \<longleftrightarrow> (\<forall>k n p a c. chacha_encrypt E k n p a = Inr c \<longrightarrow> length c \<le> length p + 16)"

text \<open>The recipient has a session with the sender, has not blocked it, and has budget for it.\<close>

definition listens_to :: "ext \<Rightarrow> y7id \<Rightarrow> peer \<Rightarrow> app \<Rightarrow> bool" where
  "listens_to E y p w \<longleftrightarrow>
     peer_id_from_y7 E y = Inr p \<and>
     (\<exists>x. fst (sessions_get E y (app_db w)) = Inr (Some x)) \<and>
     (\<exists>c. fst (contacts_get E y (app_db w)) = Inr c \<and> map_option contact_state c \<noteq> Some Blocked) \<and>
     fst (allow_msg p (os_instant (db_os (app_db w))) (app_limiter w)) \<and>
     db_fault (app_db w) ''messages.insert'' = None"

lemma identity_okD:
  assumes "identity_ok E s"
  shows "signing_key_ok (app_me s)" "my_pubkey s = public_of E (app_me s)"
    "my_y7_id s = Y7Id (public_of E (app_me s))"
  using assms by (simp_all add: identity_ok_def)

lemma sent_opens_at_recipient:
  assumes "ext_laws E" "identity_ok E s" "identity_ok E w" "is_str text"
    and "derive_conv_key E (app_me s) (pubkey (my_y7_id w))
      (conv_bytes (conversation_between E (my_y7_id s) (my_y7_id w))) = Inr key"
    and "seal_kind E (app_me s) (public_of E (app_me s)) key (tag_text # as_bytes text) os = (Inr (i, e, ts), os')"
  shows "opened E w e (Text text)"
    "derive_conv_key E (app_me w) (pubkey (my_y7_id s))
      (conv_bytes (conversation_between E (my_y7_id w) (my_y7_id s))) = Inr key"
    "open_envelope E e (VerifyingKey (public_of E (app_me s))) key = Inr (Text text)"
    "verifying_key_from_bytes E (env_sender_pub e) = Inr (VerifyingKey (public_of E (app_me s)))"
proof -
  note a = identity_okD [OF assms(2)] and b = identity_okD [OF assms(3)]
  show key: "derive_conv_key E (app_me w) (pubkey (my_y7_id s))
      (conv_bytes (conversation_between E (my_y7_id w) (my_y7_id s))) = Inr key"
    using derive_conv_key_sym [OF assms(1) a(1) b(1)] assms(5) a(3) b(3)
    by (simp add: conversation_between_sym)
  show opens: "open_envelope E e (VerifyingKey (public_of E (app_me s))) key = Inr (Text text)"
    using open_sealed [OF assms(1) a(1) assms(6)] open_plaintext_text [OF assms(4)] by simp
  show vk: "verifying_key_from_bytes E (env_sender_pub e) = Inr (VerifyingKey (public_of E (app_me s)))"
    using verifying_key_of_public [OF ext_lawsD(3) [OF assms(1)] a(1)] seal_kind_Inr(5) [OF assms(6)] by simp
  show "opened E w e (Text text)"
    using key opens vk seal_kind_Inr(5) [OF assms(6)] a(3)
    by (simp add: opened_def open_from_peer_def andThen_lift_res conversation_between_sym)
qed

lemma sealed_text_size:
  assumes "aead_overhead E" "int (length text) \<le> max_message_bytes"
    and "seal_kind E me pk key (tag_text # as_bytes text) os = (Inr (i, e, ts), os')"
  shows "int (length (env_ciphertext e)) \<le> max_message_bytes + 256"
proof -
  have "length (env_ciphertext e) \<le> length (tag_text # as_bytes text) + 16"
    using assms(1) seal_kind_Inr(8) [OF assms(3)] unfolding aead_overhead_def by blast
  with assms(2) show ?thesis
    by simp
qed

section \<open>The text at its recipient\<close>

definition same_identity :: "app \<Rightarrow> app \<Rightarrow> bool" where
  "same_identity w t \<longleftrightarrow> my_y7_id t = my_y7_id w \<and> app_me t = app_me w \<and> my_pubkey t = my_pubkey w"

lemma keeps_identity_deliver: "keeps (same_identity w) (deliver E y conv e ch (Text body))"
  unfolding deliver_def ack_msg_def
  by (auto simp: same_identity_def intro!: keeps_andThen keeps_asks keeps_seqA keeps_net_command keeps_promote
      keeps_ret keeps_emit keeps_if keeps_on_db_via keeps_messages_insert)

lemma stored_decodes:
  assumes "envelope_ok e" "length (env_sender_pub e) = 32" "length (conv_bytes conv) = 16" "length pk = 32"
  obtains m where "message_decode (message_new_row now (stored_as conv pk e)) = Inr m"
    "message_envelope_of m = e" "msg_sender m = env_sender_pub e" "msg_id m = MessageId (env_message_id e)"
proof -
  let ?m = "\<lparr>msg_id = MessageId (env_message_id e), msg_conv = conv, msg_sender = env_sender_pub e,
      msg_recipient = pk, msg_timestamp = env_timestamp_ms e, msg_status = Synced, msg_payload = env_ciphertext e,
      msg_nonce = env_nonce e, msg_sig = env_sig e, msg_inserted_at = now\<rparr>"
  have "message_decode (message_new_row now (stored_as conv pk e)) = Inr ?m"
    using assms by (simp add: message_decode_Inr_iff message_new_row_def stored_as_def message_id_from_bytes_def
        envelope_ok_def)
  then show ?thesis
    by (rule that) (simp_all add: message_envelope_of_def)
qed

lemma text_arrives:
  assumes "ext_laws E" "identity_ok E s" "identity_ok E w" "listens_to E (my_y7_id s) p w"
    and "opened E w e (Text text)" "envelope_ok e" "env_sender_pub e = my_pubkey s"
    and "int (length (env_ciphertext e)) \<le> max_message_bytes + 256"
    and "\<not> has_key mr_id (env_message_id e) (messages_of w)" "handle_msg E p e ch w = (r, w')"
  obtains row m where "messages_of w' = messages_of w @ [row]" "message_decode row = Inr m"
    "message_envelope_of m = e" "msg_sender m = my_pubkey s" "msg_id m = MessageId (env_message_id e)"
    "mr_conv row = conv_bytes (conversation_between E (my_y7_id w) (my_y7_id s))"
    "app_wire w' = app_wire w @ [WRespondMsg ch True]" "same_identity w w'"
proof -
  note a = identity_okD [OF assms(2)] and b = identity_okD [OF assms(3)]
  let ?conv = "conversation_between E (my_y7_id s) (my_y7_id w)"
  have y: "Y7Id (env_sender_pub e) = my_y7_id s"
    using assms(7) a by simp
  have gate: "msg_gate E p w e (Text text)"
    using assms(4,5,8) y by (auto simp: msg_gate_def listens_to_def)
  obtain rl where lim: "limiter allow_msg p w = (Inr True, w\<lparr>app_limiter := rl\<rparr>)"
    using assms(4) by (cases "allow_msg p (os_instant (db_os (app_db w))) (app_limiter w)")
      (auto simp: run_limiter listens_to_def)
  have run: "deliver E (my_y7_id s) ?conv e ch (Text text) (w\<lparr>app_limiter := rl\<rparr>) = (r, w')"
    using handle_msg_passes [OF gate lim, of ch] assms(10) y by simp
  have len: "length (conv_bytes ?conv) = 16" "length (my_pubkey w) = 32" "length (my_pubkey s) = 32"
    using a b length_public_of [OF ext_lawsD(3) [OF assms(1)]] length_conversation_between [OF ext_lawsD(2) [OF assms(1)]]
    by simp_all
  let ?new = "stored_as ?conv (my_pubkey (w\<lparr>app_limiter := rl\<rparr>)) e"
  obtain d where ins: "messages_insert ?new (app_db (w\<lparr>app_limiter := rl\<rparr>)) = (Inr True, d)"
    using assms(4,9) by (simp add: messages_insert_def stmt_def andThen_def listens_to_def stored_as_def
        message_id_from_bytes_def messages_of_def)
  note stored = deliver_text_stored [OF ins run]
  have "same_identity w w'"
    using keepsD [OF keeps_identity_deliver, of w "w\<lparr>app_limiter := rl\<rparr>"] run
    by (simp add: same_identity_def) (metis snd_conv)
  moreover have "messages_of w' = messages_of w @ [message_new_row (os_now (db_os (app_db w))) ?new]"
    using stored(1) messages_insert_Inr(3) [OF ins] assms(9)
    by (simp add: insert_or_ignore_def stored_as_def message_id_from_bytes_def messages_of_def)
  moreover have "mr_conv (message_new_row (os_now (db_os (app_db w))) ?new) = conv_bytes ?conv"
    by (simp add: message_new_row_def stored_as_def)
  moreover obtain m where "message_decode (message_new_row (os_now (db_os (app_db w))) ?new) = Inr m"
    "message_envelope_of m = e" "msg_sender m = env_sender_pub e" "msg_id m = MessageId (env_message_id e)"
    by (rule stored_decodes [OF assms(6) _ len(1)]) (use len(2,3) assms(7) in simp_all)
  ultimately show ?thesis
    using that [of "message_new_row (os_now (db_os (app_db w))) ?new" m] stored(2) assms(7)
    by (simp add: conversation_between_sym)
qed

lemma arrived_text_is_listed:
  assumes "same_identity w w'" "my_pubkey s \<noteq> my_pubkey w"
    and "row \<in> set (messages_of w')" "message_decode row = Inr m" "message_envelope_of m = e" "msg_sender m = my_pubkey s"
    and "mr_conv row = conv_bytes (conversation_between E (my_y7_id w) (my_y7_id s))"
    and "derive_conv_key E (app_me w) (pubkey (my_y7_id s))
      (conv_bytes (conversation_between E (my_y7_id w) (my_y7_id s))) = Inr key"
    and "open_envelope E e (VerifyingKey (my_pubkey s)) key = Inr (Text text)"
    and "verifying_key_from_bytes E (env_sender_pub e) = Inr (VerifyingKey (my_pubkey s))" "env_sender_pub e = my_pubkey s"
    and "int (length (messages_of w')) \<le> limit" "list_messages E (my_y7_id s) limit w' = (Inr views, u)"
  shows "\<exists>v \<in> set views. mvw_message_id v = message_id_show E (msg_id m) \<and> mvw_text v = text \<and> \<not> mvw_is_mine v"
proof (rule bexI)
  show "view_of E (my_pubkey w') m text \<in> set views"
    by (rule row_is_listed [OF assms(13,12) _ _ assms(4)]) (use assms in \<open>simp_all add: same_identity_def\<close>)
  show "mvw_message_id (view_of E (my_pubkey w') m text) = message_id_show E (msg_id m) \<and>
      mvw_text (view_of E (my_pubkey w') m text) = text \<and> \<not> mvw_is_mine (view_of E (my_pubkey w') m text)"
    using assms(1,2,6) by (simp add: view_of_def same_identity_def)
qed

text \<open>
  C2. A text crosses: when a send has succeeded, its delivery task is addressed to the peer,
  and the envelope it carries, handled by a peer that listens, is stored there, acknowledged, and
  shown in the peer's listings of the conversation under the same id, with the same text, as
  the other's; and the sender that hears this acknowledgement in time marks it \<open>Delivered\<close>.
\<close>

theorem text_crosses:
  assumes "ext_laws E" "aead_overhead E" "identity_ok E s" "identity_ok E w" "is_str text"
    and "listens_to E (my_y7_id s) p w" "send_message E (my_y7_id w) text s = (Inr i, t)"
    and "\<not> has_key mr_id (mid_bytes i) (messages_of s)" "\<not> has_key mr_id (mid_bytes i) (messages_of w)"
    and "db_fault (app_db s) ''messages.update_status'' = None"
  shows "\<exists>q e. app_tasks t = app_tasks s @ [PushOne i (my_y7_id w) q e] \<and>
    peer_id_from_y7 E (my_y7_id w) = Inr q \<and>
    (\<forall>r w'. handle_msg E p e ch w = (r, w') \<longrightarrow>
       app_wire w' = app_wire w @ [WRespondMsg ch True] \<and>
       (\<forall>limit views u. int (length (messages_of w')) \<le> limit \<longrightarrow>
          list_messages E (my_y7_id s) limit w' = (Inr views, u) \<longrightarrow>
          (\<exists>v \<in> set views. mvw_message_id v = message_id_show E i \<and> mvw_text v = text \<and> \<not> mvw_is_mine v))) \<and>
    (\<not> ne_timeout (app_net t) (app_wire t) \<and> ne_msg (app_net t) (app_wire t) q e = Inr True \<longrightarrow>
       (\<exists>u. push_one E i (my_y7_id w) q e t = (Inr (), u) \<and> message_status_in u (mid_bytes i) = Some 2))"
proof -
  note a = identity_okD [OF assms(3)] and b = identity_okD [OF assms(4)]
  obtain q e key os os' ts where task: "app_tasks t = app_tasks s @ [PushOne i (my_y7_id w) q e]"
    "peer_id_from_y7 E (my_y7_id w) = Inr q" and other: "my_y7_id w \<noteq> my_y7_id s"
    and env: "env_message_id e = mid_bytes i" "env_sender_pub e = my_pubkey s" "int (length text) \<le> max_message_bytes"
    and key: "derive_conv_key E (app_me s) (pubkey (my_y7_id w))
      (conv_bytes (conversation_between E (my_y7_id s) (my_y7_id w))) = Inr key"
    and sealed: "seal_kind E (app_me s) (public_of E (app_me s)) key (tag_text # as_bytes text) os = (Inr (i, e, ts), os')"
    by (rule sent_envelope [OF assms(3,7)])
  note opens = sent_opens_at_recipient [OF assms(1,3,4,5) key sealed]
  have arrives: "app_wire w' = app_wire w @ [WRespondMsg ch True] \<and>
      (\<forall>limit views u. int (length (messages_of w')) \<le> limit \<longrightarrow>
         list_messages E (my_y7_id s) limit w' = (Inr views, u) \<longrightarrow>
         (\<exists>v \<in> set views. mvw_message_id v = message_id_show E i \<and> mvw_text v = text \<and> \<not> mvw_is_mine v))"
    if h: "handle_msg E p e ch w = (r, w')" for r w'
  proof -
    have "envelope_ok e" "int (length (env_ciphertext e)) \<le> max_message_bytes + 256"
      "\<not> has_key mr_id (env_message_id e) (messages_of w)"
      using sealed_envelope_ok [OF assms(1) a(1) sealed] sealed_text_size [OF assms(2) env(3) sealed] env(1) assms(9)
      by simp_all
    then obtain row m where row: "messages_of w' = messages_of w @ [row]" "message_decode row = Inr m"
      "message_envelope_of m = e" "msg_sender m = my_pubkey s" "msg_id m = MessageId (env_message_id e)"
      "mr_conv row = conv_bytes (conversation_between E (my_y7_id w) (my_y7_id s))"
      and ack: "app_wire w' = app_wire w @ [WRespondMsg ch True]" and same: "same_identity w w'"
      by (rule text_arrives [OF assms(1,3,4,6) opens(1) _ env(2) _ _ h])
    have "my_pubkey s \<noteq> my_pubkey w" "MessageId (env_message_id e) = i"
      using other a b env(1) by (simp_all add: message_id.expand)
    then show ?thesis
      using ack arrived_text_is_listed [OF same _ _ row(2,3,4,6) opens(2) opens(3,4) [folded a(2)] env(2)] row(1,5)
      by simp
  qed
  note f = send_message_stores [OF assms(7,8)]
  have "db_fault (app_db t) ''messages.update_status'' = None"
    using f(3) assms(10) by simp
  then have "\<not> ne_timeout (app_net t) (app_wire t) \<and> ne_msg (app_net t) (app_wire t) q e = Inr True \<longrightarrow>
      (\<exists>u. push_one E i (my_y7_id w) q e t = (Inr (), u) \<and> message_status_in u (mid_bytes i) = Some 2)"
    using push_acknowledged [OF _ _ _ f(1)] by blast
  then show ?thesis
    using task arrives by (intro exI [of _ q] exI [of _ e] conjI allI impI) simp_all
qed

section \<open>A contact request at its recipient\<close>

lemma sessions_upsert_run:
  assumes "db_fault d ''sessions.upsert'' = None"
  obtains rows where "sessions_upsert E y d = (Inr (), d\<lparr>db_tables := (db_tables d)\<lparr>t_sessions := rows\<rparr>\<rparr>)"
    "has_key sr_peer (to_uri E y) rows"
  using assms that by (simp add: sessions_upsert_def execute_Inr andThen_def session_rows.has_key_upsert)

lemma keeps_ensure_incoming:
  "keeps (\<lambda>t. t_sessions (db_tables (app_db t)) = ss \<and> app_wire t = ws) (ensure_incoming_request E y g)"
  unfolding ensure_incoming_request_def
  by (intro keeps_intros keeps_db) simp_all

lemma request_surfaced:
  assumes "ensure_incoming_request E y g s = (Inr (), t)" "status_of E y (db_tables (app_db s)) \<noteq> Some Accepted"
  shows "RequestReceived (to_uri E y) g \<in> set (app_events t)"
proof -
  have first: "ensure_incoming_request E y g s =
      (case fst (contacts_get E y (app_db s)) of Inl e \<Rightarrow> (Inl e, s) | Inr c \<Rightarrow>
         (if map_option contact_state c = Some Accepted then ret ()
          else seqA
           (if c = None then discard (on_db (contacts_insert E
              \<lparr>nc_id = y, nc_pub = pubkey y, nc_nickname = None, nc_status = PendingIn\<rparr>)) else ret ())
           (andThen (on_db (requests_list_pending E (Some Incoming))) (\<lambda>pending.
              seqA (if \<exists>r \<in> set pending. req_peer r = y then ret ()
                 else discard (on_db (requests_insert E \<lparr>nr_direction = Incoming, nr_peer = y, nr_text = g\<rparr>)))
                (emit (RequestReceived (to_uri E y) g))))) s)"
    by (simp only: ensure_incoming_request_def andThen_read on_db_reads fst_on_db)
  obtain c where c: "contacts_get E y (app_db s) = (Inr c, app_db s)"
    using assms(1) first by (cases "fst (contacts_get E y (app_db s))") (auto simp: prod_eq_iff)
  then have "map_option contact_state c \<noteq> Some Accepted"
    using assms(2) contacts_get_Some(2) by (cases c) fastforce+
  with c show ?thesis
    using assms(1) unfolding first
    by (auto simp: seqA_def andThen_def run_emit split: prod.splits sum.splits if_splits)
qed

lemma open_initiator_Inr:
  assumes "open_initiator E me pk peer g os = (Inr (req, eph), os')"
  shows "initiator_ed25519_pub req = pk" "hs_greeting req = g"
  using assms by (auto simp: open_initiator_def ephemeral_generate_def draw_def action_simps Let_def)

lemma responder_run:
  assumes p: "peer_id_from_y7 E who = Inr p" "from_pubkey (initiator_ed25519_pub req) = who"
    and l: "limiter allow_handshake p w = (Inr True, u)"
    and none: "sessions_get E who (app_db u) = (Inr None, app_db u)"
    and resp: "app_os (respond E (app_me u) (my_pubkey u) req) u = (Inr (resp, key, who), v)"
    and up: "on_db (sessions_upsert E who) v = (Inr (), x)"
    and h: "handle_handshake E p req ch w = (r, w')"
  obtains (queued) "ensure_incoming_request E who (hs_greeting req) (x\<lparr>app_wire := app_wire x @ [WRespondHandshake ch resp]\<rparr>) = (r, w')"
  | (gone) err where "r = Inl err" "w' = x\<lparr>app_wire := app_wire x @ [WRespondHandshake ch resp]\<rparr>"
proof -
  have "handle_handshake E p req ch w =
     seqA (net_command (WRespondHandshake ch resp)) (ensure_incoming_request E who (hs_greeting req)) x"
    unfolding handle_handshake_def Let_def
    by (simp add: andThen_Inr [of "limiter allow_handshake p" w True u] l p andThen_lift_res andThen_read none
        andThen_Inr [of "app_os (respond E (app_me u) (my_pubkey u) req)" u _ v] resp
        seqA_Inr [of "on_db (sessions_upsert E who)" v _ x] up)
  then show ?thesis
    using h that by (auto simp: seqA_def andThen_def run_net_command split: option.splits)
qed

text \<open>The responder's side: it answers, and has a session.\<close>

lemma handshake_answered:
  assumes "ext_laws E" "identity_ok E s" "identity_ok E w"
    and "peer_id_from_y7 E (my_y7_id s) = Inr p"
    and "fst (allow_handshake p (os_instant (db_os (app_db w))) (app_limiter w))"
    and "fst (sessions_get E (my_y7_id s) (app_db w)) = Inr None"
    and "db_fault (app_db w) ''sessions.upsert'' = None"
    and "open_initiator E (app_me s) (my_pubkey s) (my_pubkey w) g os = (Inr (req, eph), os')"
    and "handle_handshake E p req ch w = (r, w')"
  obtains resp key os2 where
    "respond E (app_me w) (my_pubkey w) req (db_os (app_db w)) = (Inr (resp, key, my_y7_id s), os2)"
    "app_wire w' = app_wire w @ [WRespondHandshake ch resp]"
    "has_key sr_peer (to_uri E (my_y7_id s)) (t_sessions (db_tables (app_db w')))"
    "r = Inr () \<longrightarrow> status_in E w (my_y7_id s) \<noteq> Some Accepted \<longrightarrow>
       RequestReceived (to_uri E (my_y7_id s)) g \<in> set (app_events w')"
proof -
  note a = identity_okD [OF assms(2)] and o = open_initiator_Inr [OF assms(8)]
  let ?y = "my_y7_id s"
  obtain resp key who os2 where
    resp: "respond E (app_me w) (my_pubkey w) req (db_os (app_db w)) = (Inr (resp, key, who), os2)"
    by (rule respond_honest [OF assms(1) a(1) assms(8) [unfolded a(2)]])
  have who: "who = ?y" "from_pubkey (initiator_ed25519_pub req) = ?y"
    using respond_InrD(1) [OF resp] o a by (simp_all add: from_pubkey_def)
  obtain rl where lim: "limiter allow_handshake p w = (Inr True, w\<lparr>app_limiter := rl\<rparr>)"
    using assms(5) by (cases "allow_handshake p (os_instant (db_os (app_db w))) (app_limiter w)")
      (auto simp: run_limiter)
  let ?u = "w\<lparr>app_limiter := rl\<rparr>" and ?v = "w\<lparr>app_limiter := rl, app_db := (app_db w)\<lparr>db_os := os2\<rparr>\<rparr>"
  obtain rows where up: "sessions_upsert E ?y (app_db ?v) =
      (Inr (), (app_db ?v)\<lparr>db_tables := (db_tables (app_db ?v))\<lparr>t_sessions := rows\<rparr>\<rparr>)"
    and row: "has_key sr_peer (to_uri E ?y) rows"
    by (rule sessions_upsert_run [of "app_db ?v"]) (use assms(7) in auto)
  let ?x = "?v\<lparr>app_db := (app_db ?v)\<lparr>db_tables := (db_tables (app_db ?v))\<lparr>t_sessions := rows\<rparr>\<rparr>\<rparr>"
  let ?z = "?x\<lparr>app_wire := app_wire ?x @ [WRespondHandshake ch resp]\<rparr>"
  have "sessions_get E ?y (app_db ?u) = (Inr None, app_db ?u)"
    using assms(6) by (simp add: prod_eq_iff)
  moreover have "app_os (respond E (app_me ?u) (my_pubkey ?u) req) ?u = (Inr (resp, key, ?y), ?v)"
    using resp who by (simp add: run_app_os)
  moreover have "on_db (sessions_upsert E ?y) ?v = (Inr (), ?x)"
    unfolding run_on_db up by simp
  ultimately consider "ensure_incoming_request E ?y (hs_greeting req) ?z = (r, w')"
    | err where "r = Inl err" "w' = ?z"
    by (rule responder_run [OF assms(4) who(2) lim _ _ _ assms(9)])
  then show ?thesis
  proof cases
    case 1
    have "t_sessions (db_tables (app_db w')) = rows \<and> app_wire w' = app_wire w @ [WRespondHandshake ch resp]"
      using keepsD [OF keeps_ensure_incoming [of rows "app_wire w @ [WRespondHandshake ch resp]"], of ?z E ?y "hs_greeting req"] 1
      by simp
    moreover have "status_of E ?y (db_tables (app_db ?z)) = status_in E w ?y"
      by (simp add: status_of_def)
    ultimately show ?thesis
      using that resp who(1) row request_surfaced [of E ?y _ ?z] 1 o(2) by metis
  next
    case 2
    then show ?thesis
      using that resp who(1) row by simp
  qed
qed

text \<open>The initiator's side: it accepts a good answer, and has a session.\<close>

lemma initiator_done:
  assumes "open_initiator E (app_me s) (my_pubkey s) (pubkey y) g (db_os (app_db s)) = (Inr (req, eph), os')"
    and "ne_handshake (app_net s) (app_wire s) q req = Inr resp"
    and "finalize_initiator E eph (my_pubkey s) (pubkey y) resp = Inr key"
    and "db_fault (app_db s) ''sessions.upsert'' = None"
  obtains s' where "initiate_handshake E y q g s = (Inr (), s')"
    "has_key sr_peer (to_uri E y) (t_sessions (db_tables (app_db s')))"
proof -
  let ?u = "s\<lparr>app_db := (app_db s)\<lparr>db_os := os'\<rparr>\<rparr>"
  let ?v = "?u\<lparr>app_wire := app_wire s @ [WSendHandshake q req]\<rparr>"
  have opened: "app_os (open_initiator E (app_me s) (my_pubkey s) (pubkey y) g) s = (Inr (req, eph), ?u)"
    using assms(1) by (simp add: run_app_os)
  have sent: "send_handshake q req ?u = (Inr resp, ?v)"
    using assms(2) by (simp add: send_handshake_def net_call_def)
  have "initiate_handshake E y q g s = on_db (sessions_upsert E y) ?v"
    unfolding initiate_handshake_def
    by (simp add: andThen_Inr [of "app_os (open_initiator E (app_me s) (my_pubkey s) (pubkey y) g)" s _ ?u] opened sent
        andThen_Inr [of "send_handshake q req" ?u _ ?v]
        andThen_lift_res assms(3))
  moreover obtain rows where "sessions_upsert E y (app_db ?v) =
      (Inr (), (app_db ?v)\<lparr>db_tables := (db_tables (app_db ?v))\<lparr>t_sessions := rows\<rparr>\<rparr>)"
    "has_key sr_peer (to_uri E y) rows"
    by (rule sessions_upsert_run [of "app_db ?v"]) (use assms(4) in auto)
  ultimately show ?thesis
    using that by (simp add: run_on_db)
qed

text \<open>
  C3. A contact request crosses: the request that one client opens for another, arriving from
  the first one's peer id at the other's handler, is answered on its channel; both sides derive
  the same key from it and have a session afterwards, the responder as soon as it has answered,
  the initiator when it receives that answer; and unless the initiator is an accepted contact
  already, the request is shown to the responder's user with its greeting.
\<close>

theorem handshake_crosses:
  assumes "ext_laws E" "identity_ok E s" "identity_ok E w"
    and "peer_id_from_y7 E (my_y7_id s) = Inr p"
    and "fst (allow_handshake p (os_instant (db_os (app_db w))) (app_limiter w))"
    and "fst (sessions_get E (my_y7_id s) (app_db w)) = Inr None"
    and "db_fault (app_db w) ''sessions.upsert'' = None" "db_fault (app_db s) ''sessions.upsert'' = None"
    and "open_initiator E (app_me s) (my_pubkey s) (my_pubkey w) g (db_os (app_db s)) = (Inr (req, eph), os)"
    and "handle_handshake E p req ch w = (r, w')"
  shows "\<exists>resp key. app_wire w' = app_wire w @ [WRespondHandshake ch resp] \<and> hr_accept resp \<and>
    fst (respond E (app_me w) (my_pubkey w) req (db_os (app_db w))) = Inr (resp, key, my_y7_id s) \<and>
    finalize_initiator E eph (my_pubkey s) (my_pubkey w) resp = Inr key \<and>
    has_key sr_peer (to_uri E (my_y7_id s)) (t_sessions (db_tables (app_db w'))) \<and>
    (ne_handshake (app_net s) (app_wire s) q req = Inr resp \<longrightarrow>
       (\<exists>s'. initiate_handshake E (my_y7_id w) q g s = (Inr (), s') \<and>
             has_key sr_peer (to_uri E (my_y7_id w)) (t_sessions (db_tables (app_db s'))))) \<and>
    (r = Inr () \<and> status_in E w (my_y7_id s) \<noteq> Some Accepted \<longrightarrow>
       RequestReceived (to_uri E (my_y7_id s)) g \<in> set (app_events w'))"
proof -
  note a = identity_okD [OF assms(2)] and b = identity_okD [OF assms(3)]
  obtain resp key os2 where
    resp: "respond E (app_me w) (my_pubkey w) req (db_os (app_db w)) = (Inr (resp, key, my_y7_id s), os2)"
    and w': "app_wire w' = app_wire w @ [WRespondHandshake ch resp]"
      "has_key sr_peer (to_uri E (my_y7_id s)) (t_sessions (db_tables (app_db w')))"
      "r = Inr () \<longrightarrow> status_in E w (my_y7_id s) \<noteq> Some Accepted \<longrightarrow>
         RequestReceived (to_uri E (my_y7_id s)) g \<in> set (app_events w')"
    by (rule handshake_answered [OF assms(1-7,9,10)])
  have key: "finalize_initiator E eph (my_pubkey s) (my_pubkey w) resp = Inr key"
    using handshake_agrees [OF assms(1) a(1) b(1) assms(9) [unfolded a(2) b(2)] resp [unfolded b(2)]] a(2) b(2)
    by simp
  have peer: "pubkey (my_y7_id w) = my_pubkey w"
    using b by simp
  have "\<exists>s'. initiate_handshake E (my_y7_id w) q g s = (Inr (), s') \<and>
      has_key sr_peer (to_uri E (my_y7_id w)) (t_sessions (db_tables (app_db s')))"
    if "ne_handshake (app_net s) (app_wire s) q req = Inr resp"
    by (rule initiator_done [OF assms(9) [folded peer] that key [folded peer] assms(8)]) blast
  then show ?thesis
    using resp w' key respond_InrD(4) [OF resp] by (intro exI [of _ resp] exI [of _ key]) simp
qed

section \<open>A concrete exchange\<close>

definition alice_y7 :: y7id where
  "alice_y7 = Y7Id (public_of sample_ext alice)"

definition alice_peer :: peer where
  "alice_peer = (case peer_id_from_y7 sample_ext alice_y7 of Inr p \<Rightarrow> p | Inl _ \<Rightarrow> [])"

text \<open>The second party, with a session with the first one and no entry in its address book.\<close>

definition knows_alice :: app where
  "knows_alice = (alice_app (sample_db\<lparr>db_tables := empty_tables
     \<lparr>t_sessions := [\<lparr>sr_peer = to_uri sample_ext alice_y7, sr_established_at = 1, sr_last_used_at = 1\<rparr>]\<rparr>\<rparr>))
     \<lparr>app_me := bob, my_pubkey := public_of sample_ext bob, my_y7_id := bob_y7\<rparr>"

lemma alice_y7_ok: "y7id_ok alice_y7" "peer_id_from_y7 sample_ext alice_y7 = Inr alice_peer"
  "fst (allow_msg alice_peer 0 default_limits)"
  by code_simp+

lemma knows_alice_ok:
  "identity_ok sample_ext knows_alice" "listens_to sample_ext alice_y7 alice_peer knows_alice"
proof -
  show "identity_ok sample_ext knows_alice"
    by (simp add: identity_ok_def knows_alice_def alice_bob_ok bob_y7_def)
  have "parse sample_ext (to_uri sample_ext alice_y7) = Inr alice_y7"
    by (rule parse_to_uri [OF sample_b58 alice_y7_ok(1)])
  then show "listens_to sample_ext alice_y7 alice_peer knows_alice"
    using alice_y7_ok(2,3)
    by (simp add: listens_to_def sessions_get_def contacts_get_def query_def stmt_def andThen_def knows_alice_def
        alice_app_def sample_db_def sample_os_def transposeR_def empty_tables_def)
qed

lemma sample_overhead: "aead_overhead sample_ext"
  by (auto simp: aead_overhead_def sample_ext_def toy_encrypt_def split: if_splits)

text \<open>The second party before it knows anybody.\<close>

definition fresh_bob :: app where
  "fresh_bob = (alice_app sample_db)
     \<lparr>app_me := bob, my_pubkey := public_of sample_ext bob, my_y7_id := bob_y7\<rparr>"

lemma fresh_bob_ok:
  "identity_ok sample_ext fresh_bob" "identity_ok sample_ext (alice_app sample_db)"
  "fst (sessions_get sample_ext alice_y7 (app_db fresh_bob)) = Inr None"
  "fst (allow_handshake alice_peer 0 default_limits)"
proof -
  show "identity_ok sample_ext fresh_bob" "identity_ok sample_ext (alice_app sample_db)"
    by (simp_all add: identity_ok_def fresh_bob_def alice_app_def alice_bob_ok bob_y7_def)
  show "fst (sessions_get sample_ext alice_y7 (app_db fresh_bob)) = Inr None"
    by (simp add: sessions_get_def query_def stmt_def andThen_def fresh_bob_def alice_app_def sample_db_def
        empty_tables_def)
  show "fst (allow_handshake alice_peer 0 default_limits)"
    by code_simp
qed

theorem handshake_crosses_witness:
  "\<exists>req eph os resp. open_initiator sample_ext alice (public_of sample_ext alice) (public_of sample_ext bob)
       (Some ''hi'') sample_os = (Inr (req, eph), os) \<and>
     app_wire (snd (handle_handshake sample_ext alice_peer req 7 fresh_bob)) = [WRespondHandshake 7 resp] \<and>
     hr_accept resp"
proof -
  let ?s = "alice_app sample_db"
  obtain req eph os where o: "open_initiator sample_ext (app_me ?s) (my_pubkey ?s) (my_pubkey fresh_bob)
      (Some ''hi'') (db_os (app_db ?s)) = (Inr (req, eph), os)"
    by (simp add: open_initiator_def ephemeral_generate_def draw_def action_simps Let_def)
  have eqs: "my_y7_id ?s = alice_y7" "app_me ?s = alice" "my_pubkey ?s = public_of sample_ext alice"
    "my_pubkey fresh_bob = public_of sample_ext bob" "db_os (app_db ?s) = sample_os" "app_wire fresh_bob = []"
    "os_instant (db_os (app_db fresh_bob)) = 0" "app_limiter fresh_bob = default_limits"
    "db_fault (app_db fresh_bob) ''sessions.upsert'' = None" "db_fault (app_db ?s) ''sessions.upsert'' = None"
    by (simp_all add: fresh_bob_def alice_app_def alice_y7_def sample_db_def sample_os_def)
  show ?thesis
    using handshake_crosses [OF sample_ext_laws fresh_bob_ok(2,1) _ _ _ eqs(9,10) o prod.collapse [symmetric],
        of alice_peer 7] alice_y7_ok(2) fresh_bob_ok(3,4) o
    unfolding eqs by auto
qed

theorem text_crosses_witness:
  "\<exists>i t q e. send_message sample_ext bob_y7 ''hi'' (knows_bob Accepted) = (Inr i, t) \<and>
     app_tasks t = [PushOne i bob_y7 q e] \<and>
     app_wire (snd (handle_msg sample_ext alice_peer e 7 knows_alice)) = [WRespondMsg 7 True]"
proof -
  obtain i t where run: "send_message sample_ext (my_y7_id knows_alice) ''hi'' (knows_bob Accepted) = (Inr i, t)"
    using knows_bob_sends by (auto simp: knows_alice_def)
  have "my_y7_id (knows_bob Accepted) = alice_y7" "app_tasks (knows_bob Accepted) = []" "app_wire knows_alice = []"
    "messages_of knows_alice = []" "my_y7_id knows_alice = bob_y7"
    by (simp_all add: knows_bob_def alice_app_def alice_y7_def knows_alice_def messages_of_def sample_db_def
        empty_tables_def)
  moreover have "is_str ''hi''"
    by code_simp
  ultimately show ?thesis
    using text_crosses [OF sample_ext_laws sample_overhead knows_bob_id(1) knows_alice_ok(1) _ _ run, of alice_peer 7]
      knows_alice_ok(2) knows_bob_id(3) run
    by (fastforce simp: knows_bob_before has_key_def intro: prod.collapse [symmetric])
qed

end
