(* ===== verification/Spec2Isabelle.thy ===== *)
theory Spec2Isabelle
  imports Typed_Store Two_Clients
begin

text \<open>
  A verification development for y7ke, a peer-to-peer messenger written in Rust. A user is an
  Ed25519 key; two clients find each other on the local network, over a DHT or through relays,
  exchange signed contact requests, derive a key per conversation, and deliver sealed messages
  directly, with a queue and a synchronisation protocol for the times one of them is away.

  The program and its parts.

  \<^item> \<open>crates/y7ke-core\<close>: identifiers, status enums, errors, settings, events, wrappers of the
    cryptographic crates.
  \<^item> \<open>crates/y7ke-storage\<close>: an SQLite database with one data access object per table, the key
    that encrypts single fields, and its file.
  \<^item> \<open>crates/y7ke-net\<close>: the network task. It owns the libp2p swarm, takes commands from a
    channel (\<open>handle.rs\<close>), answers them through one-shot slots and publishes events (\<open>swarm.rs\<close>).
  \<^item> \<open>crates/y7ke-app\<close>: the client. Its event loop (\<open>event_loop.rs\<close>) handles the events of the
    network task; its commands (\<open>app/*.rs\<close>) serve the user interface; a ticker (\<open>app.rs\<close>) looks
    after the connections; handlers spawn delivery and synchronisation tasks. All of them share
    one state (\<open>AppInner\<close>) and the database.
  \<^item> \<open>src-tauri\<close>: the commands of the user interface, a thin layer over the client.

  How it is modelled. An operation is a function from a state to a result, an error or a value,
  and the state after it (\<open>Prelude\<close>: \<open>act\<close>, with \<open>andThen\<close> for \<open>?\<close>, \<open>ignore\<close> for \<open>let _ =\<close>,
  \<open>attempt\<close> for a matched \<open>Result\<close>). A storage operation runs on the record \<open>db\<close>, a handler or
  command on the record \<open>app\<close>, a step of the network task on the record \<open>swarm_task\<close>. Byte
  arrays are lists of \<open>8 word\<close>, 64-bit integers are \<open>int\<close> with the wrap-around or saturation
  written out, SQL tables are lists of raw rows in rowid order. Every statement may fail: which
  ones do is part of the state (\<open>db_fault\<close>).

  What is not under \<open>src/\<close> is a parameter. \<open>Externals\<close> declares the record \<open>ext\<close> of the functions
  of the cryptographic crates, \<open>bs58\<close>, \<open>blake3\<close>, \<open>serde\<close> and the texts of libp2p's types, with
  the laws the code relies on (\<open>ext_laws\<close>: signatures verify, sealed texts open, both sides of the
  exchange agree, encodings are read back); \<open>Sample\<close> has an instance on which every law holds, and
  the concrete witnesses run on it. The client sees the network task through \<open>net_env\<close> (what
  each command and request is answered); the network task sees libp2p through the record
  \<open>libp2p\<close> of what each call returns. Both are arbitrary in the theorems. Where ids must be
  fresh, this is the hypothesis \<open>fresh_ids\<close>.

  The theories, in the order of the code.

  \<^item> \<open>Prelude\<close>, \<open>Text_Scan\<close>, \<open>Externals\<close>, \<open>Sample\<close>: bytes, strings, actions and the calculus of
    predicates that an action keeps (\<open>keeps\<close>), string scanning, the parameters. The locale \<open>codec\<close>
    is the contract of an encoding that is read back; the status enums are its interpretations.
  \<^item> \<open>CoreTypes\<close>, \<open>Identifiers\<close>, \<open>Settings_Core\<close>, \<open>Crypto\<close>: \<open>y7ke-core\<close>.
  \<^item> \<open>Tables\<close>, \<open>Db\<close>, \<open>Dao_Contacts\<close>, \<open>Dao_Requests\<close>, \<open>Dao_Messages\<close>, \<open>Dao_Queues\<close>,
    \<open>Dao_State\<close>: \<open>y7ke-storage\<close>. The locale \<open>row_store\<close> is the contract of a table with a primary
    key, interpreted on every such table; \<open>substate\<close> is that of acting on a part of the state.
    \<open>Frames\<close> says which table each operation leaves alone, \<open>Schema\<close> what well-typed rows are.
  \<^item> \<open>Wire\<close>, \<open>Messaging\<close>, \<open>Handshake\<close>: the wire types, message envelopes, session establishment.
  \<^item> \<open>Rate_Limit\<close>, \<open>Reconnect\<close>, \<open>Config\<close>, \<open>Multiaddr\<close>: limits, backoff, bootstrap lists, the
    classifiers of addresses.
  \<^item> \<open>Net_Handle\<close>, \<open>App_State\<close>: the commands and events between the two tasks; the state of the
    client, the best connection of a peer, the presence caches, the lineage ring.
  \<^item> \<open>Outbox\<close>, \<open>Inbound\<close>, \<open>Sync\<close>, \<open>Connections\<close>: the handlers of \<open>event_loop.rs\<close>. The locale
    \<open>pull_source\<close> is what a pull loop needs of a peer that serves pages, interpreted on the pages
    that this client serves; \<open>cache_predicate\<close> collects what a predicate over the caches must
    ignore, and proves once that every handler keeps such a predicate.
  \<^item> \<open>Discovery\<close>, \<open>Contact_Commands\<close>, \<open>Message_Commands\<close>, \<open>Settings_Commands\<close>: \<open>app/*.rs\<close>.
  \<^item> \<open>Ticker\<close>: the presence ticker; \<open>client_predicate\<close> extends \<open>cache_predicate\<close> to everything the
    client runs.
  \<^item> \<open>Swarm\<close>, \<open>Swarm_Facts\<close>, \<open>Swarm_Slots\<close>, \<open>Swarm_Lan\<close>: the network task and what it keeps.
  \<^item> \<open>System\<close>, \<open>Typed_Store\<close>: dispatch, the loop, the commands of the user interface, spawned
    tasks, the start, and the node in which both tasks run, with its step relation \<open>node_step\<close>
    and its reachable states; what holds in all of them.
  \<^item> \<open>Two_Clients\<close>: two applications with their own databases and keys, and what one of them sends
    handled by the other.

  What is shown.

  \<^item> Messages. An inbound message has an effect only when it is authentic for its connection,
    signed by the peer it came from, under the conversation's key, from a peer with a session
    that is not blocked; a message of a blocked peer changes nothing; each message is stored and announced at
    most once; a text never opens the gate of a request that waits for the user. A message that
    was taken for sending is stored and delivered or queued, a drain never drops one that was not
    acknowledged, and a sent text is listed as it was written.
  \<^item> Synchronisation. Answering discloses only own messages, and marks, of the conversation with
    the requester, and nothing to one that is blocked or over its rate; pages are sorted,
    bounded and complete; the pull loop returns after a bounded number of requests whatever the
    peer answers, and against the pages that a peer of this kind serves it stores and announces
    exactly the messages that are new and pass the checks, each once and in ascending order;
    promotion sets exactly the rows it reports to \<open>Synced\<close>. A window of the rate limiter holds at
    most its limit, once more for each time in it that the peer was forgotten.
  \<^item> Keys and identities. Both sides of a handshake derive the same key; a sealed text opens at
    the other party; identities and their URIs are inverse; the identity and the
    data-encryption key are made once and never overwritten.
  \<^item> Presence. In every reachable state of the node the presence map is what the connections
    say, the connections are ones the network task announced, the lineage is a chain and the
    counters add up; closing one connection hides no other; a peer whose socket died goes
    offline and is searched for.
  \<^item> The network task. Every command that awaits an answer is answered or pending, exactly once;
    the address book is bounded; the reservation guard agrees with the circuit listeners; in
    LAN-only mode nothing is dialled or looked up on the task's own account, a peer is dialled at
    direct addresses only, and the switch undoes every circuit.
  \<^item> Discovery. In LAN-only mode it asks for cached local addresses only, and for the address
    book when there is one; in internet mode, while every dial is refused, it goes through the
    address book, the cache, the DHT and the relays, in this order.
  \<^item> Two clients. A text that one of them has taken for sending, carried to a client that listens,
    is stored there, acknowledged and listed as it was written, and the acknowledgement marks it
    delivered; a sender that is not blocked gets an acknowledgement only when the text's id is
    stored, a new id with what its envelope says; a contact request is
    answered, surfaces with its greeting, and leaves both with a session and the same key.
  \<^item> The store. Whatever the client does, primary keys stay unique and every stored status,
    direction and resolution is one that its reader knows; requests are resolved once; settings
    are read back; deleting a contact removes every row of the pair and leaves the sealed
    deletion for the peer.

  Bounds. The pull loop has the code's own limit as its fuel (sixty-four pages of fifty rows),
  so no fuel is invented; every other loop of the code runs over a list. The bounds of the
  code (sixteen addresses per peer, forty-eight transitions, the windows of the rate limiter,
  the backoff ceilings) are definitions with the values of the source.

  What is not modelled. The code is asynchronous: a handler of the model runs without
  interruption, while in the code other tasks may run at its awaits. Two places where this
  matters are modelled as such: the liveness check of the ticker, between whose snapshot and
  removal anything may happen, and the spawned tasks, which run as steps of their own in any
  order; the sweep of cached addresses, which the code spawns, runs at once. The commands that
  the client sends (\<open>app_wire\<close>) are recorded but not fed to the network task of the node: the
  answers of the network (\<open>net_env\<close>) and the inputs of the task are arbitrary instead, so what
  is shown holds for every behaviour of either. Where two clients meet (\<open>Two_Clients\<close>), the request
  of one is the argument of the other's handler, and the answer a hypothesis on \<open>net_env\<close>. Retries of SQLite, its write-ahead log and the
  pool are not modelled, nor a crash between two statements; which statements fail depends on
  their label only and stays the same during a run. The key file is written whole or not at all
  (\<open>write_file_private\<close>, as on Unix). Connections of a peer are a list in the order they opened,
  and of two of the same kind \<open>best_conn\<close> takes the same one every time, where the code follows
  the order of a hash map. The semaphore on DHT lookups only delays them and is left out. The
  slots that are still pending when the network task ends stay pending in the model; the code
  drops their senders, so that the callers see an error. The laws of cryptography are
  functional: they say what honest parties compute, not what an attacker cannot. Out of scope
  are the configuration of libp2p's behaviours (\<open>behaviour.rs\<close>, \<open>build_swarm\<close>), the CBOR codec, log
  output (\<open>netlog.rs\<close>), Tauri's window and process set-up (\<open>main.rs\<close>, \<open>boot_ready\<close>,
  \<open>reveal_window\<close>, \<open>log_from_ui\<close>), the process statistics in the boot log, the user interface, examples and tests.
\<close>

end
